theory Spec2Isabelle
  imports Main
begin

section \<open>JavaScript values\<close>

text \<open>
  The adapter interpreter works on untyped JavaScript data: the article, the execution
  context, request bodies and parsed responses. A value is \<open>undefined\<close>, JSON data, or
  something a property read on JSON data can reach: a built-in function (given by its
  name) or one of the prototype objects \<open>Object.prototype\<close> and \<open>Array.prototype\<close>.
  An object is the list of its own properties in insertion order; its prototype is
  \<open>Object.prototype\<close>, that of an array is \<open>Array.prototype\<close>. The own properties of
  objects and the elements of arrays are JSON data.

  A number is finite and is given by the decimal digits that \<open>Number::toString\<close>
  assigns to it (the shortest digits that denote it): \<open>JNum n\<close> is the integral number
  \<open>n\<close>, and \<open>JDec m e\<close> is \<open>m / 10 ^ e\<close> with \<open>0 < e\<close> and \<open>m\<close> not divisible by
  ten, so that equal numbers are equal terms. Strings are byte strings (ASCII).
\<close>

datatype prototype = ObjectPrototype | ArrayPrototype

datatype jsval =
    JUndefined
  | JNull
  | JBool bool
  | JNum int
  | JDec int nat
  | JStr string
  | JArr "jsval list"
  | JObj "(string \<times> jsval) list"
  | JFunction string
  | JPrototype prototype

type_synonym jsobj = "(string \<times> jsval) list"

subsection \<open>Thrown values\<close>

text \<open>
  Anything can be thrown: an \<open>Error\<close> object (of any error class), given by its message,
  or another value. A computation that may throw returns \<open>Inl\<close> of what it threw.
\<close>

datatype thrown = Error string | Thrown jsval

type_synonym 'a result = "thrown + 'a"

definition bind_result :: "'a result \<Rightarrow> ('a \<Rightarrow> 'b result) \<Rightarrow> 'b result" where
  "bind_result m f = (case m of Inl e \<Rightarrow> Inl e | Inr x \<Rightarrow> f x)"

subsection \<open>Strings\<close>

definition is_space :: "char \<Rightarrow> bool" where
  "is_space c = (c \<in> set [CHR '' '', CHR 0x09, CHR 0x0A, CHR 0x0B, CHR 0x0C, CHR 0x0D])"

definition is_line_terminator :: "char \<Rightarrow> bool" where
  "is_line_terminator c = (c = CHR 0x0A \<or> c = CHR 0x0D)"

definition is_digit :: "char \<Rightarrow> bool" where
  "is_digit c = (c \<in> set ''0123456789'')"

definition is_word_char :: "char \<Rightarrow> bool" where
  "is_word_char c =
     (c \<in> set ''abcdefghijklmnopqrstuvwxyzABCDEFGHIJKLMNOPQRSTUVWXYZ0123456789_'')"

text \<open>\<open>String.prototype.trim\<close>.\<close>

definition trim :: "string \<Rightarrow> string" where
  "trim s = rev (dropWhile is_space (rev (dropWhile is_space s)))"

text \<open>\<open>String.prototype.startsWith\<close> and \<open>endsWith\<close>.\<close>

definition startsWith :: "string \<Rightarrow> string \<Rightarrow> bool" where
  "startsWith s p = (take (length p) s = p)"

definition endsWith :: "string \<Rightarrow> string \<Rightarrow> bool" where
  "endsWith s p = (length p \<le> length s \<and> drop (length s - length p) s = p)"

text \<open>\<open>path.split('.')\<close>: the pieces between dots; the empty string has one empty piece.\<close>

fun split_dot :: "string \<Rightarrow> string list" where
  "split_dot [] = [[]]"
| "split_dot (c # cs) =
     (if c = CHR ''.'' then [] # split_dot cs
      else (case split_dot cs of
              [] \<Rightarrow> [[c]]
            | p # ps \<Rightarrow> (c # p) # ps))"

subsection \<open>Numbers as strings\<close>

text \<open>The decimal digits of a natural number.\<close>

definition digit_char :: "nat \<Rightarrow> char" where
  "digit_char d = ''0123456789'' ! (d mod 10)"

function nat_to_string :: "nat \<Rightarrow> string" where
  "nat_to_string n =
     (if n < 10 then [digit_char n] else nat_to_string (n div 10) @ [digit_char n])"
  by pat_completeness auto
termination
  by (relation "measure (\<lambda>n. n)") auto

declare nat_to_string.simps [simp del]

definition digit_val :: "char \<Rightarrow> nat" where
  "digit_val c = length (takeWhile (\<lambda>d. d \<noteq> c) ''0123456789'')"

definition digits_val :: "string \<Rightarrow> nat" where
  "digits_val ds = foldl (\<lambda>acc c. 10 * acc + digit_val c) 0 ds"

text \<open>
  \<open>Number::toString\<close> for a number that is not zero, given its sign, its digits (\<open>k\<close> of
  them, without leading or trailing zeros) and the position \<open>n\<close> of the decimal point
  after the first digit group (the number is \<open>0.digits \<times> 10 ^ n\<close>): an integer up to
  \<open>10 ^ 21\<close> is written out, a fraction down to \<open>10 ^ -6\<close> is written with a decimal
  point, and anything else in exponent notation.
\<close>

definition number_to_string :: "bool \<Rightarrow> string \<Rightarrow> int \<Rightarrow> string" where
  "number_to_string negative digits n =
     (let k = int (length digits)
      in (if negative then ''-'' else [])
         @ (if k \<le> n \<and> n \<le> 21 then digits @ replicate (nat (n - k)) (CHR ''0'')
            else if 0 < n \<and> n \<le> 21 then take (nat n) digits @ ''.'' @ drop (nat n) digits
            else if - 6 < n \<and> n \<le> 0 then ''0.'' @ replicate (nat (- n)) (CHR ''0'') @ digits
            else take 1 digits @ (if k = 1 then [] else ''.'' @ drop 1 digits)
                 @ ''e'' @ (if n - 1 < 0 then ''-'' else ''+'')
                 @ nat_to_string (nat \<bar>n - 1\<bar>)))"

text \<open>\<open>String(x)\<close> for the number \<open>m / 10 ^ e\<close>.\<close>

definition Number_toString :: "int \<Rightarrow> nat \<Rightarrow> string" where
  "Number_toString m e =
     (if m = 0 then ''0''
      else
        (let ds = nat_to_string (nat \<bar>m\<bar>);
             z = length (takeWhile (\<lambda>c. c = CHR ''0'') (rev ds))
         in number_to_string (m < 0) (take (length ds - z) ds) (int (length ds) - int e)))"

subsection \<open>Objects\<close>

text \<open>
  Reading an own property \<open>obj.key\<close> of an object given by its own-property list, for a
  key that no prototype has: a missing key reads \<open>undefined\<close>.
\<close>

definition obj_get :: "jsobj \<Rightarrow> string \<Rightarrow> jsval" where
  "obj_get kvs k = (case map_of kvs k of Some v \<Rightarrow> v | None \<Rightarrow> JUndefined)"

text \<open>Property write \<open>obj[key] = v\<close>: an existing key keeps its position.\<close>

fun obj_set :: "string \<Rightarrow> 'v \<Rightarrow> (string \<times> 'v) list \<Rightarrow> (string \<times> 'v) list" where
  "obj_set k v [] = [(k, v)]"
| "obj_set k v ((k', v') # kvs) =
     (if k = k' then (k, v) # kvs else (k', v') # obj_set k v kvs)"

text \<open>Object spread \<open>{...a, ...b}\<close>: the properties of \<open>b\<close> are written over those of \<open>a\<close>.\<close>

definition obj_spread :: "(string \<times> 'v) list \<Rightarrow> (string \<times> 'v) list \<Rightarrow> (string \<times> 'v) list" where
  "obj_spread a b = foldl (\<lambda>acc (k, v). obj_set k v acc) a b"

text \<open>An array index is a decimal numeral without leading zeros.\<close>

definition array_index :: "string \<Rightarrow> nat option" where
  "array_index k =
     (if k \<noteq> [] \<and> list_all is_digit k \<and> (k = ''0'' \<or> hd k \<noteq> CHR ''0'')
      then Some (digits_val k) else None)"

subsection \<open>Property reads\<close>

text \<open>
  The members that every object inherits from \<open>Object.prototype\<close> and every array from
  \<open>Array.prototype\<close> (ECMAScript 2023, with the legacy accessors). Each is a built-in
  function; \<open>constructor\<close> is the function \<open>Object\<close> or \<open>Array\<close>, and the \<open>length\<close>
  of \<open>Array.prototype\<close> is zero. The accessor \<open>__proto__\<close> is treated apart.
\<close>

definition object_methods :: "string list" where
  "object_methods =
     [''hasOwnProperty'', ''isPrototypeOf'', ''propertyIsEnumerable'', ''toLocaleString'',
      ''toString'', ''valueOf'', ''__defineGetter__'', ''__defineSetter__'',
      ''__lookupGetter__'', ''__lookupSetter__'']"

definition array_methods :: "string list" where
  "array_methods =
     [''at'', ''concat'', ''copyWithin'', ''entries'', ''every'', ''fill'', ''filter'', ''find'',
      ''findIndex'', ''findLast'', ''findLastIndex'', ''flat'', ''flatMap'', ''forEach'',
      ''includes'', ''indexOf'', ''join'', ''keys'', ''lastIndexOf'', ''map'', ''pop'', ''push'',
      ''reduce'', ''reduceRight'', ''reverse'', ''shift'', ''slice'', ''some'', ''sort'',
      ''splice'', ''toLocaleString'', ''toReversed'', ''toSorted'', ''toSpliced'', ''toString'',
      ''unshift'', ''values'', ''with'']"

definition object_members :: "string \<Rightarrow> jsval option" where
  "object_members k =
     (if k = ''constructor'' then Some (JFunction ''Object'')
      else if k \<in> set object_methods then Some (JFunction k)
      else None)"

definition array_members :: "string \<Rightarrow> jsval option" where
  "array_members k =
     (if k = ''constructor'' then Some (JFunction ''Array'')
      else if k = ''length'' then Some (JNum 0)
      else if k \<in> set array_methods then Some (JFunction k)
      else None)"

text \<open>The own property of an object, an array or a prototype object, if it has the key.\<close>

fun own_property :: "jsval \<Rightarrow> string \<Rightarrow> jsval option" where
  "own_property (JObj kvs) k = map_of kvs k"
| "own_property (JArr xs) k =
     (if k = ''length'' then Some (JNum (int (length xs)))
      else (case array_index k of
              Some i \<Rightarrow> (if i < length xs then Some (xs ! i) else None)
            | None \<Rightarrow> None))"
| "own_property (JPrototype ObjectPrototype) k = object_members k"
| "own_property (JPrototype ArrayPrototype) k = array_members k"
| "own_property _ k = None"

text \<open>The prototype of an object, and the member found on its prototype chain.\<close>

fun prototype_of :: "jsval \<Rightarrow> jsval" where
  "prototype_of (JObj kvs) = JPrototype ObjectPrototype"
| "prototype_of (JArr xs) = JPrototype ArrayPrototype"
| "prototype_of (JPrototype ArrayPrototype) = JPrototype ObjectPrototype"
| "prototype_of _ = JNull"

fun inherited_property :: "jsval \<Rightarrow> string \<Rightarrow> jsval option" where
  "inherited_property (JObj kvs) k = object_members k"
| "inherited_property (JArr xs) k =
     (case array_members k of Some v \<Rightarrow> Some v | None \<Rightarrow> object_members k)"
| "inherited_property (JPrototype ArrayPrototype) k = object_members k"
| "inherited_property _ k = None"

text \<open>
  \<open>current[key]\<close> for a value that passed \<open>current && typeof current === 'object'\<close>:
  the own property if there is one, else what the accessor \<open>__proto__\<close> gives for that
  key, else the inherited member, else \<open>undefined\<close>.
\<close>

definition get_property :: "jsval \<Rightarrow> string \<Rightarrow> jsval" where
  "get_property v k =
     (case own_property v k of
        Some x \<Rightarrow> x
      | None \<Rightarrow>
          if k = ''__proto__'' then prototype_of v
          else (case inherited_property v k of Some x \<Rightarrow> x | None \<Rightarrow> JUndefined))"

text \<open>\<open>typeof v === 'object'\<close> for a value that is not \<open>null\<close>.\<close>

fun is_object :: "jsval \<Rightarrow> bool" where
  "is_object (JObj kvs) = True"
| "is_object (JArr xs) = True"
| "is_object (JPrototype p) = True"
| "is_object _ = False"

text \<open>Truthiness (\<open>ToBoolean\<close>).\<close>

fun truthy :: "jsval \<Rightarrow> bool" where
  "truthy JUndefined = False"
| "truthy JNull = False"
| "truthy (JBool b) = b"
| "truthy (JNum n) = (n \<noteq> 0)"
| "truthy (JDec m e) = (m \<noteq> 0)"
| "truthy (JStr s) = (s \<noteq> [])"
| "truthy (JArr xs) = True"
| "truthy (JObj kvs) = True"
| "truthy (JFunction f) = True"
| "truthy (JPrototype p) = True"

subsection \<open>Conversion to a string\<close>

text \<open>
  \<open>String(value)\<close>, which is also the conversion of a template literal and of the
  arguments of the string built-ins. An array is the join of its elements, where \<open>null\<close>
  and \<open>undefined\<close> render empty. An object is converted by its \<open>toString\<close> member: the
  inherited one gives \<open>[object Object]\<close>, while an own property of that name holds data,
  is not callable, and leaves the conversion without a primitive: a \<open>TypeError\<close>. A
  built-in function renders as the engine prints it.
\<close>

fun join_comma :: "string list \<Rightarrow> string" where
  "join_comma [] = []"
| "join_comma [s] = s"
| "join_comma (s # t # ss) = s @ '','' @ join_comma (t # ss)"

fun js_String :: "jsval \<Rightarrow> string result"
  and join_elements :: "jsval list \<Rightarrow> string list result" where
  "js_String JUndefined = Inr ''undefined''"
| "js_String JNull = Inr ''null''"
| "js_String (JBool b) = Inr (if b then ''true'' else ''false'')"
| "js_String (JNum n) = Inr (Number_toString n 0)"
| "js_String (JDec m e) = Inr (Number_toString m e)"
| "js_String (JStr s) = Inr s"
| "js_String (JArr xs) =
     (case join_elements xs of Inl e \<Rightarrow> Inl e | Inr ss \<Rightarrow> Inr (join_comma ss))"
| "js_String (JObj kvs) =
     (if map_of kvs ''toString'' = None then Inr ''[object Object]''
      else Inl (Error ''Cannot convert object to primitive value''))"
| "js_String (JFunction f) = Inr (''function '' @ f @ ''() { [native code] }'')"
| "js_String (JPrototype ObjectPrototype) = Inr ''[object Object]''"
| "js_String (JPrototype ArrayPrototype) = Inr []"
| "join_elements [] = Inr []"
| "join_elements (x # xs) =
     (case (case x of JUndefined \<Rightarrow> Inr [] | JNull \<Rightarrow> Inr [] | _ \<Rightarrow> js_String x) of
        Inl e \<Rightarrow> Inl e
      | Inr s \<Rightarrow> (case join_elements xs of Inl e \<Rightarrow> Inl e | Inr ss \<Rightarrow> Inr (s # ss)))"

text \<open>
  \<open>(error as Error).message\<close> in a \<open>catch\<close> block: the message of an \<open>Error\<close> object,
  the \<open>message\<close> member of another object, \<open>undefined\<close> for a primitive value, and a
  \<open>TypeError\<close> of its own for \<open>undefined\<close> and \<open>null\<close>, which have no members.
\<close>

definition cannot_read :: "string \<Rightarrow> string \<Rightarrow> thrown" where
  "cannot_read what key =
     Error (''Cannot read properties of '' @ what @ '' (reading '' @ [CHR 0x27] @ key
            @ [CHR 0x27] @ '')'')"

fun error_message :: "thrown \<Rightarrow> jsval result" where
  "error_message (Error msg) = Inr (JStr msg)"
| "error_message (Thrown JUndefined) = Inl (cannot_read ''undefined'' ''message'')"
| "error_message (Thrown JNull) = Inl (cannot_read ''null'' ''message'')"
| "error_message (Thrown v) = Inr (if is_object v then get_property v ''message'' else JUndefined)"

section \<open>External collaborators\<close>

text \<open>
  What is sent to the transport. A body is form data, URL-encoded parameters or the JSON
  text of an object; the serialisation itself is the platform's.
\<close>

datatype BodyInit =
    FormData "(string \<times> string) list"
  | URLSearchParams "(string \<times> string) list"
  | JSON_stringify jsobj

record RequestInit =
  req_method :: string
  req_headers :: "(string \<times> string) list"
  req_body :: "BodyInit option"

text \<open>A response: reading its body as JSON or as text returns or throws.\<close>

record Response =
  ok :: bool
  status_code :: nat
  statusText :: string
  header_content_type :: "string option"
  json :: "jsval result"
  text_of :: "string result"

text \<open>
  The host runtime and the libraries outside this development. \<open>runtime_fetch\<close> answers
  the \<open>n\<close>-th request of an adapter; it throws on a network failure. The converters and
  the HTML preprocessor are functions that may throw. \<open>Date_now\<close> is the clock reading.
  \<open>parseInt\<close> and \<open>parseFloat\<close> are the engine's, asked only for numerals of more than
  fifteen digits, which the engine rounds.
\<close>

record env =
  runtime_fetch :: "nat \<Rightarrow> string \<Rightarrow> RequestInit \<Rightarrow> Response result"
  markdownToHtml :: "jsval \<Rightarrow> jsval result"
  processHtml :: "jsval \<Rightarrow> jsval \<Rightarrow> jsval result"
  htmlToMarkdown :: "jsval \<Rightarrow> jsval \<Rightarrow> jsval result"
  Date_now :: nat
  parseInt :: "string \<Rightarrow> jsval"
  parseFloat :: "string \<Rightarrow> jsval"

text \<open>
  The hooks an adapter is registered with (\<open>customLogic\<close>); an absent hook is \<open>None\<close>.
  Each is a function of its arguments that returns or throws.
\<close>

record CustomLogic =
  process_images :: "(jsval \<Rightarrow> jsval result) option"
  upload_image_by_url :: "(jsval \<Rightarrow> jsval result) option"
  content_transform :: "(jsval \<Rightarrow> jsobj \<Rightarrow> jsval result) option"
  before_request :: "(string \<Rightarrow> jsobj \<Rightarrow> (string \<times> string) list result) option"
  prepare_body :: "(string \<Rightarrow> BodyInit \<Rightarrow> jsobj \<Rightarrow> BodyInit result) option"

section \<open>Expression evaluator (adapters/base.ts)\<close>

subsection \<open>getNestedValue\<close>

text \<open>
  \<open>path.split('.').reduce((current, key) => ..., obj)\<close>: each key is read from the
  current value when that is an object, and gives \<open>undefined\<close> otherwise.
\<close>

definition nested_step :: "jsval \<Rightarrow> string \<Rightarrow> jsval" where
  "nested_step current key =
     (if truthy current \<and> is_object current then get_property current key else JUndefined)"

definition getNestedValue :: "jsval \<Rightarrow> string \<Rightarrow> jsval" where
  "getNestedValue obj path = foldl nested_step obj (split_dot path)"

subsection \<open>interpolate\<close>

text \<open>
  \<open>template.replace(/\{\{([^}]+)\}\}/g, ...)\<close>. The pattern matches at the head of a
  string when the string is two opening braces, a non-empty run of characters other than
  the closing brace, and two closing braces. \<open>match_placeholder\<close> returns the captured
  group and the text after the match.
\<close>

definition match_placeholder :: "string \<Rightarrow> (string \<times> string) option" where
  "match_placeholder s =
     (if take 2 s = ''{{'' then
        (let p = takeWhile (\<lambda>c. c \<noteq> CHR ''}'') (drop 2 s);
             r = dropWhile (\<lambda>c. c \<noteq> CHR ''}'') (drop 2 s)
         in if p \<noteq> [] \<and> take 2 r = ''}}'' then Some (p, drop 2 r) else None)
      else None)"

text \<open>The replacer callback of \<open>interpolate\<close>.\<close>

definition replacer :: "jsobj \<Rightarrow> string \<Rightarrow> string result" where
  "replacer context path =
     (let v = getNestedValue (JObj context) (trim path)
      in if v \<noteq> JUndefined then js_String v else Inr [])"

lemma match_placeholder_shorter:
  "match_placeholder s = Some (p, rest) \<Longrightarrow> length rest < length s"
proof -
  assume m: "match_placeholder s = Some (p, rest)"
  let ?t = "drop 2 s"
  let ?r = "dropWhile (\<lambda>c. c \<noteq> CHR ''}'') ?t"
  from m have two: "take 2 s = ''{{''" and rest: "rest = drop 2 ?r"
    by (auto simp: match_placeholder_def Let_def split: if_splits)
  from two have "2 \<le> length s"
    by (cases s; cases "tl s") auto
  moreover have "length ?r \<le> length ?t"
    by (rule length_dropWhile_le)
  ultimately show ?thesis using rest by simp
qed

text \<open>
  The global replace scans left to right: at a match the replacement is computed and the
  scan resumes after the match; elsewhere one character is copied. A replacement that
  throws ends the call.
\<close>

function interpolate :: "string \<Rightarrow> jsobj \<Rightarrow> string result" where
  "interpolate [] context = Inr []"
| "interpolate (c # cs) context =
     (case match_placeholder (c # cs) of
        Some (path, rest) \<Rightarrow>
          (case replacer context path of
             Inl e \<Rightarrow> Inl e
           | Inr s \<Rightarrow> (case interpolate rest context of
                         Inl e \<Rightarrow> Inl e
                       | Inr r \<Rightarrow> Inr (s @ r)))
      | None \<Rightarrow> (case interpolate cs context of
                   Inl e \<Rightarrow> Inl e
                 | Inr r \<Rightarrow> Inr (c # r)))"
  by pat_completeness auto
termination
proof (relation "measure (\<lambda>(s, context). length s)")
  show "wf (measure (\<lambda>(s, context). length s))" by simp
next
  fix c cs ctx x2 x y x2a
  assume "match_placeholder (c # cs) = Some x2" and "(x, y) = x2"
  then have "match_placeholder (c # cs) = Some (x, y)" by simp
  from match_placeholder_shorter[OF this]
  show "((y, ctx), (c # cs, ctx)) \<in> measure (\<lambda>(s, context). length s)" by simp
next
  fix c cs ctx
  show "((cs, ctx), (c # cs, ctx)) \<in> measure (\<lambda>(s, context). length s)" by simp
qed

subsection \<open>interpolateObject\<close>

text \<open>
  \<open>Object.entries(obj).forEach\<close>: a string is interpolated, an object is processed
  recursively, anything else is copied. An array passes the test
  \<open>typeof value === 'object' && value !== null\<close> as well, and comes back as a plain
  object keyed by its indices; a prototype object has no enumerable entries.
\<close>

fun interpolateValue :: "jsval \<Rightarrow> jsobj \<Rightarrow> jsval result"
  and interpolateObject :: "jsobj \<Rightarrow> jsobj \<Rightarrow> jsobj result"
  and interpolateItems :: "jsval list \<Rightarrow> jsobj \<Rightarrow> jsval list result" where
  "interpolateValue (JStr s) context =
     (case interpolate s context of Inl e \<Rightarrow> Inl e | Inr r \<Rightarrow> Inr (JStr r))"
| "interpolateValue (JObj kvs) context =
     (case interpolateObject kvs context of Inl e \<Rightarrow> Inl e | Inr r \<Rightarrow> Inr (JObj r))"
| "interpolateValue (JArr xs) context =
     (case interpolateItems xs context of
        Inl e \<Rightarrow> Inl e
      | Inr r \<Rightarrow> Inr (JObj (zip (map nat_to_string [0..<length xs]) r)))"
| "interpolateValue (JPrototype p) context = Inr (JObj [])"
| "interpolateValue JUndefined context = Inr JUndefined"
| "interpolateValue JNull context = Inr JNull"
| "interpolateValue (JBool b) context = Inr (JBool b)"
| "interpolateValue (JNum n) context = Inr (JNum n)"
| "interpolateValue (JDec m e) context = Inr (JDec m e)"
| "interpolateValue (JFunction f) context = Inr (JFunction f)"
| "interpolateObject [] context = Inr []"
| "interpolateObject ((key, v) # kvs) context =
     (case interpolateValue v context of
        Inl e \<Rightarrow> Inl e
      | Inr w \<Rightarrow> (case interpolateObject kvs context of
                    Inl e \<Rightarrow> Inl e
                  | Inr r \<Rightarrow> Inr ((key, w) # r)))"
| "interpolateItems [] context = Inr []"
| "interpolateItems (x # xs) context =
     (case interpolateValue x context of
        Inl e \<Rightarrow> Inl e
      | Inr w \<Rightarrow> (case interpolateItems xs context of
                    Inl e \<Rightarrow> Inl e
                  | Inr r \<Rightarrow> Inr (w # r)))"

subsection \<open>evaluateJsonPath\<close>

text \<open>\<open>extractValue\<close>: a leading \<open>$.\<close> or \<open>$\<close> is dropped, the rest is a dotted path.\<close>

definition extractValue :: "string \<Rightarrow> jsval \<Rightarrow> jsval" where
  "extractValue path data =
     (let normalizedPath =
            (if startsWith path ''$.'' then drop 2 path
             else if startsWith path ''$'' then drop 1 path
             else path)
      in getNestedValue data normalizedPath)"

text \<open>
  The number that a numeral of at most fifteen digits denotes, given its sign, integer
  digits and fraction digits. Such a numeral is, leading and trailing zeros apart, the
  digits of its number, so nothing is rounded.
\<close>

definition parse_decimal :: "bool \<Rightarrow> string \<Rightarrow> string \<Rightarrow> jsval" where
  "parse_decimal negative ip fp =
     (let fp' = rev (dropWhile (\<lambda>c. c = CHR ''0'') (rev fp));
          m = int (digits_val (ip @ fp'))
      in if fp' = [] then JNum (if negative then - m else m)
         else JDec (if negative then - m else m) (length fp'))"

text \<open>
  \<open>parseCompareValue\<close>. The two number shapes are \<open>/^-?\d+$/\<close> and \<open>/^-?\d+\.\d+$/\<close>.
\<close>

definition parseCompareValue :: "env \<Rightarrow> string \<Rightarrow> jsval" where
  "parseCompareValue rt v =
     (let negative = startsWith v ''-'';
          unsigned = (if negative then drop 1 v else v);
          ip = takeWhile is_digit unsigned;
          following = dropWhile is_digit unsigned
      in if v = ''null'' then JNull
         else if v = ''undefined'' then JUndefined
         else if v = ''true'' then JBool True
         else if v = ''false'' then JBool False
         else if ip \<noteq> [] \<and> following = [] then
           (if length ip \<le> 15 then parse_decimal negative ip [] else parseInt rt v)
         else if ip \<noteq> [] \<and> startsWith following ''.'' \<and> drop 1 following \<noteq> []
                 \<and> list_all is_digit (drop 1 following) then
           (if length ip + length (drop 1 following) \<le> 15
            then parse_decimal negative ip (drop 1 following)
            else parseFloat rt v)
         else if (startsWith v [CHR 0x22] \<and> endsWith v [CHR 0x22])
                 \<or> (startsWith v [CHR 0x27] \<and> endsWith v [CHR 0x27]) then
           JStr (take (length v - 2) (drop 1 v))
         else JStr v)"

text \<open>
  \<open>path.match(/^(\$[.\w]+)\s*(!=|==)\s*(.+)$/)\<close>. The first group is the dollar sign and
  the longest run of dots and word characters; white space may surround the operator; the
  last group is the non-empty rest of the string, which must be free of line terminators.
  The white space after the operator is taken greedily and given back only as far as the
  last group needs it.
\<close>

definition match_comparison :: "string \<Rightarrow> (string \<times> string \<times> string) option" where
  "match_comparison path =
     (if \<not> startsWith path ''$'' then None
      else
        (let dot_or_word = (\<lambda>c. c = CHR ''.'' \<or> is_word_char c);
             field = takeWhile dot_or_word (drop 1 path);
             r1 = dropWhile is_space (dropWhile dot_or_word (drop 1 path));
             operator = take 2 r1;
             r2 = drop 2 r1;
             w = length (takeWhile is_space r2);
             fits = (\<lambda>k. drop k r2 \<noteq> [] \<and> \<not> list_ex is_line_terminator (drop k r2))
         in if field = [] \<or> \<not> (operator = ''!='' \<or> operator = ''=='') then None
            else (case find fits (rev [0..<Suc w]) of
                    None \<Rightarrow> None
                  | Some k \<Rightarrow> Some (CHR ''$'' # field, operator, drop k r2))))"

definition evaluateJsonPath :: "env \<Rightarrow> string \<Rightarrow> jsval \<Rightarrow> jsval" where
  "evaluateJsonPath rt path data =
     (case match_comparison path of
        Some (fieldPath, operator, compareValue) \<Rightarrow>
          (let v = extractValue fieldPath data;
               parsedCompareValue = parseCompareValue rt (trim compareValue)
           in if operator = ''!='' then JBool (v \<noteq> parsedCompareValue)
              else if operator = ''=='' then JBool (v = parsedCompareValue)
              else extractValue path data)
      | None \<Rightarrow> extractValue path data)"

section \<open>Adapter definitions (adapters/types.ts)\<close>

text \<open>
  The interfaces \<open>EndpointDef\<close> and \<open>AdapterDSL\<close>. An optional member is an option.
  The members \<open>method\<close> and \<open>extract\<close> are \<open>http_method\<close> and \<open>extract_map\<close>
  here, and \<open>auth.check\<close> is \<open>auth_check\<close>.
\<close>

record RequestDef =
  url :: string
  http_method :: string
  headers :: "(string \<times> string) list option"
  content_type :: "string option"
  body :: "jsobj option"

record ResponseDef =
  success :: "string option"
  extract_map :: "(string \<times> string) list option"
  error :: "string option"

record EndpointDef =
  request :: RequestDef
  response :: ResponseDef

record AdapterDSL =
  name :: string
  display_name :: string
  icon :: string
  homepage :: string
  capabilities :: "string list"
  draft_url_template :: "string option"
  auth_check :: EndpointDef
  endpoints :: "(string \<times> EndpointDef) list"
  header_rules :: jsval
  html_processing :: "jsval option"
  output_format :: "string option"
  markdown_options :: jsval
  custom_logic :: jsval

text \<open>\<open>this.dsl.endpoints.create_draft\<close> and the like: the endpoint, if it is defined.\<close>

definition endpoint :: "AdapterDSL \<Rightarrow> string \<Rightarrow> EndpointDef option" where
  "endpoint dsl key = map_of (endpoints dsl) key"

section \<open>BaseAdapter (adapters/base.ts)\<close>

text \<open>\<open>String.prototype.includes\<close>.\<close>

definition includes_str :: "string \<Rightarrow> string \<Rightarrow> bool" where
  "includes_str s p = list_ex (\<lambda>i. take (length p) (drop i s) = p) [0..<Suc (length s)]"

text \<open>
  \<open>BaseAdapter.request\<close> (here \<open>request_json\<close>): JSON is the default content type,
  a response that is not \<open>ok\<close> throws, and the body is parsed as JSON when the response
  says it is JSON. The status is a small integer and is written out in full.
\<close>

definition request_json :: "env \<Rightarrow> nat \<Rightarrow> string \<Rightarrow> RequestInit \<Rightarrow> jsval result" where
  "request_json rt n u options =
     (case runtime_fetch rt n u
             (options\<lparr>req_headers :=
                obj_spread [(''Content-Type'', ''application/json'')] (req_headers options)\<rparr>) of
        Inl e \<Rightarrow> Inl e
      | Inr resp \<Rightarrow>
          if \<not> ok resp then
            Inl (Error (''HTTP '' @ nat_to_string (status_code resp) @ '': '' @ statusText resp))
          else if (case header_content_type resp of
                     Some contentType \<Rightarrow> includes_str contentType ''application/json''
                   | None \<Rightarrow> False)
          then json resp
          else (case text_of resp of Inl e \<Rightarrow> Inl e | Inr t \<Rightarrow> Inr (JStr t)))"

text \<open>\<open>BaseAdapter.createResult\<close> for an adapter whose \<open>meta.id\<close> is the definition's name.\<close>

definition createResult :: "env \<Rightarrow> AdapterDSL \<Rightarrow> bool \<Rightarrow> jsobj \<Rightarrow> jsobj" where
  "createResult rt dsl succ data =
     obj_spread
       [(''platform'', JStr (name dsl)), (''success'', JBool succ),
        (''timestamp'', JNum (int (Date_now rt)))]
       data"

section \<open>Endpoint executor (DSLAdapter.executeEndpoint)\<close>

text \<open>The entries of a body with each value converted to a string, in order.\<close>

fun stringify_entries :: "jsobj \<Rightarrow> (string \<times> string) list result" where
  "stringify_entries [] = Inr []"
| "stringify_entries ((key, v) # kvs) =
     (case js_String v of
        Inl e \<Rightarrow> Inl e
      | Inr s \<Rightarrow> (case stringify_entries kvs of
                    Inl e \<Rightarrow> Inl e
                  | Inr r \<Rightarrow> Inr ((key, s) # r)))"

definition build_body :: "string option \<Rightarrow> jsobj \<Rightarrow> BodyInit result" where
  "build_body ct bodyData =
     (if ct = Some ''multipart'' then
        bind_result (stringify_entries bodyData) (\<lambda>entries. Inr (FormData entries))
      else if ct = Some ''form'' then
        bind_result (stringify_entries bodyData) (\<lambda>entries. Inr (URLSearchParams entries))
      else Inr (JSON_stringify bodyData))"

text \<open>
  The response contract: a present, non-empty success expression that evaluates falsy
  throws the value of the error expression, or \<open>Request failed\<close>, as a string; then
  every extract path is evaluated on the response.
\<close>

definition check_success :: "env \<Rightarrow> ResponseDef \<Rightarrow> jsval \<Rightarrow> unit result" where
  "check_success rt r resp =
     (case success r of
        None \<Rightarrow> Inr ()
      | Some expr \<Rightarrow>
          if expr = [] \<or> truthy (evaluateJsonPath rt expr resp) then Inr ()
          else
            bind_result
              (js_String
                 (case ResponseDef.error r of
                    None \<Rightarrow> JStr ''Request failed''
                  | Some e \<Rightarrow> if e = [] then JStr ''Request failed''
                              else evaluateJsonPath rt e resp))
              (\<lambda>msg. Inl (Error msg)))"

definition extract_fields :: "env \<Rightarrow> ResponseDef \<Rightarrow> jsval \<Rightarrow> jsobj" where
  "extract_fields rt r resp =
     (case extract_map r of
        None \<Rightarrow> []
      | Some paths \<Rightarrow>
          foldl (\<lambda>extracted (key, path). obj_set key (evaluateJsonPath rt path resp) extracted)
            [] paths)"

text \<open>
  \<open>executeEndpoint\<close>, in the order of the source: the URL, the body, the headers with
  the \<open>before_request\<close> hook, the \<open>prepare_body\<close> hook, the request, the success
  check, the extraction.
\<close>

definition executeEndpoint ::
  "env \<Rightarrow> CustomLogic \<Rightarrow> nat \<Rightarrow> EndpointDef \<Rightarrow> jsobj \<Rightarrow> (jsval \<times> jsobj) result" where
  "executeEndpoint rt customLogic n ep context =
     bind_result (interpolate (url (request ep)) context) (\<lambda>u.
     bind_result
       (case body (request ep) of
          None \<Rightarrow> Inr None
        | Some b \<Rightarrow>
            bind_result (interpolateObject b context) (\<lambda>bodyData.
            bind_result (build_body (content_type (request ep)) bodyData) (\<lambda>b'. Inr (Some b'))))
       (\<lambda>body0.
     bind_result
       (let headers0 = (case headers (request ep) of None \<Rightarrow> [] | Some h \<Rightarrow> h)
        in case before_request customLogic of
             None \<Rightarrow> Inr headers0
           | Some hook \<Rightarrow>
               bind_result (hook u context) (\<lambda>dynamicHeaders.
                 Inr (obj_spread headers0 dynamicHeaders)))
       (\<lambda>hs.
     bind_result
       (case (body0, prepare_body customLogic) of
          (Some b, Some hook) \<Rightarrow> bind_result (hook u b context) (\<lambda>b'. Inr (Some b'))
        | _ \<Rightarrow> Inr body0)
       (\<lambda>body1.
     bind_result
       (request_json rt n u
          \<lparr>req_method = http_method (request ep), req_headers = hs, req_body = body1\<rparr>)
       (\<lambda>resp.
     bind_result (check_success rt (response ep) resp) (\<lambda>_.
     Inr (resp, extract_fields rt (response ep) resp)))))))"

section \<open>Adapter runtime (DSLAdapter)\<close>

subsection \<open>checkAuth\<close>

text \<open>
  The \<open>catch\<close> block reads the message of what was thrown; when that read throws, the
  call throws.
\<close>

definition checkAuth :: "env \<Rightarrow> AdapterDSL \<Rightarrow> CustomLogic \<Rightarrow> nat \<Rightarrow> jsobj result" where
  "checkAuth rt dsl customLogic n =
     (case executeEndpoint rt customLogic n (auth_check dsl) [] of
        Inr (data, extracted) \<Rightarrow> Inr (obj_spread [(''isAuthenticated'', JBool True)] extracted)
      | Inl e \<Rightarrow>
          bind_result (error_message e) (\<lambda>msg.
            Inr [(''isAuthenticated'', JBool False), (''error'', msg)]))"

subsection \<open>publish: the transformations\<close>

text \<open>\<open>result?.key\<close>: the member of an object, \<open>undefined\<close> for anything else.\<close>

definition optional_member :: "jsval \<Rightarrow> string \<Rightarrow> jsval" where
  "optional_member v key = (if is_object v then get_property v key else JUndefined)"

text \<open>\<open>a ?? b\<close>.\<close>

definition nullish :: "jsval \<Rightarrow> jsval \<Rightarrow> jsval" where
  "nullish a b = (if a = JUndefined \<or> a = JNull then b else a)"

text \<open>The URL a cover upload hook returned.\<close>

definition newCover :: "jsval \<Rightarrow> jsval" where
  "newCover r =
     (case r of
        JStr s \<Rightarrow> r
      | _ \<Rightarrow> nullish (optional_member r ''src'')
               (nullish (optional_member r ''url'')
                 (nullish (optional_member r ''image_url'') (JStr []))))"

text \<open>
  The working article: the article with a \<open>content\<close> field, its HTML if it has any and
  the converted Markdown otherwise.
\<close>

definition initial_article :: "env \<Rightarrow> jsobj \<Rightarrow> jsobj result" where
  "initial_article rt article =
     bind_result
       (if truthy (obj_get article ''html'') then Inr (obj_get article ''html'')
        else markdownToHtml rt (obj_get article ''markdown''))
       (\<lambda>c. Inr (obj_set ''content'' c article))"

text \<open>1. HTML preprocessing, when the definition configures it.\<close>

definition step_html_processing :: "env \<Rightarrow> AdapterDSL \<Rightarrow> jsobj \<Rightarrow> jsobj result" where
  "step_html_processing rt dsl workingArticle =
     (case html_processing dsl of
        None \<Rightarrow> Inr workingArticle
      | Some opts \<Rightarrow>
          if truthy opts then
            bind_result (processHtml rt (obj_get workingArticle ''content'') opts)
              (\<lambda>c. Inr (obj_set ''content'' c workingArticle))
          else Inr workingArticle)"

text \<open>2. Image upload, when the hook is there.\<close>

definition step_process_images :: "CustomLogic \<Rightarrow> jsobj \<Rightarrow> jsobj result" where
  "step_process_images customLogic workingArticle =
     (case process_images customLogic of
        None \<Rightarrow> Inr workingArticle
      | Some hook \<Rightarrow>
          bind_result (hook (obj_get workingArticle ''content''))
            (\<lambda>processedContent. Inr (obj_set ''content'' processedContent workingArticle)))"

text \<open>2.5 Cover upload: a hook that throws clears the cover and the workflow goes on.\<close>

definition step_cover :: "CustomLogic \<Rightarrow> jsobj \<Rightarrow> jsobj" where
  "step_cover customLogic workingArticle =
     (case upload_image_by_url customLogic of
        None \<Rightarrow> workingArticle
      | Some hook \<Rightarrow>
          if truthy (obj_get workingArticle ''cover'') then
            (case hook (obj_get workingArticle ''cover'') of
               Inr r \<Rightarrow> obj_set ''cover'' (newCover r) workingArticle
             | Inl e \<Rightarrow> obj_set ''cover'' (JStr []) workingArticle)
          else workingArticle)"

text \<open>3. The custom content transformation, which sees the context.\<close>

definition step_content_transform :: "CustomLogic \<Rightarrow> jsobj \<Rightarrow> jsobj result" where
  "step_content_transform customLogic workingArticle =
     (case content_transform customLogic of
        None \<Rightarrow> Inr workingArticle
      | Some hook \<Rightarrow>
          bind_result
            (hook (obj_get workingArticle ''content'') [(''article'', JObj workingArticle)])
            (\<lambda>c. Inr (obj_set ''content'' c workingArticle)))"

text \<open>4. HTML to Markdown, when the definition asks for Markdown.\<close>

definition step_output_format :: "env \<Rightarrow> AdapterDSL \<Rightarrow> jsobj \<Rightarrow> jsobj result" where
  "step_output_format rt dsl workingArticle =
     (if output_format dsl = Some ''markdown'' then
        bind_result
          (htmlToMarkdown rt (obj_get workingArticle ''content'') (markdown_options dsl))
          (\<lambda>c. Inr (obj_set ''content'' c workingArticle))
      else Inr workingArticle)"

text \<open>The execution context after the transformations: \<open>{ article: workingArticle }\<close>.\<close>

definition transform :: "env \<Rightarrow> AdapterDSL \<Rightarrow> CustomLogic \<Rightarrow> jsobj \<Rightarrow> jsobj result" where
  "transform rt dsl customLogic article =
     bind_result (initial_article rt article) (\<lambda>a0.
     bind_result (step_html_processing rt dsl a0) (\<lambda>a1.
     bind_result (step_process_images customLogic a1) (\<lambda>a2.
     bind_result (step_content_transform customLogic (step_cover customLogic a2)) (\<lambda>a3.
     bind_result (step_output_format rt dsl a3) (\<lambda>a4.
     Inr [(''article'', JObj a4)])))))"

subsection \<open>publish: drafts and the terminal branch\<close>

text \<open>
  \<open>String.prototype.replace\<close> with a string pattern: the first occurrence is replaced,
  and in the replacement a dollar sign followed by a dollar sign, an ampersand, a backtick
  or an apostrophe stands for a dollar sign, the match, the text before it and the text
  after it.
\<close>

fun get_substitution :: "string \<Rightarrow> string \<Rightarrow> string \<Rightarrow> string \<Rightarrow> string" where
  "get_substitution matched preceding following [] = []"
| "get_substitution matched preceding following [c] = [c]"
| "get_substitution matched preceding following (c # d # cs) =
     (if c = CHR ''$'' \<and> d = CHR ''$'' then CHR ''$'' # get_substitution matched preceding following cs
      else if c = CHR ''$'' \<and> d = CHR ''&'' then matched @ get_substitution matched preceding following cs
      else if c = CHR ''$'' \<and> d = CHR 0x60 then preceding @ get_substitution matched preceding following cs
      else if c = CHR ''$'' \<and> d = CHR 0x27 then following @ get_substitution matched preceding following cs
      else c # get_substitution matched preceding following (d # cs))"

definition replace_first :: "string \<Rightarrow> string \<Rightarrow> string \<Rightarrow> string" where
  "replace_first s pat repl =
     (case find (\<lambda>i. take (length pat) (drop i s) = pat) [0..<Suc (length s)] of
        None \<Rightarrow> s
      | Some i \<Rightarrow>
          take i s
          @ get_substitution pat (take i s) (drop (i + length pat) s) repl
          @ drop (i + length pat) s)"

record PublishOptions =
  draftOnly :: "bool option"

text \<open>\<open>options?.draftOnly\<close> as a condition.\<close>

definition wants_draft_only :: "PublishOptions option \<Rightarrow> bool" where
  "wants_draft_only options = (case options of None \<Rightarrow> False | Some opts \<Rightarrow> draftOnly opts = Some True)"

text \<open>
  Each step returns its outcome and the endpoint executions it made: the key of the
  endpoint in the definition, the endpoint and the context it was given. The \<open>n\<close>-th
  execution of the run sends the \<open>n\<close>-th request.
\<close>

type_synonym trace = "(string \<times> EndpointDef \<times> jsobj) list"

definition step_create_draft ::
  "env \<Rightarrow> AdapterDSL \<Rightarrow> CustomLogic \<Rightarrow> nat \<Rightarrow> jsobj \<Rightarrow> (jsval \<times> jsobj) result \<times> trace" where
  "step_create_draft rt dsl customLogic n context =
     (case endpoint dsl ''create_draft'' of
        None \<Rightarrow> (Inr (JUndefined, context), [])
      | Some ep \<Rightarrow>
          (case executeEndpoint rt customLogic n ep context of
             Inl e \<Rightarrow> (Inl e, [(''create_draft'', ep, context)])
           | Inr (data, extracted) \<Rightarrow>
               (Inr (obj_get extracted ''draft_id'',
                     obj_set ''draft_id'' (obj_get extracted ''draft_id'') context),
                [(''create_draft'', ep, context)])))"

definition step_update_draft ::
  "env \<Rightarrow> AdapterDSL \<Rightarrow> CustomLogic \<Rightarrow> nat \<Rightarrow> jsval \<Rightarrow> jsobj \<Rightarrow> unit result \<times> trace" where
  "step_update_draft rt dsl customLogic n draftId context =
     (case endpoint dsl ''update_draft'' of
        None \<Rightarrow> (Inr (), [])
      | Some ep \<Rightarrow>
          if truthy draftId then
            (case executeEndpoint rt customLogic n ep context of
               Inl e \<Rightarrow> (Inl e, [(''update_draft'', ep, context)])
             | Inr _ \<Rightarrow> (Inr (), [(''update_draft'', ep, context)]))
          else (Inr (), []))"

text \<open>
  The draft URL: the template with the first \<open>{{draft_id}}\<close> replaced by the draft id,
  which \<open>replace\<close> converts to a string.
\<close>

definition draftUrl :: "AdapterDSL \<Rightarrow> jsval \<Rightarrow> jsval result" where
  "draftUrl dsl draftId =
     (case draft_url_template dsl of
        None \<Rightarrow> Inr JUndefined
      | Some t \<Rightarrow>
          if t \<noteq> [] \<and> truthy draftId then
            bind_result (js_String draftId) (\<lambda>s. Inr (JStr (replace_first t ''{{draft_id}}'' s)))
          else Inr JUndefined)"

definition step_finish ::
  "env \<Rightarrow> AdapterDSL \<Rightarrow> CustomLogic \<Rightarrow> nat \<Rightarrow> PublishOptions option \<Rightarrow> jsval \<Rightarrow> jsobj
    \<Rightarrow> jsobj result \<times> trace" where
  "step_finish rt dsl customLogic n options draftId context =
     (if wants_draft_only options then
        (bind_result (draftUrl dsl draftId) (\<lambda>u.
           Inr (createResult rt dsl True
                  [(''postId'', draftId), (''postUrl'', u), (''draftOnly'', JBool True)])),
         [])
      else
        (case endpoint dsl ''publish'' of
           Some ep \<Rightarrow>
             (case executeEndpoint rt customLogic n ep context of
                Inl e \<Rightarrow> (Inl e, [(''publish'', ep, context)])
              | Inr (data, extracted) \<Rightarrow>
                  (Inr (createResult rt dsl True
                          [(''postId'', obj_get extracted ''post_id''),
                           (''postUrl'', obj_get extracted ''post_url'')]),
                   [(''publish'', ep, context)]))
         | None \<Rightarrow> (Inr (createResult rt dsl True [(''postId'', draftId)]), [])))"

text \<open>The body of the \<open>try\<close> block of \<open>publish\<close>: what it returns or throws, and its trace.\<close>

definition publish_try ::
  "env \<Rightarrow> AdapterDSL \<Rightarrow> CustomLogic \<Rightarrow> nat \<Rightarrow> jsobj \<Rightarrow> PublishOptions option
    \<Rightarrow> jsobj result \<times> trace" where
  "publish_try rt dsl customLogic n article options =
     (case transform rt dsl customLogic article of
        Inl e \<Rightarrow> (Inl e, [])
      | Inr context \<Rightarrow>
          (case step_create_draft rt dsl customLogic n context of
             (Inl e, t1) \<Rightarrow> (Inl e, t1)
           | (Inr (draftId, context'), t1) \<Rightarrow>
               (case step_update_draft rt dsl customLogic (n + length t1) draftId context' of
                  (Inl e, t2) \<Rightarrow> (Inl e, t1 @ t2)
                | (Inr _, t2) \<Rightarrow>
                    (case step_finish rt dsl customLogic (n + length t1 + length t2)
                            options draftId context' of
                       (r, t3) \<Rightarrow> (r, t1 @ t2 @ t3)))))"

text \<open>
  \<open>publish\<close>: what the body throws becomes a failed result with its message; when
  reading the message throws, the call throws.
\<close>

definition publish ::
  "env \<Rightarrow> AdapterDSL \<Rightarrow> CustomLogic \<Rightarrow> nat \<Rightarrow> jsobj \<Rightarrow> PublishOptions option
    \<Rightarrow> jsobj result" where
  "publish rt dsl customLogic n article options =
     (case fst (publish_try rt dsl customLogic n article options) of
        Inr r \<Rightarrow> Inr r
      | Inl e \<Rightarrow>
          bind_result (error_message e) (\<lambda>msg.
            Inr (createResult rt dsl False [(''error'', msg)])))"

definition publish_trace ::
  "env \<Rightarrow> AdapterDSL \<Rightarrow> CustomLogic \<Rightarrow> nat \<Rightarrow> jsobj \<Rightarrow> PublishOptions option \<Rightarrow> trace" where
  "publish_trace rt dsl customLogic n article options =
     snd (publish_try rt dsl customLogic n article options)"

section \<open>Sync orchestrator (SyncEngine)\<close>

subsection \<open>syncToPlatform\<close>

text \<open>
  An adapter as the engine sees it (\<open>PlatformAdapter\<close>): \<open>checkAuth\<close> and \<open>publish\<close>
  return or throw. The registry and the clock are the host's; the registry lookup may
  throw and gives no adapter for an unknown platform.
\<close>

record PlatformAdapter =
  adapter_checkAuth :: "jsobj result"
  adapter_publish :: "jsobj \<Rightarrow> jsobj result"

record host =
  registry_get :: "string \<Rightarrow> PlatformAdapter option result"
  clock :: nat
  generateId :: string

text \<open>A definition-driven adapter behind that interface.\<close>

definition DSLAdapter :: "env \<Rightarrow> AdapterDSL \<Rightarrow> CustomLogic \<Rightarrow> PlatformAdapter" where
  "DSLAdapter rt dsl customLogic =
     \<lparr>adapter_checkAuth = checkAuth rt dsl customLogic 0,
      adapter_publish = (\<lambda>article. publish rt dsl customLogic 1 article None)\<rparr>"

definition failure :: "host \<Rightarrow> string \<Rightarrow> jsval \<Rightarrow> jsobj" where
  "failure h platformId msg =
     [(''platform'', JStr platformId), (''success'', JBool False), (''error'', msg),
      (''timestamp'', JNum (int (clock h)))]"

text \<open>The body of the \<open>try\<close> block of \<open>syncToPlatform\<close>.\<close>

definition syncToPlatform_try :: "host \<Rightarrow> jsobj \<Rightarrow> string \<Rightarrow> jsobj result" where
  "syncToPlatform_try h article platformId =
     (case registry_get h platformId of
        Inl e \<Rightarrow> Inl e
      | Inr None \<Rightarrow>
          Inr (failure h platformId
                 (JStr (''Platform '' @ [CHR 0x22] @ platformId @ [CHR 0x22] @ '' not found'')))
      | Inr (Some adapter) \<Rightarrow>
          (case adapter_checkAuth adapter of
             Inl e \<Rightarrow> Inl e
           | Inr auth \<Rightarrow>
               if \<not> truthy (obj_get auth ''isAuthenticated'') then
                 bind_result
                   (js_String (if truthy (obj_get auth ''error'') then obj_get auth ''error''
                               else JStr ''Please login first''))
                   (\<lambda>reason. Inr (failure h platformId (JStr (''Not authenticated: '' @ reason))))
               else adapter_publish adapter article))"

text \<open>
  \<open>syncToPlatform\<close>: what the body throws becomes a failed result with its message;
  when reading the message throws, the call throws.
\<close>

definition syncToPlatform :: "host \<Rightarrow> jsobj \<Rightarrow> string \<Rightarrow> jsobj result" where
  "syncToPlatform h article platformId =
     (case syncToPlatform_try h article platformId of
        Inr r \<Rightarrow> Inr r
      | Inl e \<Rightarrow> bind_result (error_message e) (\<lambda>msg. Inr (failure h platformId msg)))"

subsection \<open>chunk\<close>

text \<open>\<open>Array.prototype.slice\<close> with integer bounds.\<close>

definition js_slice :: "'a list \<Rightarrow> int \<Rightarrow> int \<Rightarrow> 'a list" where
  "js_slice xs start fin =
     (let len = int (length xs);
          k = (if start < 0 then max (len + start) 0 else min start len);
          final = (if fin < 0 then max (len + fin) 0 else min fin len)
      in take (nat (final - k)) (drop (nat k) xs))"

text \<open>
  The loop of \<open>chunk\<close>. With a size that is not positive the index never reaches the
  length of a non-empty array and the loop does not end: the value is \<open>None\<close>.
\<close>

partial_function (option) chunk_loop ::
  "'a list \<Rightarrow> int \<Rightarrow> int \<Rightarrow> 'a list list \<Rightarrow> 'a list list option" where
  "chunk_loop array sz i chunks =
     (if i < int (length array)
      then chunk_loop array sz (i + sz) (chunks @ [js_slice array i (i + sz)])
      else Some chunks)"

definition chunk :: "'a list \<Rightarrow> int \<Rightarrow> 'a list list option" where
  "chunk array sz = chunk_loop array sz 0 []"

subsection \<open>sync\<close>

datatype task_status = Pending | Running | Completed | Failed

record SyncTask =
  task_id :: string
  article :: jsobj
  platforms :: "string list"
  status :: task_status
  results :: "jsobj list"
  createdAt :: nat
  completedAt :: "nat option"

text \<open>
  The options of \<open>sync\<close>. \<open>onProgress\<close> is the caller's callback: it returns a value,
  which nothing reads, or throws. The options object may carry other properties besides
  these three (the record is extensible); \<open>sync\<close> destructures these three.
\<close>

type_synonym progress_callback = "string \<Rightarrow> jsobj \<Rightarrow> jsval result"

record SyncOptions =
  concurrency :: "int option"
  continueOnError :: "bool option"
  onProgress :: "progress_callback option"

text \<open>
  The engine's state is its task table, in insertion order. Besides \<open>sync\<close> the engine
  offers \<open>getTask\<close>, \<open>getAllTasks\<close> and \<open>clearCompleted\<close>; a caller may invoke them
  while a batch is awaited.
\<close>

type_synonym engine = "(string \<times> SyncTask) list"

datatype api_call = GetTask string | GetAllTasks | ClearCompleted

definition getTask :: "engine \<Rightarrow> string \<Rightarrow> SyncTask option" where
  "getTask tasks taskId = map_of tasks taskId"

definition getAllTasks :: "engine \<Rightarrow> SyncTask list" where
  "getAllTasks tasks = map snd tasks"

definition clearCompleted :: "engine \<Rightarrow> engine" where
  "clearCompleted tasks =
     filter (\<lambda>(i, task). \<not> (status task = Completed \<or> status task = Failed)) tasks"

fun run_call :: "engine \<Rightarrow> api_call \<Rightarrow> engine" where
  "run_call tasks (GetTask taskId) = tasks"
| "run_call tasks GetAllTasks = tasks"
| "run_call tasks ClearCompleted = clearCompleted tasks"

text \<open>The table holds the task object itself: a change of the task shows in the table.\<close>

definition store :: "SyncTask \<Rightarrow> engine \<Rightarrow> engine" where
  "store task tasks = map (\<lambda>(i, t). if i = task_id task then (i, task) else (i, t)) tasks"

definition succeeded :: "jsobj \<Rightarrow> bool" where
  "succeeded r = truthy (obj_get r ''success'')"

text \<open>
  The function mapped over a batch: the platform is synced and the callback, if there is
  one, is called with the result.
\<close>

definition run_platform ::
  "host \<Rightarrow> jsobj \<Rightarrow> progress_callback option \<Rightarrow> string \<Rightarrow> jsobj result" where
  "run_platform h art cb platform =
     (case syncToPlatform h art platform of
        Inl e \<Rightarrow> Inl e
      | Inr r \<Rightarrow>
          (case cb of
             None \<Rightarrow> Inr r
           | Some f \<Rightarrow> (case f platform r of Inl e \<Rightarrow> Inl e | Inr v \<Rightarrow> Inr r)))"

text \<open>
  \<open>await Promise.all(...)\<close>: the values in the order of the promises, or \<open>None\<close> when
  one of them rejects. The \<open>catch\<close> of \<open>sync\<close> does not look at what was thrown.
\<close>

definition Promise_all :: "'a result list \<Rightarrow> 'a list option" where
  "Promise_all ps = those (map (\<lambda>p. case p of Inl e \<Rightarrow> None | Inr x \<Rightarrow> Some x) ps)"

definition run_batch ::
  "host \<Rightarrow> jsobj \<Rightarrow> progress_callback option \<Rightarrow> string list \<Rightarrow> jsobj list option" where
  "run_batch h art cb batch = Promise_all (map (run_platform h art cb) batch)"

text \<open>
  The loop over the batches, with the flag of having left through the \<open>catch\<close>.
  \<open>calls\<close> are the engine operations invoked from outside while each batch is awaited.
\<close>

fun sync_loop ::
  "host \<Rightarrow> jsobj \<Rightarrow> bool \<Rightarrow> progress_callback option \<Rightarrow> api_call list list
    \<Rightarrow> string list list \<Rightarrow> engine \<times> SyncTask \<Rightarrow> (engine \<times> SyncTask) \<times> bool" where
  "sync_loop h art cont cb calls [] (tasks, task) = ((tasks, task), False)"
| "sync_loop h art cont cb calls (batch # batches) (tasks, task) =
     (let tasks1 = foldl run_call tasks (case calls of [] \<Rightarrow> [] | c # cs \<Rightarrow> c)
      in case run_batch h art cb batch of
           None \<Rightarrow> ((tasks1, task), True)
         | Some batchResults \<Rightarrow>
             (let task' = task\<lparr>results := results task @ batchResults\<rparr>;
                  tasks2 = store task' tasks1
              in if \<not> cont \<and> list_ex (\<lambda>r. \<not> succeeded r) batchResults
                 then ((tasks2, task'), False)
                 else sync_loop h art cont cb (tl calls) batches (tasks2, task')))"

definition sync ::
  "host \<Rightarrow> engine \<Rightarrow> jsobj \<Rightarrow> string list \<Rightarrow> 'a SyncOptions_scheme \<Rightarrow> api_call list list
    \<Rightarrow> (SyncTask \<times> engine) option" where
  "sync h tasks art pfs options calls =
     (let conc = (case concurrency options of None \<Rightarrow> 3 | Some c \<Rightarrow> c);
          cont = (case continueOnError options of None \<Rightarrow> True | Some b \<Rightarrow> b);
          task = \<lparr>task_id = generateId h, article = art, platforms = pfs, status = Running,
                  results = [], createdAt = clock h, completedAt = None\<rparr>;
          tasks0 = obj_set (task_id task) task tasks
      in case chunk pfs conc of
           None \<Rightarrow> None
         | Some batches \<Rightarrow>
             (case sync_loop h art cont (onProgress options) calls batches (tasks0, task) of
                ((tasks1, task1), threw) \<Rightarrow>
                  (let task2 = task1\<lparr>status :=
                         (if \<not> threw \<and> list_all succeeded (results task1) then Completed else Failed)\<rparr>;
                       task3 = task2\<lparr>completedAt := Some (clock h)\<rparr>
                   in Some (task3, store task3 tasks1))))"

section \<open>Definition loading (the DSL parser and the loader)\<close>

subsection \<open>The schema\<close>

text \<open>
  The validators of the schema on a parsed document. A validator returns the validated
  value, or \<open>None\<close> where the library throws its validation error. An object schema
  reads the keys it declares (a missing key reads \<open>undefined\<close>) and drops the others.
\<close>

definition z_string :: "jsval \<Rightarrow> string option" where
  "z_string v = (case v of JStr s \<Rightarrow> Some s | _ \<Rightarrow> None)"

definition z_enum :: "string list \<Rightarrow> jsval \<Rightarrow> string option" where
  "z_enum allowed v = (case v of JStr s \<Rightarrow> if s \<in> set allowed then Some s else None | _ \<Rightarrow> None)"

definition z_unknown :: "jsval \<Rightarrow> jsval option" where
  "z_unknown v = Some v"

definition z_optional :: "(jsval \<Rightarrow> 'a option) \<Rightarrow> jsval \<Rightarrow> 'a option option" where
  "z_optional schema v = (if v = JUndefined then Some None else map_option Some (schema v))"

definition z_record :: "(jsval \<Rightarrow> 'a option) \<Rightarrow> jsval \<Rightarrow> (string \<times> 'a) list option" where
  "z_record schema v =
     (case v of
        JObj kvs \<Rightarrow> those (map (\<lambda>(key, x). map_option (Pair key) (schema x)) kvs)
      | _ \<Rightarrow> None)"

definition z_array :: "(jsval \<Rightarrow> 'a option) \<Rightarrow> jsval \<Rightarrow> 'a list option" where
  "z_array schema v = (case v of JArr xs \<Rightarrow> those (map schema xs) | _ \<Rightarrow> None)"

definition z_object :: "jsval \<Rightarrow> jsobj option" where
  "z_object v = (case v of JObj kvs \<Rightarrow> Some kvs | _ \<Rightarrow> None)"

definition RequestSchema :: "jsval \<Rightarrow> RequestDef option" where
  "RequestSchema v =
     Option.bind (z_object v) (\<lambda>obj.
     Option.bind (z_string (obj_get obj ''url'')) (\<lambda>u.
     Option.bind (z_enum [''GET'', ''POST'', ''PUT'', ''PATCH'', ''DELETE''] (obj_get obj ''method'')) (\<lambda>m.
     Option.bind (z_optional (z_record z_string) (obj_get obj ''headers'')) (\<lambda>h.
     Option.bind (z_optional (z_enum [''json'', ''form'', ''multipart'']) (obj_get obj ''content_type'')) (\<lambda>ct.
     Option.bind (z_optional (z_record z_unknown) (obj_get obj ''body'')) (\<lambda>b.
     Some \<lparr>url = u, http_method = m, headers = h, content_type = ct, body = b\<rparr>))))))"

definition ResponseSchema :: "jsval \<Rightarrow> ResponseDef option" where
  "ResponseSchema v =
     Option.bind (z_object v) (\<lambda>obj.
     Option.bind (z_optional z_string (obj_get obj ''success'')) (\<lambda>s.
     Option.bind (z_optional (z_record z_string) (obj_get obj ''extract'')) (\<lambda>x.
     Option.bind (z_optional z_string (obj_get obj ''error'')) (\<lambda>e.
     Some \<lparr>success = s, extract_map = x, error = e\<rparr>))))"

definition EndpointSchema :: "jsval \<Rightarrow> EndpointDef option" where
  "EndpointSchema v =
     Option.bind (z_object v) (\<lambda>obj.
     Option.bind (RequestSchema (obj_get obj ''request'')) (\<lambda>rq.
     Option.bind (ResponseSchema (obj_get obj ''response'')) (\<lambda>rs.
     Some \<lparr>request = rq, response = rs\<rparr>)))"

definition HeaderRuleSchema :: "jsval \<Rightarrow> jsval option" where
  "HeaderRuleSchema v =
     Option.bind (z_object v) (\<lambda>obj.
     Option.bind (z_string (obj_get obj ''url_filter'')) (\<lambda>f.
     Option.bind (z_record z_string (obj_get obj ''headers'')) (\<lambda>h.
     Option.bind (z_optional (z_array z_string) (obj_get obj ''resource_types'')) (\<lambda>t.
     Some (JObj ([(''url_filter'', JStr f), (''headers'', JObj (map (\<lambda>(key, s). (key, JStr s)) h))]
                 @ (case t of None \<Rightarrow> []
                    | Some ts \<Rightarrow> [(''resource_types'', JArr (map JStr ts))])))))))"

text \<open>
  \<open>AdapterDSLSchema.parse\<close>. \<open>valid_url\<close> is the URL test of \<open>z.string().url()\<close>.
  The keys the schema does not declare (\<open>draft_url_template\<close>, \<open>html_processing\<close>,
  \<open>output_format\<close>, \<open>markdown_options\<close>) are not in the validated definition.
\<close>

definition AdapterDSLSchema :: "(string \<Rightarrow> bool) \<Rightarrow> jsval \<Rightarrow> AdapterDSL option" where
  "AdapterDSLSchema valid_url v =
     Option.bind (z_object v) (\<lambda>obj.
     Option.bind (z_string (obj_get obj ''name'')) (\<lambda>n.
     Option.bind (z_string (obj_get obj ''display_name'')) (\<lambda>dn.
     Option.bind (z_string (obj_get obj ''icon'')) (\<lambda>ic.
     Option.bind (Option.bind (z_string (obj_get obj ''homepage''))
                    (\<lambda>s. if valid_url s then Some s else None)) (\<lambda>hp.
     Option.bind (z_array (z_enum [''article'', ''draft'', ''image_upload'', ''categories'',
                                   ''tags'', ''cover'', ''schedule''])
                    (obj_get obj ''capabilities'')) (\<lambda>caps.
     Option.bind (Option.bind (z_object (obj_get obj ''auth''))
                    (\<lambda>a. EndpointSchema (obj_get a ''check''))) (\<lambda>chk.
     Option.bind (z_record (z_optional EndpointSchema) (obj_get obj ''endpoints'')) (\<lambda>eps.
     Option.bind (z_optional (z_array HeaderRuleSchema) (obj_get obj ''header_rules'')) (\<lambda>hr.
     Option.bind (z_optional (z_record z_string) (obj_get obj ''custom_logic'')) (\<lambda>cl.
     Some \<lparr>name = n, display_name = dn, icon = ic, homepage = hp, capabilities = caps,
           draft_url_template = None, auth_check = chk,
           endpoints = List.map_filter (\<lambda>(key, ep). map_option (Pair key) ep) eps,
           header_rules = (case hr of None \<Rightarrow> JUndefined | Some rules \<Rightarrow> JArr rules),
           html_processing = None, output_format = None, markdown_options = JUndefined,
           custom_logic = (case cl of None \<Rightarrow> JUndefined
                           | Some paths \<Rightarrow> JObj (map (\<lambda>(key, s). (key, JStr s)) paths))\<rparr>))))))))))"

subsection \<open>parseDSL, createAdapterFromDSL, parseDSLFiles\<close>

text \<open>What \<open>parseDSL\<close> throws: what the YAML parser threw, or the validation error.\<close>

datatype parse_failure = YAMLParseError thrown | ZodError

text \<open>The YAML parser and the URL test are the libraries'.\<close>

record parser_env =
  parseYaml :: "string \<Rightarrow> jsval result"
  valid_url :: "string \<Rightarrow> bool"

definition parseDSL :: "parser_env \<Rightarrow> string \<Rightarrow> parse_failure + AdapterDSL" where
  "parseDSL pe yamlContent =
     (case parseYaml pe yamlContent of
        Inl e \<Rightarrow> Inl (YAMLParseError e)
      | Inr parsed \<Rightarrow>
          (case AdapterDSLSchema (valid_url pe) parsed of
             None \<Rightarrow> Inl ZodError
           | Some validated \<Rightarrow> Inr validated))"

record PlatformMeta =
  meta_id :: string
  meta_name :: string
  meta_icon :: string
  meta_homepage :: string
  meta_capabilities :: "string list"

text \<open>A registry entry; the factory is given by the values its closure holds.\<close>

record AdapterRegistryEntry =
  meta :: PlatformMeta
  factory :: "AdapterDSL \<times> CustomLogic option"

definition createAdapterFromDSL :: "AdapterDSL \<Rightarrow> CustomLogic option \<Rightarrow> AdapterRegistryEntry" where
  "createAdapterFromDSL dsl customLogic =
     \<lparr>meta = \<lparr>meta_id = name dsl, meta_name = display_name dsl, meta_icon = icon dsl,
              meta_homepage = homepage dsl, meta_capabilities = capabilities dsl\<rparr>,
      factory = (dsl, customLogic)\<rparr>"

record DSLFile =
  path :: string
  content :: string

text \<open>
  \<open>files.map(file => { try ... catch (error) { console.error(...); throw error } })\<close>:
  the result is the console output and either the entries or the error thrown. The files
  are mapped in order, so the first file that fails ends the call.
\<close>

fun parseDSLFiles ::
  "parser_env \<Rightarrow> DSLFile list \<Rightarrow> string list \<times> (parse_failure + AdapterRegistryEntry list)" where
  "parseDSLFiles pe [] = ([], Inr [])"
| "parseDSLFiles pe (file # files) =
     (case parseDSL pe (content file) of
        Inl e \<Rightarrow> ([''Failed to parse DSL file: '' @ path file], Inl e)
      | Inr dsl \<Rightarrow>
          (case parseDSLFiles pe files of
             (logged, Inl e) \<Rightarrow> (logged, Inl e)
           | (logged, Inr entries) \<Rightarrow> (logged, Inr (createAdapterFromDSL dsl None # entries))))"

subsection \<open>loadAdapter, loadAdapters\<close>

text \<open>
  The registry is the host's: \<open>register\<close> gives the new registry or throws.
  \<open>loadAdapters\<close> takes definitions as they are, without validation, and returns the
  registry and the console output.
\<close>

definition loadAdapter ::
  "(AdapterRegistryEntry \<Rightarrow> 'r \<Rightarrow> 'r result) \<Rightarrow> AdapterDSL \<Rightarrow> CustomLogic option \<Rightarrow> 'r \<Rightarrow> 'r result" where
  "loadAdapter register dsl customLogic registry =
     register (createAdapterFromDSL dsl customLogic) registry"

fun loadAdapters ::
  "(AdapterRegistryEntry \<Rightarrow> 'r \<Rightarrow> 'r result) \<Rightarrow> (AdapterDSL \<times> CustomLogic option) list \<Rightarrow> 'r
    \<Rightarrow> 'r \<times> string list" where
  "loadAdapters register [] registry = (registry, [])"
| "loadAdapters register ((dsl, customLogic) # adapters) registry =
     (case loadAdapter register dsl customLogic registry of
        Inr registry' \<Rightarrow> loadAdapters register adapters registry'
      | Inl e \<Rightarrow>
          (case loadAdapters register adapters registry of
             (registry', logged) \<Rightarrow> (registry', (''Failed to load adapter '' @ name dsl @ '':'') # logged)))"


section \<open>Notions of the specification\<close>

subsection \<open>Templates and dotted paths\<close>










subsection \<open>The expression grammar of the specification\<close>

text \<open>
  A supported expression is a plain field path (dotted names, with or without a leading
  \<open>$.\<close>), or a field path, \<open>==\<close> or \<open>!=\<close>, and a literal: \<open>null\<close>, \<open>undefined\<close>,
  \<open>true\<close>, \<open>false\<close>, an integer, a float or a quoted string.
\<close>

definition is_field_path :: "string \<Rightarrow> bool" where
  "is_field_path p =
     list_all (\<lambda>seg. seg \<noteq> [] \<and> list_all is_word_char seg)
       (split_dot (if startsWith p ''$.'' then drop 2 p else p))"

definition is_literal :: "string \<Rightarrow> bool" where
  "is_literal v =
     (let u = (if startsWith v ''-'' then drop 1 v else v);
          ip = takeWhile is_digit u;
          fp = dropWhile is_digit u
      in v = ''null'' \<or> v = ''undefined'' \<or> v = ''true'' \<or> v = ''false''
         \<or> (ip \<noteq> [] \<and> fp = [])
         \<or> (ip \<noteq> [] \<and> startsWith fp ''.'' \<and> drop 1 fp \<noteq> [] \<and> list_all is_digit (drop 1 fp))
         \<or> (2 \<le> length v \<and> ((startsWith v [CHR 0x22] \<and> endsWith v [CHR 0x22])
                              \<or> (startsWith v [CHR 0x27] \<and> endsWith v [CHR 0x27]))))"

definition supported_expr :: "string \<Rightarrow> bool" where
  "supported_expr x =
     (is_field_path x
      \<or> list_ex (\<lambda>i. (take 2 (drop i x) = ''=='' \<or> take 2 (drop i x) = ''!='')
                     \<and> is_field_path (trim (take i x)) \<and> is_literal (trim (drop (i + 2) x)))
           [0..<length x])"

text \<open>A file parses when \<open>parseDSL\<close> returns a definition for its content.\<close>

definition parses :: "parser_env \<Rightarrow> DSLFile \<Rightarrow> bool" where
  "parses pe file = (case parseDSL pe (content file) of Inr dsl \<Rightarrow> True | Inl e \<Rightarrow> False)"

section \<open>Example data\<close>

text \<open>
  A host with three registered platforms: one publishes, one throws an \<open>Error\<close>, and one
  throws \<open>undefined\<close>.
\<close>

definition example_adapter :: "string \<Rightarrow> bool \<Rightarrow> PlatformAdapter" where
  "example_adapter pid works =
     \<lparr>adapter_checkAuth = Inr [(''isAuthenticated'', JBool True)],
      adapter_publish = (\<lambda>a. if works
         then Inr [(''platform'', JStr pid), (''success'', JBool True), (''postId'', JStr ''1'')]
         else Inl (Error ''HTTP 500: Internal Server Error''))\<rparr>"

definition void_adapter :: PlatformAdapter where
  "void_adapter =
     \<lparr>adapter_checkAuth = Inr [(''isAuthenticated'', JBool True)],
      adapter_publish = (\<lambda>a. Inl (Thrown JUndefined))\<rparr>"

definition example_host :: host where
  "example_host =
     \<lparr>registry_get = (\<lambda>pid. if pid = ''up'' then Inr (Some (example_adapter pid True))
                           else if pid = ''down'' then Inr (Some (example_adapter pid False))
                           else if pid = ''void'' then Inr (Some void_adapter)
                           else Inr None),
      clock = 5, generateId = ''task_5_abc''\<rparr>"

definition example_article :: jsobj where
  "example_article = [(''title'', JStr ''Hello''), (''markdown'', JStr ''# Hello'')]"

text \<open>
  An environment whose transport answers every request with the same JSON document, with
  status 200 or 500; a definition with that one endpoint shape; no hooks. The numerals of
  the examples are short, and the engine's parsers are not asked.
\<close>

definition example_response :: "bool \<Rightarrow> jsval \<Rightarrow> Response" where
  "example_response good v =
     \<lparr>ok = good, status_code = (if good then 200 else 500),
      statusText = (if good then ''OK'' else ''Internal Server Error''),
      header_content_type = Some ''application/json; charset=utf-8'', json = Inr v,
      text_of = Inr []\<rparr>"

definition example_env :: "bool \<Rightarrow> env" where
  "example_env good =
     \<lparr>runtime_fetch = (\<lambda>n u ri. Inr (example_response good
         (JObj [(''code'', JNum 0), (''data'', JObj [(''id'', JStr ''42'')])]))),
      markdownToHtml = (\<lambda>md. Inr (JStr ''<h1>Hello</h1>'')),
      processHtml = (\<lambda>c opts. Inr c),
      htmlToMarkdown = (\<lambda>c opts. Inr c),
      Date_now = 17,
      parseInt = (\<lambda>s. parse_decimal (startsWith s ''-'') (filter is_digit s) []),
      parseFloat = (\<lambda>s. parse_decimal (startsWith s ''-'') (takeWhile is_digit (filter (\<lambda>c. c \<noteq> CHR ''-'') s))
                            (drop 1 (dropWhile is_digit (filter (\<lambda>c. c \<noteq> CHR ''-'') s))))\<rparr>"

definition no_hooks :: CustomLogic where
  "no_hooks = \<lparr>process_images = None, upload_image_by_url = None, content_transform = None,
     before_request = None, prepare_body = None\<rparr>"

text \<open>A \<open>before_request\<close> hook that rejects without a reason: it throws \<open>undefined\<close>.\<close>

definition rejecting_hooks :: CustomLogic where
  "rejecting_hooks = no_hooks\<lparr>before_request := Some (\<lambda>u context. Inl (Thrown JUndefined))\<rparr>"

definition example_endpoint :: "string \<Rightarrow> EndpointDef" where
  "example_endpoint u =
     \<lparr>request = \<lparr>url = u, http_method = ''POST'', headers = None, content_type = Some ''json'',
                  body = Some [(''title'', JStr ''{{article.title}}''), (''id'', JStr ''{{draft_id}}'')]\<rparr>,
      response = \<lparr>success = Some ''$.code == 0'', extract_map = Some [(''draft_id'', ''$.data.id'')],
                   error = Some ''$.msg''\<rparr>\<rparr>"

definition example_dsl :: "(string \<times> EndpointDef) list \<Rightarrow> AdapterDSL" where
  "example_dsl eps =
     \<lparr>name = ''demo'', display_name = ''Demo'', icon = ''https://example.com/icon.png'',
      homepage = ''https://example.com'', capabilities = [''article'', ''draft''],
      draft_url_template = Some ''https://example.com/edit/{{draft_id}}'',
      auth_check = example_endpoint ''https://example.com/api/me'',
      endpoints = eps, header_rules = JUndefined, html_processing = None, output_format = None,
      markdown_options = JUndefined, custom_logic = JUndefined\<rparr>"

definition draft_endpoints :: "(string \<times> EndpointDef) list" where
  "draft_endpoints =
     [(''create_draft'', example_endpoint ''https://example.com/api/drafts''),
      (''update_draft'', example_endpoint ''https://example.com/api/drafts/{{draft_id}}'')]"

text \<open>
  Definitions whose auth check is a plain \<open>GET\<close> with given extract paths; one of them
  extracts a field named \<open>isAuthenticated\<close> from a place the response does not have.
\<close>

definition auth_dsl :: "(string \<times> string) list \<Rightarrow> AdapterDSL" where
  "auth_dsl paths =
     (example_dsl [])\<lparr>auth_check :=
        \<lparr>request = \<lparr>url = ''https://example.com/api/me'', http_method = ''GET'', headers = None,
                     content_type = None, body = None\<rparr>,
         response = \<lparr>success = Some ''$.code == 0'', extract_map = Some paths,
                      error = Some ''$.msg''\<rparr>\<rparr>\<rparr>"

definition flag_dsl :: AdapterDSL where
  "flag_dsl = auth_dsl [(''isAuthenticated'', ''$.data.loggedIn''), (''userId'', ''$.data.id'')]"

text \<open>
  An options object that carries, besides the three options, an abort signal that has
  already been aborted; a callback that asks to stop by returning \<open>false\<close>; and a
  callback that throws for one platform.
\<close>

record OptionsWithSignal = SyncOptions +
  signal_aborted :: bool

definition stop_callback :: progress_callback where
  "stop_callback platform r = Inr (JBool False)"

definition throwing_callback :: progress_callback where
  "throwing_callback platform r =
     (if platform = ''down'' then Inl (Error ''progress failed'') else Inr JUndefined)"

text \<open>A parsed definition document with a given success expression, and a YAML parser that
  knows three documents.\<close>

definition example_document :: "string \<Rightarrow> jsval" where
  "example_document expr =
     JObj [(''name'', JStr ''demo''), (''display_name'', JStr ''Demo''),
           (''icon'', JStr ''https://example.com/icon.png''),
           (''homepage'', JStr ''https://example.com''),
           (''capabilities'', JArr [JStr ''article'', JStr ''draft'']),
           (''auth'', JObj [(''check'', JObj
              [(''request'', JObj [(''url'', JStr ''https://example.com/api/me''),
                                   (''method'', JStr ''GET'')]),
               (''response'', JObj [(''success'', JStr expr),
                                    (''extract'', JObj [(''userId'', JStr ''$.data.id'')])])])]),
           (''endpoints'', JObj [])]"

definition example_parser :: parser_env where
  "example_parser =
     \<lparr>parseYaml = (\<lambda>txt. if txt = ''good'' then Inr (example_document ''$.code == 0'')
                        else if txt = ''odd'' then Inr (example_document ''$.code > 0'')
                        else if txt = ''bad'' then Inr (JObj [(''name'', JStr ''broken'')])
                        else Inl (Error ''unexpected end of the stream'')),
      valid_url = (\<lambda>s. startsWith s ''https://'')\<rparr>"

text \<open>A registry that keeps the ids in order and refuses an id it already has.\<close>

definition example_register :: "AdapterRegistryEntry \<Rightarrow> string list \<Rightarrow> string list result" where
  "example_register entry registry =
     (if meta_id (meta entry) \<in> set registry then Inl (Error ''already registered'')
      else Inr (registry @ [meta_id (meta entry)]))"

section \<open>Properties of the expression evaluator\<close>

lemma match_placeholder_intro:
  assumes "p \<noteq> []" "CHR ''}'' \<notin> set p"
  shows "match_placeholder (''{{'' @ p @ ''}}'' @ rest) = Some (p, rest)"
proof -
  have tw: "takeWhile (\<lambda>c. c \<noteq> CHR ''}'') (p @ CHR ''}'' # CHR ''}'' # rest) = p"
    using assms(2) by (induction p) auto
  have dw: "dropWhile (\<lambda>c. c \<noteq> CHR ''}'') (p @ CHR ''}'' # CHR ''}'' # rest)
              = CHR ''}'' # CHR ''}'' # rest"
    using assms(2) by (induction p) auto
  show ?thesis
    using assms(1) by (simp add: match_placeholder_def Let_def tw dw)
qed

lemma match_placeholder_elim:
  assumes "match_placeholder s = Some (p, rest)"
  shows "s = ''{{'' @ p @ ''}}'' @ rest \<and> p \<noteq> [] \<and> CHR ''}'' \<notin> set p"
proof -
  let ?t = "drop 2 s"
  let ?P = "\<lambda>c. c \<noteq> CHR ''}''"
  from assms have two: "take 2 s = ''{{''"
    and p: "p = takeWhile ?P ?t" and ne: "p \<noteq> []"
    and cl: "take 2 (dropWhile ?P ?t) = ''}}''"
    and rest: "rest = drop 2 (dropWhile ?P ?t)"
    by (auto simp: match_placeholder_def Let_def split: if_splits)
  have "s = take 2 s @ ?t" by simp
  also have "?t = takeWhile ?P ?t @ dropWhile ?P ?t" by simp
  also have "dropWhile ?P ?t = take 2 (dropWhile ?P ?t) @ drop 2 (dropWhile ?P ?t)" by simp
  finally have "s = ''{{'' @ p @ ''}}'' @ rest"
    using two p cl rest by simp
  moreover have "CHR ''}'' \<notin> set p"
    unfolding p using set_takeWhileD by fastforce
  ultimately show ?thesis using ne by simp
qed

text \<open>A position of a string starts a placeholder exactly when the pattern matches there.\<close>

lemma occurrence_iff_match:
  "(\<exists>p post. p \<noteq> [] \<and> CHR ''}'' \<notin> set p \<and> drop i t = ''{{'' @ p @ ''}}'' @ post)
     = (match_placeholder (drop i t) \<noteq> None)"
proof
  assume "\<exists>p post. p \<noteq> [] \<and> CHR ''}'' \<notin> set p \<and> drop i t = ''{{'' @ p @ ''}}'' @ post"
  then obtain p post where "p \<noteq> []" "CHR ''}'' \<notin> set p" "drop i t = ''{{'' @ p @ ''}}'' @ post"
    by blast
  with match_placeholder_intro[of p post] show "match_placeholder (drop i t) \<noteq> None" by simp
next
  assume "match_placeholder (drop i t) \<noteq> None"
  then obtain p rest where "match_placeholder (drop i t) = Some (p, rest)" by auto
  from match_placeholder_elim[OF this]
  show "\<exists>p post. p \<noteq> [] \<and> CHR ''}'' \<notin> set p \<and> drop i t = ''{{'' @ p @ ''}}'' @ post"
    by blast
qed


















text \<open>The only thing the conversion to a string throws.\<close>

lemma js_String_throws:
  "js_String v = Inl e \<Longrightarrow> e = Error ''Cannot convert object to primitive value''"
  "join_elements xs = Inl e \<Longrightarrow> e = Error ''Cannot convert object to primitive value''"
  by (induction v and xs rule: js_String_join_elements.induct)
     (auto split: sum.splits if_splits jsval.splits)






section \<open>Properties of the orchestrator\<close>

subsection \<open>chunk\<close>

declare chunk_loop.simps [code]


lemma js_slice_chunk:
  assumes "0 \<le> i" "0 < sz"
  shows "js_slice xs i (i + sz) = take (nat sz) (drop (nat i) xs)"
proof (cases "i < int (length xs)")
  case True
  show ?thesis
  proof (cases "i + sz \<le> int (length xs)")
    case True
    with assms \<open>i < int (length xs)\<close> show ?thesis
      by (simp add: js_slice_def Let_def min_def)
  next
    case False
    with assms \<open>i < int (length xs)\<close> have "nat (int (length xs) - i) = length xs - nat i"
      by linarith
    moreover have "length xs - nat i \<le> nat sz" using False assms by linarith
    ultimately show ?thesis using False assms \<open>i < int (length xs)\<close>
      by (simp add: js_slice_def Let_def min_def)
  qed
next
  case False
  with assms show ?thesis by (simp add: js_slice_def Let_def min_def)
qed

lemma chunk_loop_positive:
  assumes "0 < sz"
  shows "0 \<le> i \<Longrightarrow>
         \<exists>bs. chunk_loop xs sz i acc = Some (acc @ bs) \<and> concat bs = drop (nat i) xs
              \<and> list_all (\<lambda>b. b \<noteq> [] \<and> int (length b) \<le> sz) bs"
proof (induction "length xs - nat i" arbitrary: i acc rule: less_induct)
  case less
  show ?case
  proof (cases "i < int (length xs)")
    case False
    then have "chunk_loop xs sz i acc = Some acc"
      by (subst chunk_loop.simps) simp
    moreover have "drop (nat i) xs = []" using False less.prems by simp
    ultimately show ?thesis by simp
  next
    case True
    let ?b = "take (nat sz) (drop (nat i) xs)"
    have slice: "js_slice xs i (i + sz) = ?b"
      using less.prems assms by (rule js_slice_chunk)
    have ne: "?b \<noteq> []" using True assms less.prems by simp
    have len: "int (length ?b) \<le> sz" using assms by simp
    have smaller: "length xs - nat (i + sz) < length xs - nat i"
      using True assms less.prems by linarith
    have "0 \<le> i + sz" using assms less.prems by simp
    from less.hyps[OF smaller this, of "acc @ [?b]"]
    obtain bs where bs: "chunk_loop xs sz (i + sz) (acc @ [?b]) = Some ((acc @ [?b]) @ bs)"
      "concat bs = drop (nat (i + sz)) xs" "list_all (\<lambda>b. b \<noteq> [] \<and> int (length b) \<le> sz) bs"
      by blast
    have "chunk_loop xs sz i acc = chunk_loop xs sz (i + sz) (acc @ [?b])"
      using True slice by (subst chunk_loop.simps) simp
    then have "chunk_loop xs sz i acc = Some (acc @ (?b # bs))" using bs(1) by simp
    moreover have "nat (i + sz) = nat sz + nat i" using assms less.prems by linarith
    then have "concat (?b # bs) = drop (nat i) xs"
      using bs(2) by (simp add: drop_drop[symmetric] del: drop_drop)
    ultimately show ?thesis using ne len bs(3) by (intro exI[of _ "?b # bs"]) simp
  qed
qed

lemma chunk_loop_diverges:
  assumes "chunk_loop xs sz i acc = Some y"
  shows "sz \<le> 0 \<longrightarrow> \<not> i < int (length xs)"
proof (rule chunk_loop.raw_induct[where P = "\<lambda>xs sz i acc y. sz \<le> 0 \<longrightarrow> \<not> i < int (length xs)", OF _ assms])
  fix f :: "'a list \<Rightarrow> int \<Rightarrow> int \<Rightarrow> 'a list list \<Rightarrow> 'a list list option"
  fix array sz i chunks y
  assume IH: "\<And>sz i chunks b y. f sz i chunks b = Some y \<Longrightarrow> i \<le> 0 \<longrightarrow> \<not> chunks < int (length sz)"
    and step: "(if i < int (length array)
                then f array sz (i + sz) (chunks @ [js_slice array i (i + sz)])
                else Some chunks) = Some y"
  show "sz \<le> 0 \<longrightarrow> \<not> i < int (length array)"
  proof (intro impI notI)
    assume neg: "sz \<le> 0" and lt: "i < int (length array)"
    with step have "f array sz (i + sz) (chunks @ [js_slice array i (i + sz)]) = Some y" by simp
    from IH[OF this] neg have "\<not> i + sz < int (length array)" by simp
    with neg lt show False by simp
  qed
qed

lemma chunk_None_iff: "chunk xs sz = None \<longleftrightarrow> sz \<le> 0 \<and> xs \<noteq> []"
proof (cases "0 < sz")
  case True
  from chunk_loop_positive[OF True, of 0 xs "[]"] show ?thesis
    using True by (auto simp: chunk_def)
next
  case False
  show ?thesis
  proof (cases xs)
    case Nil
    then show ?thesis by (simp add: chunk_def chunk_loop.simps)
  next
    case (Cons a as)
    have "chunk_loop xs sz 0 [] = None"
    proof (cases "chunk_loop xs sz 0 []")
      case (Some y)
      from chunk_loop_diverges[OF this] False Cons show ?thesis by simp
    qed simp
    then show ?thesis using False Cons by (simp add: chunk_def)
  qed
qed

lemma chunk_concat: "chunk xs sz = Some bs \<Longrightarrow> concat bs = xs"
proof (cases "0 < sz")
  case True
  assume "chunk xs sz = Some bs"
  with chunk_loop_positive[OF True, of 0 xs "[]"] show ?thesis by (auto simp: chunk_def)
next
  case False
  assume c: "chunk xs sz = Some bs"
  with chunk_None_iff[of xs sz] False have "xs = []" by auto
  with c show ?thesis by (simp add: chunk_def chunk_loop.simps)
qed

lemma singletons: "list_all (\<lambda>b. b \<noteq> [] \<and> int (length b) \<le> 1) bs \<Longrightarrow> bs = map (\<lambda>x. [x]) (concat bs)"
proof (induction bs)
  case Nil then show ?case by simp
next
  case (Cons b bs)
  then obtain x where "b = [x]" by (cases b; cases "tl b") auto
  with Cons show ?case by simp
qed

lemma chunk_one: "chunk xs 1 = Some (map (\<lambda>x. [x]) xs)"
proof -
  from chunk_loop_positive[of 1 0 xs "[]"]
  obtain bs where "chunk xs 1 = Some bs" "concat bs = xs" "list_all (\<lambda>b. b \<noteq> [] \<and> int (length b) \<le> 1) bs"
    by (auto simp: chunk_def)
  with singletons[of bs] show ?thesis by simp
qed

subsection \<open>Batches\<close>

lemma Promise_all_Some: "(Promise_all ps = Some xs) = (ps = map Inr xs)"
proof (induction ps arbitrary: xs)
  case Nil
  show ?case by (auto simp: Promise_all_def)
next
  case (Cons p ps)
  have IH: "\<And>xs. (those (map (\<lambda>p. case p of Inl e \<Rightarrow> None | Inr x \<Rightarrow> Some x) ps) = Some xs)
              = (ps = map Inr xs)"
    using Cons by (simp add: Promise_all_def)
  show ?case
  proof (cases p)
    case (Inl e)
    then show ?thesis by (cases xs) (auto simp: Promise_all_def)
  next
    case (Inr x)
    then show ?thesis
      by (cases xs) (auto simp: Promise_all_def IH split: option.splits)
  qed
qed

lemma Promise_all_None: "(Promise_all ps = None) = (\<exists>p \<in> set ps. isl p)"
proof (induction ps)
  case Nil
  show ?case by (simp add: Promise_all_def)
next
  case (Cons p ps)
  then have IH: "(those (map (\<lambda>p. case p of Inl e \<Rightarrow> None | Inr x \<Rightarrow> Some x) ps) = None)
              = (\<exists>p \<in> set ps. isl p)"
    by (simp add: Promise_all_def)
  show ?case
    by (cases p) (auto simp: Promise_all_def IH split: option.splits)
qed

lemma run_platform_Inr:
  "(run_platform h art cb p = Inr r)
     = (syncToPlatform h art p = Inr r
        \<and> (\<forall>f. cb = Some f \<longrightarrow> \<not> isl (f p r)))"
  by (auto simp: run_platform_def split: sum.splits option.splits)

lemma run_platform_isl:
  "isl (run_platform h art cb p)
     = (isl (syncToPlatform h art p)
        \<or> (\<exists>f r. cb = Some f \<and> syncToPlatform h art p = Inr r \<and> isl (f p r)))"
  by (auto simp: run_platform_def split: sum.splits option.splits)

lemma run_batch_None:
  "(run_batch h art cb b = None)
     = (\<exists>p \<in> set b. isl (syncToPlatform h art p)
           \<or> (\<exists>f r. cb = Some f \<and> syncToPlatform h art p = Inr r \<and> isl (f p r)))"
  by (simp add: run_batch_def Promise_all_None run_platform_isl)

lemma run_batch_Some:
  "run_batch h art cb b = Some rs \<Longrightarrow> map (syncToPlatform h art) b = map Inr rs"
proof -
  assume "run_batch h art cb b = Some rs"
  then have "map (run_platform h art cb) b = map Inr rs"
    by (simp add: run_batch_def Promise_all_Some)
  then show ?thesis
  proof (induction b arbitrary: rs)
    case Nil
    then show ?case by simp
  next
    case (Cons p b)
    then obtain r rs' where rs: "rs = r # rs'" by (cases rs) auto
    with Cons.prems have "run_platform h art cb p = Inr r" "map (run_platform h art cb) b = map Inr rs'"
      by simp_all
    with Cons.IH[of rs'] rs show ?case by (simp add: run_platform_Inr)
  qed
qed

lemma run_batches_Some:
  "map (run_batch h art cb) bs = map Some rss \<Longrightarrow>
   map (syncToPlatform h art) (concat bs) = map Inr (concat rss)"
proof (induction bs arbitrary: rss)
  case Nil
  then show ?case by simp
next
  case (Cons b bs)
  then obtain rs rss' where rss: "rss = rs # rss'" by (cases rss) auto
  with Cons.prems have "run_batch h art cb b = Some rs" "map (run_batch h art cb) bs = map Some rss'"
    by simp_all
  with Cons.IH[of rss'] run_batch_Some[of h art cb b rs] rss show ?case by simp
qed

lemma run_batch_callback:
  "(\<forall>p r. isl (f p r) = isl (g p r)) \<Longrightarrow>
   run_batch h art (Some f) b = run_batch h art (Some g) b"
proof -
  assume same: "\<forall>p r. isl (f p r) = isl (g p r)"
  have "(case run_platform h art (Some f) p of Inl e \<Rightarrow> None | Inr x \<Rightarrow> Some x)
      = (case run_platform h art (Some g) p of Inl e \<Rightarrow> None | Inr x \<Rightarrow> Some x)" for p
  proof (cases "syncToPlatform h art p")
    case (Inl e)
    then show ?thesis by (simp add: run_platform_def)
  next
    case (Inr r)
    with same[rule_format, of p r] show ?thesis
      by (cases "f p r"; cases "g p r") (simp_all add: run_platform_def)
  qed
  then show ?thesis by (simp add: run_batch_def Promise_all_def comp_def)
qed

subsection \<open>The batch loop\<close>

lemma sync_loop_reject:
  "run_batch h art cb b = None \<Longrightarrow>
   sync_loop h art cont cb calls (b # bs) (tasks, task)
     = ((foldl run_call tasks (case calls of [] \<Rightarrow> [] | c # cs \<Rightarrow> c), task), True)"
  by (simp add: Let_def)

lemma sync_loop_stop:
  "run_batch h art cb b = Some rs \<Longrightarrow> \<not> cont \<Longrightarrow> \<not> list_all succeeded rs \<Longrightarrow>
   sync_loop h art cont cb calls (b # bs) (tasks, task)
     = ((store (task\<lparr>results := results task @ rs\<rparr>)
           (foldl run_call tasks (case calls of [] \<Rightarrow> [] | c # cs \<Rightarrow> c)),
         task\<lparr>results := results task @ rs\<rparr>), False)"
  by (simp add: Let_def list_all_iff list_ex_iff)

lemma sync_loop_next:
  "run_batch h art cb b = Some rs \<Longrightarrow> cont \<or> list_all succeeded rs \<Longrightarrow>
   sync_loop h art cont cb calls (b # bs) (tasks, task)
     = sync_loop h art cont cb (tl calls) bs
         (store (task\<lparr>results := results task @ rs\<rparr>)
            (foldl run_call tasks (case calls of [] \<Rightarrow> [] | c # cs \<Rightarrow> c)),
          task\<lparr>results := results task @ rs\<rparr>)"
  by (auto simp add: Let_def list_all_iff list_ex_iff)

lemma sync_loop_calls:
  "(\<And>b. run_batch h art cb b = run_batch h art cb' b) \<Longrightarrow>
   snd (fst (sync_loop h art cont cb calls bs (tasks, task)))
     = snd (fst (sync_loop h art cont cb' calls' bs (tasks', task)))
   \<and> snd (sync_loop h art cont cb calls bs (tasks, task))
     = snd (sync_loop h art cont cb' calls' bs (tasks', task))"
proof (induction bs arbitrary: calls calls' tasks tasks' task)
  case Nil
  show ?case by simp
next
  case (Cons b bs)
  note same = Cons.prems[of b]
  consider (reject) "run_batch h art cb b = None"
    | (stop) rs where "run_batch h art cb b = Some rs" "\<not> cont" "\<not> list_all succeeded rs"
    | (go) rs where "run_batch h art cb b = Some rs" "cont \<or> list_all succeeded rs"
    by (cases "run_batch h art cb b") auto
  then show ?case
  proof cases
    case reject
    then show ?thesis
      using sync_loop_reject[OF reject] sync_loop_reject[OF reject[unfolded same]]
      by simp
  next
    case (stop rs)
    then show ?thesis
      using sync_loop_stop[OF stop] sync_loop_stop[OF stop(1)[unfolded same] stop(2,3)]
      by simp
  next
    case (go rs)
    then show ?thesis
      using sync_loop_next[OF go] sync_loop_next[OF go(1)[unfolded same] go(2)]
        Cons.IH[OF Cons.prems, of "tl calls" _ _ "tl calls'"]
      by simp
  qed
qed

lemma sync_loop_prefix:
  "map (run_batch h art cb) bs1 = map Some rss \<Longrightarrow>
   list_all (\<lambda>rs. cont \<or> list_all succeeded rs) rss \<Longrightarrow>
   \<exists>tasks'. sync_loop h art cont cb calls (bs1 @ bs2) (tasks, task)
         = sync_loop h art cont cb (drop (length bs1) calls) bs2
             (tasks', task\<lparr>results := results task @ concat rss\<rparr>)"
proof (induction bs1 arbitrary: rss calls tasks task)
  case Nil
  then show ?case by (intro exI[of _ tasks]) simp
next
  case (Cons b bs1)
  then obtain rs rss' where rss: "rss = rs # rss'" by (cases rss) auto
  let ?task' = "task\<lparr>results := results task @ rs\<rparr>"
  let ?tasks1 = "foldl run_call tasks (case calls of [] \<Rightarrow> [] | c # cs \<Rightarrow> c)"
  from Cons.prems rss have b: "run_batch h art cb b = Some rs"
    and rest: "map (run_batch h art cb) bs1 = map Some rss'"
    and go: "cont \<or> list_all succeeded rs"
    and goes: "list_all (\<lambda>rs. cont \<or> list_all succeeded rs) rss'"
    by simp_all
  have step: "sync_loop h art cont cb calls ((b # bs1) @ bs2) (tasks, task)
        = sync_loop h art cont cb (tl calls) (bs1 @ bs2) (store ?task' ?tasks1, ?task')"
    using sync_loop_next[OF b go] by simp
  from Cons.IH[OF rest goes, of "tl calls" "store ?task' ?tasks1" ?task']
  obtain tasks' where "sync_loop h art cont cb (tl calls) (bs1 @ bs2) (store ?task' ?tasks1, ?task')
     = sync_loop h art cont cb (drop (length bs1) (tl calls)) bs2
         (tasks', ?task'\<lparr>results := results ?task' @ concat rss'\<rparr>)"
    by blast
  with step rss show ?case
    by (intro exI[of _ tasks']) (simp add: drop_Suc)
qed

lemma sync_loop_outcome:
  "\<exists>n rss tasks' threw. n \<le> length bs
     \<and> map (run_batch h art cb) (take n bs) = map Some rss
     \<and> sync_loop h art cont cb calls bs (tasks, task)
         = ((tasks', task\<lparr>results := results task @ concat rss\<rparr>), threw)
     \<and> ((n = length bs \<and> \<not> threw)
         \<or> (n < length bs \<and> run_batch h art cb (bs ! n) = None \<and> threw)
         \<or> (\<not> cont \<and> 0 < n \<and> \<not> list_all succeeded (rss ! (n - 1)) \<and> \<not> threw))"
proof (induction bs arbitrary: calls tasks task)
  case Nil
  have "0 \<le> length ([] :: string list list)
     \<and> map (run_batch h art cb) (take 0 []) = map Some []
     \<and> sync_loop h art cont cb calls [] (tasks, task)
         = ((tasks, task\<lparr>results := results task @ concat []\<rparr>), False)
     \<and> (0 = length ([] :: string list list) \<and> \<not> False)"
    by simp
  then show ?case by blast
next
  case (Cons b bs)
  let ?tasks1 = "foldl run_call tasks (case calls of [] \<Rightarrow> [] | c # cs \<Rightarrow> c)"
  consider (reject) "run_batch h art cb b = None"
    | (stop) rs where "run_batch h art cb b = Some rs" "\<not> cont" "\<not> list_all succeeded rs"
    | (go) rs where "run_batch h art cb b = Some rs" "cont \<or> list_all succeeded rs"
    by (cases "run_batch h art cb b") auto
  then show ?case
  proof cases
    case reject
    have "0 \<le> length (b # bs)
     \<and> map (run_batch h art cb) (take 0 (b # bs)) = map Some []
     \<and> sync_loop h art cont cb calls (b # bs) (tasks, task)
         = ((?tasks1, task\<lparr>results := results task @ concat []\<rparr>), True)
     \<and> (0 < length (b # bs) \<and> run_batch h art cb ((b # bs) ! 0) = None \<and> True)"
      using sync_loop_reject[OF reject] reject by simp
    then show ?thesis by blast
  next
    case (stop rs)
    let ?task' = "task\<lparr>results := results task @ rs\<rparr>"
    have "1 \<le> length (b # bs)
     \<and> map (run_batch h art cb) (take 1 (b # bs)) = map Some [rs]
     \<and> sync_loop h art cont cb calls (b # bs) (tasks, task)
         = ((store ?task' ?tasks1, task\<lparr>results := results task @ concat [rs]\<rparr>), False)
     \<and> (\<not> cont \<and> (0::nat) < 1 \<and> \<not> list_all succeeded ([rs] ! (1 - 1)) \<and> \<not> False)"
      using sync_loop_stop[OF stop] stop by simp
    then show ?thesis by blast
  next
    case (go rs)
    let ?task' = "task\<lparr>results := results task @ rs\<rparr>"
    from Cons[of "tl calls" "store ?task' ?tasks1" ?task']
    obtain n rss tasks' threw where n: "n \<le> length bs"
      and m: "map (run_batch h art cb) (take n bs) = map Some rss"
      and l: "sync_loop h art cont cb (tl calls) bs (store ?task' ?tasks1, ?task')
        = ((tasks', ?task'\<lparr>results := results ?task' @ concat rss\<rparr>), threw)"
      and why: "(n = length bs \<and> \<not> threw)
         \<or> (n < length bs \<and> run_batch h art cb (bs ! n) = None \<and> threw)
         \<or> (\<not> cont \<and> 0 < n \<and> \<not> list_all succeeded (rss ! (n - 1)) \<and> \<not> threw)"
      by blast
    have third: "0 < n \<Longrightarrow> (rs # rss) ! (Suc n - 1) = rss ! (n - 1)"
      by (cases n) simp_all
    have "Suc n \<le> length (b # bs)
     \<and> map (run_batch h art cb) (take (Suc n) (b # bs)) = map Some (rs # rss)
     \<and> sync_loop h art cont cb calls (b # bs) (tasks, task)
         = ((tasks', task\<lparr>results := results task @ concat (rs # rss)\<rparr>), threw)
     \<and> ((Suc n = length (b # bs) \<and> \<not> threw)
         \<or> (Suc n < length (b # bs) \<and> run_batch h art cb ((b # bs) ! Suc n) = None \<and> threw)
         \<or> (\<not> cont \<and> 0 < Suc n \<and> \<not> list_all succeeded ((rs # rss) ! (Suc n - 1)) \<and> \<not> threw))"
      using sync_loop_next[OF go] n m l why third go(1) by auto
    then show ?thesis by blast
  qed
qed

subsection \<open>Runs of sync\<close>

lemma sync_unfold:
  assumes "chunk pfs (case concurrency options of None \<Rightarrow> 3 | Some c \<Rightarrow> c) = Some batches"
    and "sync_loop h art (case continueOnError options of None \<Rightarrow> True | Some b \<Rightarrow> b)
           (onProgress options) calls batches
           (obj_set (generateId h)
              \<lparr>task_id = generateId h, article = art, platforms = pfs, status = Running,
                results = [], createdAt = clock h, completedAt = None\<rparr> tasks,
            \<lparr>task_id = generateId h, article = art, platforms = pfs, status = Running,
              results = [], createdAt = clock h, completedAt = None\<rparr>)
         = ((tasks1, task1), threw)"
  shows "sync h tasks art pfs options calls
         = Some (task1\<lparr>status := (if \<not> threw \<and> list_all succeeded (results task1)
                                      then Completed else Failed),
                         completedAt := Some (clock h)\<rparr>,
                 store (task1\<lparr>status := (if \<not> threw \<and> list_all succeeded (results task1)
                                      then Completed else Failed),
                         completedAt := Some (clock h)\<rparr>) tasks1)"
  using assms by (simp add: sync_def Let_def)

lemma sync_None:
  "(sync h tasks art pfs options calls = None)
     = ((case concurrency options of None \<Rightarrow> 3 | Some c \<Rightarrow> c) \<le> 0 \<and> pfs \<noteq> [])"
proof -
  have "(sync h tasks art pfs options calls = None)
          = (chunk pfs (case concurrency options of None \<Rightarrow> 3 | Some c \<Rightarrow> c) = None)"
    by (auto simp: sync_def Let_def split: option.splits prod.splits)
  then show ?thesis by (simp add: chunk_None_iff)
qed

lemma chunk_example:
  "chunk [''up'', ''down'', ''up'', ''up''] 2 = Some [[''up'', ''down''], [''up'', ''up'']]"
  by (simp add: chunk_def chunk_loop.simps js_slice_def)

text \<open>What \<open>sync\<close> returns, by what the loop returns.\<close>

lemma sync_of_loop:
  assumes ch: "chunk pfs (case concurrency options of None \<Rightarrow> 3 | Some c \<Rightarrow> c) = Some batches"
    and loop: "sync_loop h art (case continueOnError options of None \<Rightarrow> True | Some b \<Rightarrow> b)
           (onProgress options) calls batches
           (obj_set (generateId h)
              \<lparr>task_id = generateId h, article = art, platforms = pfs, status = Running,
                results = [], createdAt = clock h, completedAt = None\<rparr> tasks,
            \<lparr>task_id = generateId h, article = art, platforms = pfs, status = Running,
              results = [], createdAt = clock h, completedAt = None\<rparr>)
         = ((tasks1,
             \<lparr>task_id = generateId h, article = art, platforms = pfs, status = Running,
               results = [], createdAt = clock h, completedAt = None\<rparr>
             \<lparr>results := results \<lparr>task_id = generateId h, article = art, platforms = pfs,
                  status = Running, results = [], createdAt = clock h, completedAt = None\<rparr> @ rs\<rparr>),
            threw)"
  shows "\<exists>task tasks'. sync h tasks art pfs options calls = Some (task, tasks')
           \<and> results task = rs \<and> platforms task = pfs \<and> concat batches = pfs
           \<and> status task = (if \<not> threw \<and> list_all succeeded rs then Completed else Failed)"
proof -
  from sync_unfold[OF ch loop]
  show ?thesis using chunk_concat[OF ch] by simp
qed

lemma sync_complete:
  assumes ch: "chunk pfs (case concurrency options of None \<Rightarrow> 3 | Some c \<Rightarrow> c) = Some batches"
    and all: "map (run_batch h art (onProgress options)) batches = map Some rss"
    and go: "continueOnError options \<noteq> Some False \<or> list_all (list_all succeeded) rss"
  shows "\<exists>task tasks'. sync h tasks art pfs options calls = Some (task, tasks')
           \<and> results task = concat rss
           \<and> map Inr (results task) = map (syncToPlatform h art) pfs
           \<and> platforms task = pfs
           \<and> status task = (if list_all succeeded (concat rss) then Completed else Failed)"
proof -
  let ?cont = "case continueOnError options of None \<Rightarrow> True | Some b \<Rightarrow> b"
  let ?task = "\<lparr>task_id = generateId h, article = art, platforms = pfs, status = Running,
                results = [], createdAt = clock h, completedAt = None\<rparr>"
  let ?tasks0 = "obj_set (generateId h) ?task tasks"
  from go have "list_all (\<lambda>rs. ?cont \<or> list_all succeeded rs) rss"
    by (auto simp: list_all_iff split: option.splits)
  from sync_loop_prefix[OF all this, of calls "[]" ?tasks0 ?task]
  obtain tasks1 where "sync_loop h art ?cont (onProgress options) calls batches (?tasks0, ?task)
      = ((tasks1, ?task\<lparr>results := results ?task @ concat rss\<rparr>), False)"
    by auto
  from sync_of_loop[OF ch this]
  obtain task tasks' where s: "sync h tasks art pfs options calls = Some (task, tasks')"
    "results task = concat rss" "platforms task = pfs" "concat batches = pfs"
    "status task = (if list_all succeeded (concat rss) then Completed else Failed)"
    by auto
  from run_batches_Some[OF all] s(4)
  have "map Inr (concat rss) = map (syncToPlatform h art) pfs" by simp
  with s show ?thesis by simp
qed

lemma sync_rejected:
  assumes ch: "chunk pfs (case concurrency options of None \<Rightarrow> 3 | Some c \<Rightarrow> c) = Some batches"
    and k: "k < length batches"
    and before: "map (run_batch h art (onProgress options)) (take k batches) = map Some rss"
    and go: "continueOnError options \<noteq> Some False \<or> list_all (list_all succeeded) rss"
    and rej: "run_batch h art (onProgress options) (batches ! k) = None"
  shows "\<exists>task tasks'. sync h tasks art pfs options calls = Some (task, tasks')
           \<and> results task = concat rss
           \<and> map Inr (results task) = map (syncToPlatform h art) (concat (take k batches))
           \<and> concat batches = pfs \<and> platforms task = pfs
           \<and> status task = Failed"
proof -
  let ?cont = "case continueOnError options of None \<Rightarrow> True | Some b \<Rightarrow> b"
  let ?cb = "onProgress options"
  let ?task = "\<lparr>task_id = generateId h, article = art, platforms = pfs, status = Running,
                results = [], createdAt = clock h, completedAt = None\<rparr>"
  let ?tasks0 = "obj_set (generateId h) ?task tasks"
  have split: "batches = take k batches @ (batches ! k) # drop (Suc k) batches"
    using k by (rule id_take_nth_drop)
  from go have "list_all (\<lambda>rs. ?cont \<or> list_all succeeded rs) rss"
    by (auto simp: list_all_iff split: option.splits)
  from sync_loop_prefix[OF before this, of calls "(batches ! k) # drop (Suc k) batches" ?tasks0 ?task]
  obtain tasks1 where
    "sync_loop h art ?cont ?cb calls (take k batches @ (batches ! k) # drop (Suc k) batches) (?tasks0, ?task)
      = sync_loop h art ?cont ?cb (drop (length (take k batches)) calls)
          ((batches ! k) # drop (Suc k) batches)
          (tasks1, ?task\<lparr>results := results ?task @ concat rss\<rparr>)"
    by blast
  also have "\<dots> = ((foldl run_call tasks1
                       (case drop (length (take k batches)) calls of [] \<Rightarrow> [] | c # cs \<Rightarrow> c),
                     ?task\<lparr>results := results ?task @ concat rss\<rparr>), True)"
    by (rule sync_loop_reject[OF rej])
  finally have "sync_loop h art ?cont ?cb calls batches (?tasks0, ?task)
      = ((foldl run_call tasks1
            (case drop (length (take k batches)) calls of [] \<Rightarrow> [] | c # cs \<Rightarrow> c),
          ?task\<lparr>results := results ?task @ concat rss\<rparr>), True)"
    using split by simp
  from sync_of_loop[OF ch this]
  obtain task tasks' where s: "sync h tasks art pfs options calls = Some (task, tasks')"
    "results task = concat rss" "platforms task = pfs" "concat batches = pfs"
    "status task = Failed"
    by auto
  from run_batches_Some[OF before]
  have "map Inr (concat rss) = map (syncToPlatform h art) (concat (take k batches))" by simp
  with s show ?thesis by simp
qed

lemma sync_halted:
  assumes ch: "chunk pfs (case concurrency options of None \<Rightarrow> 3 | Some c \<Rightarrow> c) = Some batches"
    and cont: "continueOnError options = Some False"
    and k: "k < length batches"
    and upto: "map (run_batch h art (onProgress options)) (take (Suc k) batches) = map Some rss"
    and good: "list_all (list_all succeeded) (take k rss)"
    and bad: "\<not> list_all succeeded (rss ! k)"
  shows "\<exists>task tasks'. sync h tasks art pfs options calls = Some (task, tasks')
           \<and> results task = concat rss
           \<and> map Inr (results task) = map (syncToPlatform h art) (concat (take (Suc k) batches))
           \<and> concat batches = pfs \<and> platforms task = pfs
           \<and> status task = Failed"
proof -
  let ?cb = "onProgress options"
  let ?task = "\<lparr>task_id = generateId h, article = art, platforms = pfs, status = Running,
                results = [], createdAt = clock h, completedAt = None\<rparr>"
  let ?tasks0 = "obj_set (generateId h) ?task tasks"
  have split: "batches = take k batches @ (batches ! k) # drop (Suc k) batches"
    using k by (rule id_take_nth_drop)
  have tk: "take (Suc k) batches = take k batches @ [batches ! k]"
    using k by (rule take_Suc_conv_app_nth)
  from upto have len: "length rss = Suc k"
    using k by (metis length_map length_take min.absorb2 Suc_leI)
  then have "k < length rss" by simp
  then have rk: "take (Suc k) rss = take k rss @ [rss ! k]"
    by (rule take_Suc_conv_app_nth)
  from len have "take (Suc k) rss = rss" by simp
  with rk have rss: "rss = take k rss @ [rss ! k]" by simp
  from upto tk rss have "map (run_batch h art ?cb) (take k batches) @ [run_batch h art ?cb (batches ! k)]
      = map Some (take k rss) @ [Some (rss ! k)]"
    by (metis list.simps(8,9) map_append)
  then have before: "map (run_batch h art ?cb) (take k batches) = map Some (take k rss)"
    and here: "run_batch h art ?cb (batches ! k) = Some (rss ! k)"
    using len k by simp_all
  from good have "list_all (\<lambda>rs. False \<or> list_all succeeded rs) (take k rss)" by simp
  from sync_loop_prefix[OF before this, of calls "(batches ! k) # drop (Suc k) batches" ?tasks0 ?task]
  obtain tasks1 where
    "sync_loop h art False ?cb calls (take k batches @ (batches ! k) # drop (Suc k) batches) (?tasks0, ?task)
      = sync_loop h art False ?cb (drop (length (take k batches)) calls)
          ((batches ! k) # drop (Suc k) batches)
          (tasks1, ?task\<lparr>results := results ?task @ concat (take k rss)\<rparr>)"
    by blast
  also have "\<dots> = ((store (?task\<lparr>results := concat (take k rss) @ rss ! k\<rparr>)
                      (foldl run_call tasks1
                         (case drop (length (take k batches)) calls of [] \<Rightarrow> [] | c # cs \<Rightarrow> c)),
                    ?task\<lparr>results := concat (take k rss) @ rss ! k\<rparr>), False)"
    using sync_loop_stop[OF here _ bad, of False] by simp
  finally have "sync_loop h art False ?cb calls batches (?tasks0, ?task)
      = ((store (?task\<lparr>results := concat (take k rss) @ rss ! k\<rparr>)
                      (foldl run_call tasks1
                         (case drop (length (take k batches)) calls of [] \<Rightarrow> [] | c # cs \<Rightarrow> c)),
          ?task\<lparr>results := concat (take k rss) @ rss ! k\<rparr>), False)"
    using split by simp
  moreover have cr: "concat rss = concat (take k rss) @ rss ! k"
    by (subst rss) simp
  ultimately have loop: "sync_loop h art (case continueOnError options of None \<Rightarrow> True | Some b \<Rightarrow> b)
        ?cb calls batches (?tasks0, ?task)
      = ((store (?task\<lparr>results := concat rss\<rparr>)
                      (foldl run_call tasks1
                         (case drop (length (take k batches)) calls of [] \<Rightarrow> [] | c # cs \<Rightarrow> c)),
          ?task\<lparr>results := results ?task @ concat rss\<rparr>), False)"
    using cont by simp
  have failing: "\<not> list_all succeeded (concat rss)"
    using bad cr by simp
  from sync_of_loop[OF ch loop] failing
  obtain task tasks' where s: "sync h tasks art pfs options calls = Some (task, tasks')"
    "results task = concat rss" "platforms task = pfs" "concat batches = pfs"
    "status task = Failed"
    by auto
  from run_batches_Some[OF upto]
  have "map Inr (concat rss) = map (syncToPlatform h art) (concat (take (Suc k) batches))" by simp
  with s show ?thesis by simp
qed

lemma sync_outcome:
  assumes ch: "chunk pfs (case concurrency options of None \<Rightarrow> 3 | Some c \<Rightarrow> c) = Some batches"
  shows "\<exists>task tasks' n rss. sync h tasks art pfs options calls = Some (task, tasks')
           \<and> n \<le> length batches
           \<and> map (run_batch h art (onProgress options)) (take n batches) = map Some rss
           \<and> results task = concat rss \<and> platforms task = pfs \<and> concat batches = pfs
           \<and> ((n = length batches
                 \<and> status task = (if list_all succeeded (concat rss) then Completed else Failed))
               \<or> (n < length batches
                   \<and> run_batch h art (onProgress options) (batches ! n) = None
                   \<and> status task = Failed)
               \<or> (continueOnError options = Some False \<and> 0 < n
                   \<and> \<not> list_all succeeded (rss ! (n - 1)) \<and> status task = Failed))"
proof -
  let ?cont = "case continueOnError options of None \<Rightarrow> True | Some b \<Rightarrow> b"
  let ?cb = "onProgress options"
  let ?task = "\<lparr>task_id = generateId h, article = art, platforms = pfs, status = Running,
                results = [], createdAt = clock h, completedAt = None\<rparr>"
  let ?tasks0 = "obj_set (generateId h) ?task tasks"
  from sync_loop_outcome[of batches h art ?cb ?cont calls ?tasks0 ?task]
  obtain n rss tasks1 threw where n: "n \<le> length batches"
    and m: "map (run_batch h art ?cb) (take n batches) = map Some rss"
    and l: "sync_loop h art ?cont ?cb calls batches (?tasks0, ?task)
         = ((tasks1, ?task\<lparr>results := results ?task @ concat rss\<rparr>), threw)"
    and why: "(n = length batches \<and> \<not> threw)
         \<or> (n < length batches \<and> run_batch h art ?cb (batches ! n) = None \<and> threw)
         \<or> (\<not> ?cont \<and> 0 < n \<and> \<not> list_all succeeded (rss ! (n - 1)) \<and> \<not> threw)"
    by blast
  from sync_of_loop[OF ch l]
  obtain task tasks' where s: "sync h tasks art pfs options calls = Some (task, tasks')"
    "results task = concat rss" "platforms task = pfs" "concat batches = pfs"
    "status task = (if \<not> threw \<and> list_all succeeded (concat rss) then Completed else Failed)"
    by auto
  from m n have len: "length rss = n"
    by (metis length_map length_take min.absorb2)
  have third: "\<not> ?cont \<Longrightarrow> 0 < n \<Longrightarrow> \<not> list_all succeeded (rss ! (n - 1)) \<Longrightarrow>
      continueOnError options = Some False \<and> \<not> list_all succeeded (concat rss)"
  proof -
    assume c: "\<not> ?cont" and pos: "0 < n" and bad: "\<not> list_all succeeded (rss ! (n - 1))"
    from c have "continueOnError options = Some False" by (auto split: option.splits)
    moreover from pos len have "rss ! (n - 1) \<in> set rss" by simp
    with bad have "\<not> list_all succeeded (concat rss)" by (auto simp: list_all_iff)
    ultimately show ?thesis by simp
  qed
  from why third s(5)
  have "(n = length batches
                 \<and> status task = (if list_all succeeded (concat rss) then Completed else Failed))
               \<or> (n < length batches
                   \<and> run_batch h art ?cb (batches ! n) = None
                   \<and> status task = Failed)
               \<or> (continueOnError options = Some False \<and> 0 < n
                   \<and> \<not> list_all succeeded (rss ! (n - 1)) \<and> status task = Failed)"
    by auto
  with s n m show ?thesis by blast
qed

lemma sync_independent:
  assumes same: "\<And>b. run_batch h art (onProgress options) b = run_batch h art (onProgress options') b"
    and conc: "concurrency options = concurrency options'"
    and cont: "continueOnError options = continueOnError options'"
  shows "map_option fst (sync h tasks art pfs options calls)
           = map_option fst (sync h tasks' art pfs options' calls')"
proof (cases "chunk pfs (case concurrency options of None \<Rightarrow> 3 | Some c \<Rightarrow> c)")
  case None
  then show ?thesis using conc by (simp add: sync_def Let_def)
next
  case (Some bs)
  let ?cont = "case continueOnError options of None \<Rightarrow> True | Some b \<Rightarrow> b"
  let ?task = "\<lparr>task_id = generateId h, article = art, platforms = pfs, status = Running,
                results = [], createdAt = clock h, completedAt = None\<rparr>"
  let ?tasks0 = "obj_set (generateId h) ?task tasks"
  let ?tasks0' = "obj_set (generateId h) ?task tasks'"
  from Some conc have Some': "chunk pfs (case concurrency options' of None \<Rightarrow> 3 | Some c \<Rightarrow> c) = Some bs"
    by simp
  obtain tasks1 task1 threw1 where l1:
    "sync_loop h art ?cont (onProgress options) calls bs (?tasks0, ?task) = ((tasks1, task1), threw1)"
    by (metis surj_pair)
  obtain tasks2 task2 threw2 where l2:
    "sync_loop h art ?cont (onProgress options') calls' bs (?tasks0', ?task) = ((tasks2, task2), threw2)"
    by (metis surj_pair)
  from sync_loop_calls[of h art "onProgress options" "onProgress options'" ?cont calls bs
      ?tasks0 ?task calls' ?tasks0', OF same] l1 l2
  have eq: "task1 = task2" "threw1 = threw2" by simp_all
  from l2 cont have l2': "sync_loop h art (case continueOnError options' of None \<Rightarrow> True | Some b \<Rightarrow> b)
      (onProgress options') calls' bs (?tasks0', ?task) = ((tasks2, task2), threw2)"
    by simp
  show ?thesis
    using sync_unfold[OF Some l1] sync_unfold[OF Some' l2'] eq by simp
qed

subsection \<open>Stopping at a failed batch\<close>

text \<open>
  C2, as the code has it. \<open>sync\<close> runs with \<open>continueOnError = false\<close>. A batch
  resolves when every workflow in it returns and the callback throws for none of them;
  its results are then the workflows' results in the order of the batch. When the batches
  up to batch \<open>k\<close> resolve, those before batch \<open>k\<close> without a failed result and batch
  \<open>k\<close> with one, the results are those of the batches up to and including batch \<open>k\<close>,
  in order, the successful ones of batch \<open>k\<close> among them. When the batches before batch
  \<open>k\<close> resolve without a failed result and batch \<open>k\<close> rejects, the results are those
  of the batches before batch \<open>k\<close>: the results of batch \<open>k\<close> are dropped. In both
  cases no platform of a later batch has a result, and the task has failed. \<open>sync\<close>
  returns for every concurrency but one that is not positive with a non-empty list, where
  the batches are never built.
\<close>

theorem sync_stops_after_failed_batch:
  "(chunk pfs (case concurrency options of None \<Rightarrow> 3 | Some c \<Rightarrow> c) = Some batches
    \<and> continueOnError options = Some False
    \<and> k < length batches
    \<and> map (run_batch h art (onProgress options)) (take (Suc k) batches) = map Some rss
    \<and> list_all (list_all succeeded) (take k rss)
    \<and> \<not> list_all succeeded (rss ! k)
    \<longrightarrow> (\<exists>task tasks'. sync h tasks art pfs options calls = Some (task, tasks')
          \<and> results task = concat rss
          \<and> map Inr (results task) = map (syncToPlatform h art) (concat (take (Suc k) batches))
          \<and> concat batches = pfs \<and> platforms task = pfs \<and> status task = Failed))
   \<and> (chunk pfs (case concurrency options of None \<Rightarrow> 3 | Some c \<Rightarrow> c) = Some batches
    \<and> continueOnError options = Some False
    \<and> k < length batches
    \<and> map (run_batch h art (onProgress options)) (take k batches) = map Some rss
    \<and> list_all (list_all succeeded) rss
    \<and> run_batch h art (onProgress options) (batches ! k) = None
    \<longrightarrow> (\<exists>task tasks'. sync h tasks art pfs options calls = Some (task, tasks')
          \<and> results task = concat rss
          \<and> map Inr (results task) = map (syncToPlatform h art) (concat (take k batches))
          \<and> concat batches = pfs \<and> platforms task = pfs \<and> status task = Failed))
   \<and> ((run_batch h art cb b = None)
        = (\<exists>p \<in> set b. isl (syncToPlatform h art p)
              \<or> (\<exists>f r. cb = Some f \<and> syncToPlatform h art p = Inr r \<and> isl (f p r))))
   \<and> (run_batch h art cb b = Some rs \<longrightarrow> map (syncToPlatform h art) b = map Inr rs)
   \<and> ((sync h tasks art pfs options calls = None)
        = ((case concurrency options of None \<Rightarrow> 3 | Some c \<Rightarrow> c) \<le> 0 \<and> pfs \<noteq> []))"
proof (intro conjI impI)
  assume "chunk pfs (case concurrency options of None \<Rightarrow> 3 | Some c \<Rightarrow> c) = Some batches
    \<and> continueOnError options = Some False
    \<and> k < length batches
    \<and> map (run_batch h art (onProgress options)) (take (Suc k) batches) = map Some rss
    \<and> list_all (list_all succeeded) (take k rss)
    \<and> \<not> list_all succeeded (rss ! k)"
  then show "\<exists>task tasks'. sync h tasks art pfs options calls = Some (task, tasks')
          \<and> results task = concat rss
          \<and> map Inr (results task) = map (syncToPlatform h art) (concat (take (Suc k) batches))
          \<and> concat batches = pfs \<and> platforms task = pfs \<and> status task = Failed"
    using sync_halted[of pfs options batches k h art rss tasks calls] by blast
next
  assume "chunk pfs (case concurrency options of None \<Rightarrow> 3 | Some c \<Rightarrow> c) = Some batches
    \<and> continueOnError options = Some False
    \<and> k < length batches
    \<and> map (run_batch h art (onProgress options)) (take k batches) = map Some rss
    \<and> list_all (list_all succeeded) rss
    \<and> run_batch h art (onProgress options) (batches ! k) = None"
  then show "\<exists>task tasks'. sync h tasks art pfs options calls = Some (task, tasks')
          \<and> results task = concat rss
          \<and> map Inr (results task) = map (syncToPlatform h art) (concat (take k batches))
          \<and> concat batches = pfs \<and> platforms task = pfs \<and> status task = Failed"
    using sync_rejected[of pfs options batches k h art rss tasks calls] by blast
next
  show "(run_batch h art cb b = None)
        = (\<exists>p \<in> set b. isl (syncToPlatform h art p)
              \<or> (\<exists>f r. cb = Some f \<and> syncToPlatform h art p = Inr r \<and> isl (f p r)))"
    by (rule run_batch_None)
next
  assume "run_batch h art cb b = Some rs"
  then show "map (syncToPlatform h art) b = map Inr rs" by (rule run_batch_Some)
next
  show "(sync h tasks art pfs options calls = None)
        = ((case concurrency options of None \<Rightarrow> 3 | Some c \<Rightarrow> c) \<le> 0 \<and> pfs \<noteq> [])"
    by (rule sync_None)
qed

theorem sync_stops_after_failed_batch_witness:
  "(\<exists>task tasks'.
     sync example_host [] example_article [''up'', ''down'', ''up'', ''up'']
       \<lparr>concurrency = Some 2, continueOnError = Some False, onProgress = None\<rparr> []
       = Some (task, tasks')
     \<and> map (\<lambda>r. obj_get r ''platform'') (results task) = [JStr ''up'', JStr ''down'']
     \<and> map succeeded (results task) = [True, False]
     \<and> status task = Failed)
   \<and> (\<exists>task tasks'.
     sync example_host [] example_article [''up'', ''up'', ''up'', ''down'', ''up'']
       \<lparr>concurrency = Some 2, continueOnError = Some False, onProgress = Some throwing_callback\<rparr> []
       = Some (task, tasks')
     \<and> map (\<lambda>r. obj_get r ''platform'') (results task) = [JStr ''up'', JStr ''up'']
     \<and> status task = Failed)"
proof -
  let ?pfs = "[''up'', ''down'', ''up'', ''up'']"
  let ?batches = "[[''up'', ''down''], [''up'', ''up'']]"
  let ?options = "\<lparr>concurrency = Some 2, continueOnError = Some False, onProgress = None\<rparr>"
  let ?up = "[(''platform'', JStr ''up''), (''success'', JBool True), (''postId'', JStr ''1'')]"
  let ?down = "failure example_host ''down'' (JStr ''HTTP 500: Internal Server Error'')"
  let ?rss = "[[?up, ?down]]"
  have h1: "chunk ?pfs (case concurrency ?options of None \<Rightarrow> 3 | Some c \<Rightarrow> c) = Some ?batches"
    by (simp add: chunk_example)
  have h2: "continueOnError ?options = Some False" by simp
  have h3: "(0::nat) < length ?batches" by simp
  have h4: "map (run_batch example_host example_article (onProgress ?options)) (take (Suc 0) ?batches)
              = map Some ?rss"
    by code_simp
  have h5: "list_all (list_all succeeded) (take 0 ?rss)" by simp
  have h6: "\<not> list_all succeeded (?rss ! 0)" by code_simp
  from sync_stops_after_failed_batch[where pfs = ?pfs and options = ?options
      and batches = ?batches and k = 0 and h = example_host and art = example_article
      and tasks = "[]" and calls = "[]" and rss = ?rss]
    h1 h2 h3 h4 h5 h6
  obtain task tasks' where
    s: "sync example_host [] example_article ?pfs ?options [] = Some (task, tasks')"
    and r: "results task = concat ?rss"
    and st: "status task = Failed"
    by blast
  have "map (\<lambda>r. obj_get r ''platform'') (concat ?rss) = [JStr ''up'', JStr ''down'']"
    "map succeeded (concat ?rss) = [True, False]"
    by code_simp+
  with s r st have first: "\<exists>task tasks'.
     sync example_host [] example_article ?pfs ?options [] = Some (task, tasks')
     \<and> map (\<lambda>r. obj_get r ''platform'') (results task) = [JStr ''up'', JStr ''down'']
     \<and> map succeeded (results task) = [True, False]
     \<and> status task = Failed"
    by simp
  let ?pfs2 = "[''up'', ''up'', ''up'', ''down'', ''up'']"
  let ?batches2 = "[[''up'', ''up''], [''up'', ''down''], [''up'']]"
  let ?options2 = "\<lparr>concurrency = Some 2, continueOnError = Some False,
                     onProgress = Some throwing_callback\<rparr>"
  let ?rss2 = "[[?up, ?up]]"
  have g1: "chunk ?pfs2 (case concurrency ?options2 of None \<Rightarrow> 3 | Some c \<Rightarrow> c) = Some ?batches2"
    by (simp add: chunk_def chunk_loop.simps js_slice_def)
  have g2: "continueOnError ?options2 = Some False" by simp
  have g3: "(1::nat) < length ?batches2" by simp
  have g4: "map (run_batch example_host example_article (onProgress ?options2)) (take 1 ?batches2)
              = map Some ?rss2"
    by code_simp
  have g5: "list_all (list_all succeeded) ?rss2" by code_simp
  have g6: "run_batch example_host example_article (onProgress ?options2) (?batches2 ! 1) = None"
    by code_simp
  from sync_stops_after_failed_batch[where pfs = ?pfs2 and options = ?options2
      and batches = ?batches2 and k = 1 and h = example_host and art = example_article
      and tasks = "[]" and calls = "[]" and rss = ?rss2]
    g1 g2 g3 g4 g5 g6
  obtain task2 tasks2 where
    s2: "sync example_host [] example_article ?pfs2 ?options2 [] = Some (task2, tasks2)"
    and r2: "results task2 = concat ?rss2"
    and st2: "status task2 = Failed"
    by blast
  have "map (\<lambda>r. obj_get r ''platform'') (concat ?rss2) = [JStr ''up'', JStr ''up'']"
    by code_simp
  with s2 r2 st2 have second: "\<exists>task tasks'.
     sync example_host [] example_article ?pfs2 ?options2 [] = Some (task, tasks')
     \<and> map (\<lambda>r. obj_get r ''platform'') (results task) = [JStr ''up'', JStr ''up'']
     \<and> status task = Failed"
    by simp
  from first second show ?thesis by blast
qed

text \<open>
  Two batches of two, \<open>continueOnError = false\<close>, and a callback that throws for the
  platform that fails. The first batch holds a successful and a failed result, and none
  of them is recorded.
\<close>

theorem sync_stops_after_failed_batch_counterexample:
  "map (\<lambda>p. map_sum id succeeded (syncToPlatform example_host example_article p)) [''up'', ''down'']
     = [Inr True, Inr False]
   \<and> map_option (\<lambda>(task, tasks'). (results task, status task))
       (sync example_host [] example_article [''up'', ''down'', ''up'', ''up'']
          \<lparr>concurrency = Some 2, continueOnError = Some False,
            onProgress = Some throwing_callback\<rparr> [])
     = Some ([], Failed)"
  by code_simp

subsection \<open>Sequential runs\<close>

text \<open>
  C6. With \<open>concurrency = 1\<close>, \<open>sync\<close> returns, and the results are the results of
  the workflows of an initial part of the platform list, one result for each platform, in
  the order of the list; when errors do not stop the run (\<open>continueOnError\<close> is not
  false) and there is no callback, that part is the whole list, unless the workflow of
  the next platform throws.
\<close>

theorem sync_sequential_order:
  "concurrency options = Some 1 \<longrightarrow>
     (\<exists>task tasks' n. sync h tasks art pfs options calls = Some (task, tasks')
        \<and> n \<le> length pfs
        \<and> map Inr (results task) = map (syncToPlatform h art) (take n pfs)
        \<and> platforms task = pfs
        \<and> (continueOnError options \<noteq> Some False \<and> onProgress options = None \<longrightarrow>
             n = length pfs \<or> (n < length pfs \<and> isl (syncToPlatform h art (pfs ! n)))))"
proof
  let ?f = "syncToPlatform h art"
  let ?cb = "onProgress options"
  let ?bs = "map (\<lambda>x. [x]) pfs"
  assume one: "concurrency options = Some 1"
  then have ch: "chunk pfs (case concurrency options of None \<Rightarrow> 3 | Some c \<Rightarrow> c) = Some ?bs"
    by (simp add: chunk_one)
  have cc: "\<And>n. concat (take n ?bs) = take n pfs"
    by (simp add: take_map)
  from sync_outcome[OF ch, where h = h and art = art and tasks = tasks and calls = calls]
  obtain task tasks' n rss where s: "sync h tasks art pfs options calls = Some (task, tasks')"
    and n: "n \<le> length ?bs"
    and m: "map (run_batch h art ?cb) (take n ?bs) = map Some rss"
    and r: "results task = concat rss" and p: "platforms task = pfs"
    and why: "(n = length ?bs
                 \<and> status task = (if list_all succeeded (concat rss) then Completed else Failed))
               \<or> (n < length ?bs \<and> run_batch h art ?cb (?bs ! n) = None \<and> status task = Failed)
               \<or> (continueOnError options = Some False \<and> 0 < n
                   \<and> \<not> list_all succeeded (rss ! (n - 1)) \<and> status task = Failed)"
    by blast
  from run_batches_Some[OF m] r have res: "map Inr (results task) = map ?f (take n pfs)"
    by (simp add: cc)
  have last: "n = length pfs \<or> (n < length pfs \<and> isl (?f (pfs ! n)))"
    if quiet: "continueOnError options \<noteq> Some False \<and> onProgress options = None"
  proof -
    from why quiet consider "n = length pfs"
      | "n < length pfs" "run_batch h art None [pfs ! n] = None"
      by auto
    then show ?thesis
    proof cases
      case 1
      then show ?thesis by simp
    next
      case 2
      from 2(2) have "isl (?f (pfs ! n))" by (simp add: run_batch_None)
      with 2(1) show ?thesis by simp
    qed
  qed
  from s n res p last
  show "\<exists>task tasks' n. sync h tasks art pfs options calls = Some (task, tasks')
        \<and> n \<le> length pfs
        \<and> map Inr (results task) = map ?f (take n pfs)
        \<and> platforms task = pfs
        \<and> (continueOnError options \<noteq> Some False \<and> onProgress options = None \<longrightarrow>
             n = length pfs \<or> (n < length pfs \<and> isl (?f (pfs ! n))))"
    by (intro exI[of _ task] exI[of _ tasks'] exI[of _ n]) simp
qed

theorem sync_sequential_order_witness:
  "\<exists>task tasks'.
     sync example_host [] example_article [''up'', ''nope'', ''down'']
       \<lparr>concurrency = Some 1, continueOnError = None, onProgress = None\<rparr> []
       = Some (task, tasks')
     \<and> map (\<lambda>r. obj_get r ''platform'') (results task) = [JStr ''up'', JStr ''nope'', JStr ''down'']"
proof -
  let ?pfs = "[''up'', ''nope'', ''down'']"
  let ?options = "\<lparr>concurrency = Some 1, continueOnError = None, onProgress = None\<rparr>"
  let ?f = "syncToPlatform example_host example_article"
  have h1: "concurrency ?options = Some 1" by simp
  have h2: "continueOnError ?options \<noteq> Some False \<and> onProgress ?options = None" by simp
  from sync_sequential_order[of ?options example_host "[]" example_article ?pfs "[]"] h1 h2
  obtain task tasks' n where
    s: "sync example_host [] example_article ?pfs ?options [] = Some (task, tasks')"
    and r: "map Inr (results task) = map ?f (take n ?pfs)"
    and n: "n = length ?pfs \<or> (n < length ?pfs \<and> isl (?f (?pfs ! n)))"
    by blast
  have none: "list_all (\<lambda>p. \<not> isl (?f p)) ?pfs" by code_simp
  have "n = length ?pfs"
  proof (rule ccontr)
    assume "n \<noteq> length ?pfs"
    with n have "n < length ?pfs" "isl (?f (?pfs ! n))" by simp_all
    moreover from this(1) have "?pfs ! n \<in> set ?pfs" by (rule nth_mem)
    ultimately show False using none unfolding list_all_iff by blast
  qed
  with r have "map Inr (results task) = map ?f ?pfs" by simp
  also have "map ?f ?pfs
      = map Inr [[(''platform'', JStr ''up''), (''success'', JBool True), (''postId'', JStr ''1'')],
                 failure example_host ''nope'' (JStr (''Platform '' @ [CHR 0x22] @ ''nope'' @ [CHR 0x22] @ '' not found'')),
                 failure example_host ''down'' (JStr ''HTTP 500: Internal Server Error'')]"
    by code_simp
  finally have "map (Inr :: jsobj \<Rightarrow> thrown + jsobj) (results task)
      = map Inr [[(''platform'', JStr ''up''), (''success'', JBool True), (''postId'', JStr ''1'')],
                 failure example_host ''nope'' (JStr (''Platform '' @ [CHR 0x22] @ ''nope'' @ [CHR 0x22] @ '' not found'')),
                 failure example_host ''down'' (JStr ''HTTP 500: Internal Server Error'')]" .
  then have "results task
      = [[(''platform'', JStr ''up''), (''success'', JBool True), (''postId'', JStr ''1'')],
         failure example_host ''nope'' (JStr (''Platform '' @ [CHR 0x22] @ ''nope'' @ [CHR 0x22] @ '' not found'')),
         failure example_host ''down'' (JStr ''HTTP 500: Internal Server Error'')]"
    by (rule map_injective) simp
  then have "map (\<lambda>r. obj_get r ''platform'') (results task) = [JStr ''up'', JStr ''nope'', JStr ''down'']"
    by (simp add: failure_def obj_get_def)
  with s show ?thesis by simp
qed

subsection \<open>No cancellation\<close>

lemma sync_results_are_workflow_results:
  assumes "sync h tasks art pfs options calls = Some (task, tasks')"
    and "r \<in> set (results task)"
  shows "\<exists>p \<in> set pfs. syncToPlatform h art p = Inr r"
proof -
  from assms(1) obtain bs where ch: "chunk pfs (case concurrency options of None \<Rightarrow> 3 | Some c \<Rightarrow> c) = Some bs"
    by (cases "chunk pfs (case concurrency options of None \<Rightarrow> 3 | Some c \<Rightarrow> c)")
       (simp_all add: sync_def Let_def)
  from sync_outcome[OF ch, where h = h and art = art and tasks = tasks and calls = calls] assms(1)
  obtain n rss where m: "map (run_batch h art (onProgress options)) (take n bs) = map Some rss"
    and r: "results task = concat rss" and cat: "concat bs = pfs"
    by auto
  from run_batches_Some[OF m]
  have "map (syncToPlatform h art) (concat (take n bs)) = map Inr (concat rss)" .
  moreover from assms(2) r have "Inr r \<in> set (map Inr (concat rss))" by simp
  ultimately have "Inr r \<in> set (map (syncToPlatform h art) (concat (take n bs)))" by simp
  then have "Inr r \<in> syncToPlatform h art ` set (concat (take n bs))" by (simp only: set_map)
  then obtain p where p: "p \<in> set (concat (take n bs))" "Inr r = syncToPlatform h art p"
    by (rule imageE)
  from p(1) have "p \<in> set (concat bs)"
    using set_take_subset[of n bs] by auto
  with cat p(2)[symmetric] show ?thesis by auto
qed

text \<open>
  C4, as the code has it. The engine keeps no cancellation flag and \<open>sync\<close> reads
  none. The task that \<open>sync\<close> returns is the same whatever else the options object
  carries besides the three options, whatever engine operations are invoked while the
  batches are awaited, and whatever the callback returns. The batches are run in order
  until the list is exhausted, or a batch rejects (a workflow or the callback throws), or
  a batch holds a failed result while \<open>continueOnError\<close> is false: when neither of the
  last two happens every platform is run, and when batch \<open>k\<close> is the first to reject
  the results are those of the batches before it. Every recorded result is the result
  that the workflow of one of the platforms returned.
\<close>

theorem sync_has_no_cancellation:
  "map_option fst (sync h tasks art pfs options calls)
     = map_option fst (sync h tasks art pfs (SyncOptions.truncate options) [])
   \<and> ((\<forall>p r. isl (f p r) = isl (g p r)) \<longrightarrow>
        map_option fst (sync h tasks art pfs (options\<lparr>onProgress := Some f\<rparr>) calls)
          = map_option fst (sync h tasks art pfs (options\<lparr>onProgress := Some g\<rparr>) calls))
   \<and> (chunk pfs (case concurrency options of None \<Rightarrow> 3 | Some c \<Rightarrow> c) = Some batches \<longrightarrow>
        (\<exists>task tasks' n rss. sync h tasks art pfs options calls = Some (task, tasks')
           \<and> n \<le> length batches
           \<and> map (run_batch h art (onProgress options)) (take n batches) = map Some rss
           \<and> results task = concat rss \<and> platforms task = pfs \<and> concat batches = pfs
           \<and> ((n = length batches
                 \<and> status task = (if list_all succeeded (concat rss) then Completed else Failed))
               \<or> (n < length batches
                   \<and> run_batch h art (onProgress options) (batches ! n) = None
                   \<and> status task = Failed)
               \<or> (continueOnError options = Some False \<and> 0 < n
                   \<and> \<not> list_all succeeded (rss ! (n - 1)) \<and> status task = Failed))))
   \<and> (chunk pfs (case concurrency options of None \<Rightarrow> 3 | Some c \<Rightarrow> c) = Some batches
        \<and> map (run_batch h art (onProgress options)) batches = map Some rss
        \<and> (continueOnError options \<noteq> Some False \<or> list_all (list_all succeeded) rss)
        \<longrightarrow> (\<exists>task tasks'. sync h tasks art pfs options calls = Some (task, tasks')
              \<and> results task = concat rss
              \<and> map Inr (results task) = map (syncToPlatform h art) pfs
              \<and> platforms task = pfs
              \<and> status task = (if list_all succeeded (concat rss) then Completed else Failed)))
   \<and> (chunk pfs (case concurrency options of None \<Rightarrow> 3 | Some c \<Rightarrow> c) = Some batches
        \<and> k < length batches
        \<and> map (run_batch h art (onProgress options)) (take k batches) = map Some rss
        \<and> (continueOnError options \<noteq> Some False \<or> list_all (list_all succeeded) rss)
        \<and> run_batch h art (onProgress options) (batches ! k) = None
        \<longrightarrow> (\<exists>task tasks'. sync h tasks art pfs options calls = Some (task, tasks')
              \<and> results task = concat rss
              \<and> map Inr (results task) = map (syncToPlatform h art) (concat (take k batches))
              \<and> concat batches = pfs \<and> platforms task = pfs
              \<and> status task = Failed))
   \<and> (\<forall>task tasks' r. sync h tasks art pfs options calls = Some (task, tasks')
          \<and> r \<in> set (results task) \<longrightarrow> (\<exists>p \<in> set pfs. syncToPlatform h art p = Inr r))"
proof (intro conjI impI allI)
  show "map_option fst (sync h tasks art pfs options calls)
     = map_option fst (sync h tasks art pfs (SyncOptions.truncate options) [])"
    by (rule sync_independent) (simp_all add: SyncOptions.truncate_def)
next
  assume "\<forall>p r. isl (f p r) = isl (g p r)"
  then have "\<And>b. run_batch h art (Some f) b = run_batch h art (Some g) b"
    by (rule run_batch_callback)
  then show "map_option fst (sync h tasks art pfs (options\<lparr>onProgress := Some f\<rparr>) calls)
          = map_option fst (sync h tasks art pfs (options\<lparr>onProgress := Some g\<rparr>) calls)"
    by (intro sync_independent) simp_all
next
  assume "chunk pfs (case concurrency options of None \<Rightarrow> 3 | Some c \<Rightarrow> c) = Some batches"
  then show "\<exists>task tasks' n rss. sync h tasks art pfs options calls = Some (task, tasks')
           \<and> n \<le> length batches
           \<and> map (run_batch h art (onProgress options)) (take n batches) = map Some rss
           \<and> results task = concat rss \<and> platforms task = pfs \<and> concat batches = pfs
           \<and> ((n = length batches
                 \<and> status task = (if list_all succeeded (concat rss) then Completed else Failed))
               \<or> (n < length batches
                   \<and> run_batch h art (onProgress options) (batches ! n) = None
                   \<and> status task = Failed)
               \<or> (continueOnError options = Some False \<and> 0 < n
                   \<and> \<not> list_all succeeded (rss ! (n - 1)) \<and> status task = Failed))"
    by (rule sync_outcome)
next
  assume "chunk pfs (case concurrency options of None \<Rightarrow> 3 | Some c \<Rightarrow> c) = Some batches
        \<and> map (run_batch h art (onProgress options)) batches = map Some rss
        \<and> (continueOnError options \<noteq> Some False \<or> list_all (list_all succeeded) rss)"
  then show "\<exists>task tasks'. sync h tasks art pfs options calls = Some (task, tasks')
              \<and> results task = concat rss
              \<and> map Inr (results task) = map (syncToPlatform h art) pfs
              \<and> platforms task = pfs
              \<and> status task = (if list_all succeeded (concat rss) then Completed else Failed)"
    using sync_complete[of pfs options batches h art rss tasks calls] by blast
next
  assume "chunk pfs (case concurrency options of None \<Rightarrow> 3 | Some c \<Rightarrow> c) = Some batches
        \<and> k < length batches
        \<and> map (run_batch h art (onProgress options)) (take k batches) = map Some rss
        \<and> (continueOnError options \<noteq> Some False \<or> list_all (list_all succeeded) rss)
        \<and> run_batch h art (onProgress options) (batches ! k) = None"
  then show "\<exists>task tasks'. sync h tasks art pfs options calls = Some (task, tasks')
              \<and> results task = concat rss
              \<and> map Inr (results task) = map (syncToPlatform h art) (concat (take k batches))
              \<and> concat batches = pfs \<and> platforms task = pfs
              \<and> status task = Failed"
    using sync_rejected[of pfs options batches k h art rss tasks calls] by blast
next
  fix task tasks' r
  assume "sync h tasks art pfs options calls = Some (task, tasks') \<and> r \<in> set (results task)"
  then show "\<exists>p \<in> set pfs. syncToPlatform h art p = Inr r"
    using sync_results_are_workflow_results[of h tasks art pfs options calls task tasks' r] by blast
qed

theorem sync_has_no_cancellation_witness:
  "(\<exists>task tasks'.
      sync example_host [] example_article [''up'', ''down'']
        \<lparr>concurrency = Some 1, continueOnError = Some True, onProgress = Some stop_callback,
          signal_aborted = True\<rparr>
        [[ClearCompleted], [GetAllTasks, ClearCompleted]] = Some (task, tasks')
      \<and> map (\<lambda>r. obj_get r ''platform'') (results task) = [JStr ''up'', JStr ''down'']
      \<and> status task = Failed)
   \<and> map_option fst
       (sync example_host [] example_article [''up'', ''down'']
          \<lparr>concurrency = Some 1, continueOnError = Some True, onProgress = Some stop_callback,
            signal_aborted = True\<rparr>
          [[ClearCompleted], [GetAllTasks, ClearCompleted]])
     = map_option fst
       (sync example_host [] example_article [''up'', ''down'']
          \<lparr>concurrency = Some 1, continueOnError = Some True, onProgress = Some (\<lambda>p r. Inr JUndefined)\<rparr>
          [])
   \<and> (\<exists>task tasks'.
      sync example_host [] example_article [''up'', ''down'', ''up'']
        \<lparr>concurrency = Some 1, continueOnError = Some True, onProgress = Some throwing_callback\<rparr> []
        = Some (task, tasks')
      \<and> map (\<lambda>r. obj_get r ''platform'') (results task) = [JStr ''up'']
      \<and> status task = Failed)"
proof -
  let ?pfs = "[''up'', ''down'']"
  let ?batches = "[[''up''], [''down'']]"
  let ?options = "\<lparr>concurrency = Some 1, continueOnError = Some True,
                    onProgress = Some stop_callback, signal_aborted = True\<rparr>"
  let ?calls = "[[ClearCompleted], [GetAllTasks, ClearCompleted]]"
  let ?up = "[(''platform'', JStr ''up''), (''success'', JBool True), (''postId'', JStr ''1'')]"
  let ?down = "failure example_host ''down'' (JStr ''HTTP 500: Internal Server Error'')"
  let ?rss = "[[?up], [?down]]"
  have h1: "chunk ?pfs (case concurrency ?options of None \<Rightarrow> 3 | Some c \<Rightarrow> c) = Some ?batches"
    by (simp add: chunk_one)
  have h2: "map (run_batch example_host example_article (onProgress ?options)) ?batches = map Some ?rss"
    by code_simp
  have h3: "continueOnError ?options \<noteq> Some False \<or> list_all (list_all succeeded) ?rss" by simp
  have h4: "\<forall>p r. isl (stop_callback p r) = isl ((\<lambda>p r. Inr JUndefined :: jsval result) p r)"
    by (simp add: stop_callback_def)
  note th = sync_has_no_cancellation[where h = example_host and tasks = "[]"
      and art = example_article and pfs = ?pfs and options = ?options and calls = ?calls
      and batches = ?batches and rss = ?rss and f = stop_callback and g = "\<lambda>p r. Inr JUndefined"]
  from th h1 h2 h3
  obtain task tasks' where
    s: "sync example_host [] example_article ?pfs ?options ?calls = Some (task, tasks')"
    and r: "results task = concat ?rss"
    and st: "status task = (if list_all succeeded (concat ?rss) then Completed else Failed)"
    by blast
  have "map (\<lambda>r. obj_get r ''platform'') (concat ?rss) = [JStr ''up'', JStr ''down'']"
    "\<not> list_all succeeded (concat ?rss)"
    by code_simp+
  with s r st have first: "\<exists>task tasks'.
      sync example_host [] example_article ?pfs ?options ?calls = Some (task, tasks')
      \<and> map (\<lambda>r. obj_get r ''platform'') (results task) = [JStr ''up'', JStr ''down'']
      \<and> status task = Failed"
    by simp
  from th have "map_option fst (sync example_host [] example_article ?pfs ?options ?calls)
     = map_option fst (sync example_host [] example_article ?pfs (SyncOptions.truncate ?options) [])"
    by blast
  also have "SyncOptions.truncate ?options
     = \<lparr>concurrency = Some 1, continueOnError = Some True, onProgress = Some stop_callback\<rparr>"
    by (simp add: SyncOptions.truncate_def)
  also from sync_has_no_cancellation[where h = example_host and tasks = "[]"
      and art = example_article and pfs = ?pfs
      and options = "\<lparr>concurrency = Some 1, continueOnError = Some True, onProgress = Some stop_callback\<rparr>"
      and calls = "[]" and f = stop_callback and g = "\<lambda>p r. Inr JUndefined",
      THEN conjunct2, THEN conjunct1] h4
  have "map_option fst (sync example_host [] example_article ?pfs
           \<lparr>concurrency = Some 1, continueOnError = Some True, onProgress = Some stop_callback\<rparr> [])
      = map_option fst (sync example_host [] example_article ?pfs
           \<lparr>concurrency = Some 1, continueOnError = Some True, onProgress = Some (\<lambda>p r. Inr JUndefined)\<rparr> [])"
    by simp
  finally have second: "map_option fst (sync example_host [] example_article ?pfs ?options ?calls)
     = map_option fst (sync example_host [] example_article ?pfs
           \<lparr>concurrency = Some 1, continueOnError = Some True, onProgress = Some (\<lambda>p r. Inr JUndefined)\<rparr> [])" .
  let ?pfs3 = "[''up'', ''down'', ''up'']"
  let ?batches3 = "[[''up''], [''down''], [''up'']]"
  let ?options3 = "\<lparr>concurrency = Some 1, continueOnError = Some True,
                     onProgress = Some throwing_callback\<rparr>"
  have g1: "chunk ?pfs3 (case concurrency ?options3 of None \<Rightarrow> 3 | Some c \<Rightarrow> c) = Some ?batches3"
    by (simp add: chunk_one)
  have g2: "(1::nat) < length ?batches3" by simp
  have g3: "map (run_batch example_host example_article (onProgress ?options3)) (take 1 ?batches3)
              = map Some [[?up]]"
    by code_simp
  have g4: "continueOnError ?options3 \<noteq> Some False \<or> list_all (list_all succeeded) [[?up]]" by simp
  have g5: "run_batch example_host example_article (onProgress ?options3) (?batches3 ! 1) = None"
    by code_simp
  from sync_has_no_cancellation[where h = example_host and tasks = "[]"
      and art = example_article and pfs = ?pfs3 and options = ?options3 and calls = "[]"
      and batches = ?batches3 and rss = "[[?up]]" and k = 1] g1 g2 g3 g4 g5
  obtain task3 tasks3 where
    s3: "sync example_host [] example_article ?pfs3 ?options3 [] = Some (task3, tasks3)"
    and r3: "results task3 = concat [[?up]]"
    and st3: "status task3 = Failed"
    by blast
  then have third: "\<exists>task tasks'.
      sync example_host [] example_article ?pfs3 ?options3 [] = Some (task, tasks')
      \<and> map (\<lambda>r. obj_get r ''platform'') (results task) = [JStr ''up'']
      \<and> status task = Failed"
    by (simp add: obj_get_def)
  from first second third show ?thesis by blast
qed

text \<open>
  Two platforms, one at a time. The caller passes an abort signal that is already
  aborted, answers every progress report with \<open>false\<close>, and invokes the engine's other
  operations while each platform is awaited. Both batches are started, both results are
  the workflows' own, and the task is completed.
\<close>

theorem sync_runs_every_batch_counterexample:
  "map_option (\<lambda>(task, tasks'). (results task, status task))
     (sync example_host [] example_article [''up'', ''up'']
        \<lparr>concurrency = Some 1, continueOnError = Some True, onProgress = Some stop_callback,
          signal_aborted = True\<rparr>
        [[ClearCompleted, GetTask ''task_5_abc''], [ClearCompleted, GetAllTasks]])
   = Some ([[(''platform'', JStr ''up''), (''success'', JBool True), (''postId'', JStr ''1'')],
            [(''platform'', JStr ''up''), (''success'', JBool True), (''postId'', JStr ''1'')]],
           Completed)
   \<and> map (syncToPlatform example_host example_article) [''up'', ''up'']
     = [Inr [(''platform'', JStr ''up''), (''success'', JBool True), (''postId'', JStr ''1'')],
        Inr [(''platform'', JStr ''up''), (''success'', JBool True), (''postId'', JStr ''1'')]]"
  by code_simp

section \<open>Properties of the adapter runtime\<close>

subsection \<open>Objects and results\<close>

lemma map_of_obj_set: "map_of (obj_set k v kvs) = (map_of kvs)(k \<mapsto> v)"
  by (induction kvs) (auto simp: fun_eq_iff)

lemma map_of_obj_spread: "map_of (obj_spread a b) = map_of a ++ map_of (rev b)"
proof -
  have "map_of (foldl (\<lambda>acc (k, v). obj_set k v acc) a b) = map_of a ++ map_of (rev b)"
  proof (induction b arbitrary: a)
    case Nil
    show ?case by simp
  next
    case (Cons kv b)
    obtain k v where kv: "kv = (k, v)" by (cases kv)
    show ?case
      by (simp add: kv Cons map_of_obj_set map_add_upd_left fun_eq_iff map_add_def split: option.splits)
  qed
  then show ?thesis by (simp add: obj_spread_def)
qed

lemma obj_get_spread:
  "obj_get (obj_spread a b) k = (case map_of (rev b) k of Some v \<Rightarrow> v | None \<Rightarrow> obj_get a k)"
  by (simp add: obj_get_def map_of_obj_spread map_add_def split: option.splits)

lemma createResult_get:
  "obj_get (createResult rt dsl s data) k
     = (case map_of (rev data) k of
          Some v \<Rightarrow> v
        | None \<Rightarrow> obj_get [(''platform'', JStr (name dsl)), (''success'', JBool s),
                            (''timestamp'', JNum (int (Date_now rt)))] k)"
  by (simp add: createResult_def obj_get_spread)

lemma createResult_error:
  "createResult rt dsl False [(''error'', m)]
     = [(''platform'', JStr (name dsl)), (''success'', JBool False),
        (''timestamp'', JNum (int (Date_now rt))), (''error'', m)]"
  by (simp add: createResult_def obj_spread_def)

subsection \<open>What a catch block makes of a thrown value\<close>

lemma error_message_Inl:
  "(error_message e = Inl te)
     = ((e = Thrown JUndefined \<and> te = cannot_read ''undefined'' ''message'')
        \<or> (e = Thrown JNull \<and> te = cannot_read ''null'' ''message''))"
  by (cases e rule: error_message.cases) auto

lemma error_message_Inr:
  "e \<noteq> Thrown JUndefined \<Longrightarrow> e \<noteq> Thrown JNull \<Longrightarrow> \<exists>m. error_message e = Inr m"
  by (cases e rule: error_message.cases) auto

lemma publish_returns:
  "fst (publish_try rt dsl cl n art opts) = Inr r \<Longrightarrow> publish rt dsl cl n art opts = Inr r"
  by (simp add: publish_def)

lemma publish_converts:
  "fst (publish_try rt dsl cl n art opts) = Inl e \<Longrightarrow> error_message e = Inr m \<Longrightarrow>
   publish rt dsl cl n art opts
     = Inr [(''platform'', JStr (name dsl)), (''success'', JBool False),
            (''timestamp'', JNum (int (Date_now rt))), (''error'', m)]"
  by (simp add: publish_def bind_result_def createResult_error)

lemma publish_raises:
  "fst (publish_try rt dsl cl n art opts) = Inl e \<Longrightarrow> error_message e = Inl te \<Longrightarrow>
   publish rt dsl cl n art opts = Inl te"
  by (simp add: publish_def bind_result_def)

lemma syncToPlatform_converts:
  "syncToPlatform_try h art p = Inl e \<Longrightarrow> error_message e = Inr m \<Longrightarrow>
   syncToPlatform h art p = Inr (failure h p m)"
  by (simp add: syncToPlatform_def bind_result_def)

lemma syncToPlatform_raises:
  "syncToPlatform_try h art p = Inl e \<Longrightarrow> error_message e = Inl te \<Longrightarrow>
   syncToPlatform h art p = Inl te"
  by (simp add: syncToPlatform_def bind_result_def)

text \<open>
  What holds of the two workflows: they return what their body returns, turn a thrown
  value that has members into a failed result with its message, and throw a
  \<open>TypeError\<close> exactly when the body throws \<open>undefined\<close> or \<open>null\<close>.
\<close>

lemma publish_outcomes:
  "(case fst (publish_try rt dsl cl n art opts) of
      Inr r \<Rightarrow> publish rt dsl cl n art opts = Inr r
    | Inl e \<Rightarrow>
        (case error_message e of
           Inr m \<Rightarrow> publish rt dsl cl n art opts = Inr (createResult rt dsl False [(''error'', m)])
         | Inl te \<Rightarrow> publish rt dsl cl n art opts = Inl te))"
  by (simp add: publish_def bind_result_def split: sum.splits)

lemma syncToPlatform_outcomes:
  "(case syncToPlatform_try h art p of
      Inr r \<Rightarrow> syncToPlatform h art p = Inr r
    | Inl e \<Rightarrow>
        (case error_message e of
           Inr m \<Rightarrow> syncToPlatform h art p = Inr (failure h p m)
         | Inl te \<Rightarrow> syncToPlatform h art p = Inl te))"
  by (simp add: syncToPlatform_def bind_result_def split: sum.splits)

subsection \<open>A thrown undefined escapes\<close>

text \<open>
  C1, where the code departs from it. A \<open>before_request\<close> hook that throws
  \<open>undefined\<close> makes the body of \<open>publish\<close> throw \<open>undefined\<close>; the \<open>catch\<close>
  block reads the message of \<open>undefined\<close>, which throws, and \<open>publish\<close> throws that
  \<open>TypeError\<close> instead of returning a failed result. In the same way
  \<open>syncToPlatform\<close> throws when its adapter's \<open>publish\<close> throws \<open>undefined\<close>, and
  the orchestrator receives it: the batch rejects, the run ends before the third
  platform although errors were to be continued over, and the task has failed with the
  result of the first platform alone.
\<close>

theorem workflow_throws_on_thrown_undefined:
  "fst (publish_try (example_env True) (example_dsl draft_endpoints) rejecting_hooks 0
          example_article None) = Inl (Thrown JUndefined)
   \<and> publish (example_env True) (example_dsl draft_endpoints) rejecting_hooks 0 example_article None
       = Inl (Error (''Cannot read properties of undefined (reading '' @ [CHR 0x27] @ ''message''
                     @ [CHR 0x27] @ '')''))
   \<and> syncToPlatform_try example_host example_article ''void'' = Inl (Thrown JUndefined)
   \<and> syncToPlatform example_host example_article ''void''
       = Inl (Error (''Cannot read properties of undefined (reading '' @ [CHR 0x27] @ ''message''
                     @ [CHR 0x27] @ '')''))
   \<and> map_option (\<lambda>(task, tasks'). (results task, status task))
       (sync example_host [] example_article [''up'', ''void'', ''up'']
          \<lparr>concurrency = Some 1, continueOnError = Some True, onProgress = None\<rparr> [])
     = Some ([[(''platform'', JStr ''up''), (''success'', JBool True), (''postId'', JStr ''1'')]],
             Failed)"
  by code_simp

subsection \<open>checkAuth\<close>

lemma executeEndpoint_plain:
  "interpolate (url (request ep)) ctx = Inr u \<Longrightarrow> body (request ep) = None \<Longrightarrow>
   before_request cl = None \<Longrightarrow>
   executeEndpoint rt cl n ep ctx
     = bind_result
         (request_json rt n u
            \<lparr>req_method = http_method (request ep),
             req_headers = (case headers (request ep) of None \<Rightarrow> [] | Some h \<Rightarrow> h),
             req_body = None\<rparr>)
         (\<lambda>resp. bind_result (check_success rt (response ep) resp)
                   (\<lambda>_. Inr (resp, extract_fields rt (response ep) resp)))"
  by (simp add: executeEndpoint_def bind_result_def Let_def)

lemma check_success_throws_Error:
  "check_success rt r resp = Inl e \<Longrightarrow> \<exists>msg. e = Error msg"
  using js_String_throws(1)
  by (auto simp: check_success_def bind_result_def split: option.splits if_splits sum.splits)

text \<open>
  C10, as the code has it. When the execution of the auth-check endpoint returns,
  \<open>checkAuth\<close> returns \<open>isAuthenticated = true\<close> with the extracted fields spread over
  it: every extracted field is in the result, and an extracted field named
  \<open>isAuthenticated\<close> takes the place of the flag, which is true when no such field was
  extracted. When the execution throws an \<open>Error\<close>, or any value other than
  \<open>undefined\<close> and \<open>null\<close>, \<open>checkAuth\<close> returns \<open>isAuthenticated = false\<close> with
  the message of what was thrown. So it is for a plain auth check (no body, no
  \<open>before_request\<close> hook) whose transport throws, whose response is not \<open>ok\<close>, or
  whose success predicate rejects, which throws an \<open>Error\<close>.
\<close>

theorem checkAuth_returns_result:
  "(executeEndpoint rt cl n (auth_check dsl) [] = Inr (data, extracted) \<longrightarrow>
      checkAuth rt dsl cl n = Inr (obj_spread [(''isAuthenticated'', JBool True)] extracted)
      \<and> (\<forall>k v. map_of (rev extracted) k = Some v \<longrightarrow>
             obj_get (obj_spread [(''isAuthenticated'', JBool True)] extracted) k = v)
      \<and> (map_of (rev extracted) ''isAuthenticated'' = None \<longrightarrow>
             obj_get (obj_spread [(''isAuthenticated'', JBool True)] extracted) ''isAuthenticated''
               = JBool True))
   \<and> (executeEndpoint rt cl n (auth_check dsl) [] = Inl e \<and> error_message e = Inr m \<longrightarrow>
        checkAuth rt dsl cl n = Inr [(''isAuthenticated'', JBool False), (''error'', m)])
   \<and> error_message (Error msg) = Inr (JStr msg)
   \<and> (e \<noteq> Thrown JUndefined \<and> e \<noteq> Thrown JNull \<longrightarrow> (\<exists>m. error_message e = Inr m))
   \<and> (interpolate (url (request (auth_check dsl))) [] = Inr u
        \<and> body (request (auth_check dsl)) = None \<and> before_request cl = None
        \<and> (\<forall>ri. runtime_fetch rt n u ri = Inl e) \<and> error_message e = Inr m \<longrightarrow>
        checkAuth rt dsl cl n = Inr [(''isAuthenticated'', JBool False), (''error'', m)])
   \<and> (interpolate (url (request (auth_check dsl))) [] = Inr u
        \<and> body (request (auth_check dsl)) = None \<and> before_request cl = None
        \<and> (\<forall>ri. runtime_fetch rt n u ri = Inr resp) \<and> \<not> ok resp \<longrightarrow>
        checkAuth rt dsl cl n
          = Inr [(''isAuthenticated'', JBool False),
                 (''error'', JStr (''HTTP '' @ nat_to_string (status_code resp) @ '': ''
                                   @ statusText resp))])
   \<and> (interpolate (url (request (auth_check dsl))) [] = Inr u
        \<and> body (request (auth_check dsl)) = None \<and> before_request cl = None
        \<and> (\<forall>ri. request_json rt n u ri = Inr d)
        \<and> check_success rt (response (auth_check dsl)) d = Inl e \<longrightarrow>
        (\<exists>reason. e = Error reason
           \<and> checkAuth rt dsl cl n
               = Inr [(''isAuthenticated'', JBool False), (''error'', JStr reason)]))
   \<and> (interpolate (url (request (auth_check dsl))) [] = Inr u
        \<and> body (request (auth_check dsl)) = None \<and> before_request cl = None
        \<and> (\<forall>ri. request_json rt n u ri = Inr d)
        \<and> check_success rt (response (auth_check dsl)) d = Inr () \<longrightarrow>
        checkAuth rt dsl cl n
          = Inr (obj_spread [(''isAuthenticated'', JBool True)]
                   (extract_fields rt (response (auth_check dsl)) d)))"
proof -
  have c1: "executeEndpoint rt cl n (auth_check dsl) [] = Inr (data, extracted) \<longrightarrow>
      checkAuth rt dsl cl n = Inr (obj_spread [(''isAuthenticated'', JBool True)] extracted)
      \<and> (\<forall>k v. map_of (rev extracted) k = Some v \<longrightarrow>
             obj_get (obj_spread [(''isAuthenticated'', JBool True)] extracted) k = v)
      \<and> (map_of (rev extracted) ''isAuthenticated'' = None \<longrightarrow>
             obj_get (obj_spread [(''isAuthenticated'', JBool True)] extracted) ''isAuthenticated''
               = JBool True)"
  proof
    assume "executeEndpoint rt cl n (auth_check dsl) [] = Inr (data, extracted)"
    then have ca: "checkAuth rt dsl cl n
        = Inr (obj_spread [(''isAuthenticated'', JBool True)] extracted)"
      by (simp add: checkAuth_def)
    have base: "obj_get [(''isAuthenticated'', JBool True)] ''isAuthenticated'' = JBool True"
      by (simp add: obj_get_def)
    show "checkAuth rt dsl cl n = Inr (obj_spread [(''isAuthenticated'', JBool True)] extracted)
      \<and> (\<forall>k v. map_of (rev extracted) k = Some v \<longrightarrow>
             obj_get (obj_spread [(''isAuthenticated'', JBool True)] extracted) k = v)
      \<and> (map_of (rev extracted) ''isAuthenticated'' = None \<longrightarrow>
             obj_get (obj_spread [(''isAuthenticated'', JBool True)] extracted) ''isAuthenticated''
               = JBool True)"
      by (simp add: ca obj_get_spread base)
  qed
  have conv: "checkAuth rt dsl cl n = Inr [(''isAuthenticated'', JBool False), (''error'', m')]"
    if "executeEndpoint rt cl n (auth_check dsl) [] = Inl e'" "error_message e' = Inr m'" for e' m'
    using that by (simp add: checkAuth_def bind_result_def)
  have c2: "executeEndpoint rt cl n (auth_check dsl) [] = Inl e \<and> error_message e = Inr m \<longrightarrow>
        checkAuth rt dsl cl n = Inr [(''isAuthenticated'', JBool False), (''error'', m)]"
    using conv by blast
  have c3: "error_message (Error msg) = Inr (JStr msg)" by simp
  have c4: "e \<noteq> Thrown JUndefined \<and> e \<noteq> Thrown JNull \<longrightarrow> (\<exists>m. error_message e = Inr m)"
    using error_message_Inr by blast
  have plain: "executeEndpoint rt cl n (auth_check dsl) []
     = bind_result
         (request_json rt n u
            \<lparr>req_method = http_method (request (auth_check dsl)),
             req_headers = (case headers (request (auth_check dsl)) of None \<Rightarrow> [] | Some h \<Rightarrow> h),
             req_body = None\<rparr>)
         (\<lambda>resp. bind_result (check_success rt (response (auth_check dsl)) resp)
                   (\<lambda>_. Inr (resp, extract_fields rt (response (auth_check dsl)) resp)))"
    if "interpolate (url (request (auth_check dsl))) [] = Inr u"
       "body (request (auth_check dsl)) = None" "before_request cl = None"
    using that by (rule executeEndpoint_plain)
  have c5: "interpolate (url (request (auth_check dsl))) [] = Inr u
        \<and> body (request (auth_check dsl)) = None \<and> before_request cl = None
        \<and> (\<forall>ri. runtime_fetch rt n u ri = Inl e) \<and> error_message e = Inr m \<longrightarrow>
        checkAuth rt dsl cl n = Inr [(''isAuthenticated'', JBool False), (''error'', m)]"
  proof
    assume a: "interpolate (url (request (auth_check dsl))) [] = Inr u
        \<and> body (request (auth_check dsl)) = None \<and> before_request cl = None
        \<and> (\<forall>ri. runtime_fetch rt n u ri = Inl e) \<and> error_message e = Inr m"
    then have "executeEndpoint rt cl n (auth_check dsl) [] = Inl e"
      by (simp add: plain request_json_def bind_result_def)
    with a conv show "checkAuth rt dsl cl n = Inr [(''isAuthenticated'', JBool False), (''error'', m)]"
      by blast
  qed
  have c6: "interpolate (url (request (auth_check dsl))) [] = Inr u
        \<and> body (request (auth_check dsl)) = None \<and> before_request cl = None
        \<and> (\<forall>ri. runtime_fetch rt n u ri = Inr resp) \<and> \<not> ok resp \<longrightarrow>
        checkAuth rt dsl cl n
          = Inr [(''isAuthenticated'', JBool False),
                 (''error'', JStr (''HTTP '' @ nat_to_string (status_code resp) @ '': ''
                                   @ statusText resp))]"
  proof
    assume a: "interpolate (url (request (auth_check dsl))) [] = Inr u
        \<and> body (request (auth_check dsl)) = None \<and> before_request cl = None
        \<and> (\<forall>ri. runtime_fetch rt n u ri = Inr resp) \<and> \<not> ok resp"
    then have "executeEndpoint rt cl n (auth_check dsl) []
        = Inl (Error (''HTTP '' @ nat_to_string (status_code resp) @ '': '' @ statusText resp))"
      by (simp add: plain request_json_def bind_result_def)
    from conv[OF this] show "checkAuth rt dsl cl n
          = Inr [(''isAuthenticated'', JBool False),
                 (''error'', JStr (''HTTP '' @ nat_to_string (status_code resp) @ '': ''
                                   @ statusText resp))]"
      by simp
  qed
  have c7: "interpolate (url (request (auth_check dsl))) [] = Inr u
        \<and> body (request (auth_check dsl)) = None \<and> before_request cl = None
        \<and> (\<forall>ri. request_json rt n u ri = Inr d)
        \<and> check_success rt (response (auth_check dsl)) d = Inl e \<longrightarrow>
        (\<exists>reason. e = Error reason
           \<and> checkAuth rt dsl cl n
               = Inr [(''isAuthenticated'', JBool False), (''error'', JStr reason)])"
  proof
    assume a: "interpolate (url (request (auth_check dsl))) [] = Inr u
        \<and> body (request (auth_check dsl)) = None \<and> before_request cl = None
        \<and> (\<forall>ri. request_json rt n u ri = Inr d)
        \<and> check_success rt (response (auth_check dsl)) d = Inl e"
    then have x: "executeEndpoint rt cl n (auth_check dsl) [] = Inl e"
      by (simp add: plain bind_result_def)
    from a check_success_throws_Error obtain reason where r: "e = Error reason" by blast
    with conv[OF x, of "JStr reason"]
    show "\<exists>reason. e = Error reason
           \<and> checkAuth rt dsl cl n
               = Inr [(''isAuthenticated'', JBool False), (''error'', JStr reason)]"
      by simp
  qed
  have c8: "interpolate (url (request (auth_check dsl))) [] = Inr u
        \<and> body (request (auth_check dsl)) = None \<and> before_request cl = None
        \<and> (\<forall>ri. request_json rt n u ri = Inr d)
        \<and> check_success rt (response (auth_check dsl)) d = Inr () \<longrightarrow>
        checkAuth rt dsl cl n
          = Inr (obj_spread [(''isAuthenticated'', JBool True)]
                   (extract_fields rt (response (auth_check dsl)) d))"
    by (simp add: plain bind_result_def checkAuth_def)
  from c1 c2 c3 c4 c5 c6 c7 c8 show ?thesis by blast
qed

theorem checkAuth_returns_result_witness:
  "checkAuth (example_env False) (auth_dsl [(''userId'', ''$.data.id'')]) no_hooks 0
     = Inr [(''isAuthenticated'', JBool False), (''error'', JStr ''HTTP 500: Internal Server Error'')]
   \<and> checkAuth (example_env True) (auth_dsl [(''userId'', ''$.data.id'')]) no_hooks 0
     = Inr [(''isAuthenticated'', JBool True), (''userId'', JStr ''42'')]
   \<and> checkAuth (example_env True) (auth_dsl [(''userId'', ''$.data.id'')])
        (no_hooks\<lparr>before_request := Some (\<lambda>u c. Inl (Thrown (JStr ''offline'')))\<rparr>) 0
     = Inr [(''isAuthenticated'', JBool False), (''error'', JUndefined)]"
proof -
  let ?dsl = "auth_dsl [(''userId'', ''$.data.id'')]"
  let ?d = "JObj [(''code'', JNum 0), (''data'', JObj [(''id'', JStr ''42'')])]"
  let ?bad = "example_response False ?d"
  let ?u = "''https://example.com/api/me''"
  let ?hooks = "no_hooks\<lparr>before_request := Some (\<lambda>u c. Inl (Thrown (JStr ''offline'')))\<rparr>"
  have u: "interpolate (url (request (auth_check ?dsl))) [] = Inr ?u" by code_simp
  have b: "body (request (auth_check ?dsl)) = None" by code_simp
  have hk: "before_request no_hooks = None" by (simp add: no_hooks_def)
  have f1: "\<forall>ri. runtime_fetch (example_env False) 0 ?u ri = Inr ?bad"
    by (simp add: example_env_def)
  have nok: "\<not> ok ?bad" by (simp add: example_response_def)
  have msg: "''HTTP '' @ nat_to_string (status_code ?bad) @ '': '' @ statusText ?bad
               = ''HTTP 500: Internal Server Error''"
    by code_simp
  have f2: "\<forall>ri. request_json (example_env True) 0 ?u ri = Inr ?d"
    by (simp add: request_json_def example_env_def example_response_def includes_str_def)
  have cs: "check_success (example_env True) (response (auth_check ?dsl)) ?d = Inr ()" by code_simp
  have ex: "obj_spread [(''isAuthenticated'', JBool True)]
              (extract_fields (example_env True) (response (auth_check ?dsl)) ?d)
            = [(''isAuthenticated'', JBool True), (''userId'', JStr ''42'')]"
    by code_simp
  have x: "executeEndpoint (example_env True) ?hooks 0 (auth_check ?dsl) []
             = Inl (Thrown (JStr ''offline''))"
    by code_simp
  have em: "error_message (Thrown (JStr ''offline'')) = Inr JUndefined" by simp
  from checkAuth_returns_result[where rt = "example_env False" and cl = no_hooks and n = 0
      and dsl = ?dsl and resp = ?bad and u = ?u] u b hk f1 nok msg
  have "checkAuth (example_env False) ?dsl no_hooks 0
     = Inr [(''isAuthenticated'', JBool False), (''error'', JStr ''HTTP 500: Internal Server Error'')]"
    by metis
  moreover
  from checkAuth_returns_result[where rt = "example_env True" and cl = no_hooks and n = 0
      and dsl = ?dsl and d = ?d and u = ?u] u b hk f2 cs ex
  have "checkAuth (example_env True) ?dsl no_hooks 0
     = Inr [(''isAuthenticated'', JBool True), (''userId'', JStr ''42'')]"
    by metis
  moreover
  from checkAuth_returns_result[where rt = "example_env True" and cl = ?hooks and n = 0
      and dsl = ?dsl and e = "Thrown (JStr ''offline'')" and m = JUndefined] x em
  have "checkAuth (example_env True) ?dsl ?hooks 0
     = Inr [(''isAuthenticated'', JBool False), (''error'', JUndefined)]"
    by blast
  ultimately show ?thesis by simp
qed

text \<open>
  An auth check that extracts a field named \<open>isAuthenticated\<close> from a place the
  response does not have: the execution returns, and the flag of the result is
  \<open>undefined\<close>, not true.
\<close>

theorem checkAuth_returns_result_counterexample:
  "executeEndpoint (example_env True) no_hooks 0 (auth_check flag_dsl) []
     = Inr (JObj [(''code'', JNum 0), (''data'', JObj [(''id'', JStr ''42'')])],
            [(''isAuthenticated'', JUndefined), (''userId'', JStr ''42'')])
   \<and> checkAuth (example_env True) flag_dsl no_hooks 0
       = Inr [(''isAuthenticated'', JUndefined), (''userId'', JStr ''42'')]"
  by code_simp

subsection \<open>The steps of publish\<close>

lemma step_finish_plain:
  "endpoint dsl ''publish'' = None \<Longrightarrow> \<not> wants_draft_only opts \<Longrightarrow>
   step_finish rt dsl cl n opts d ctx = (Inr (createResult rt dsl True [(''postId'', d)]), [])"
  by (simp add: step_finish_def)

lemma step_finish_draft_only:
  "wants_draft_only opts \<Longrightarrow>
   step_finish rt dsl cl n opts d ctx
     = (bind_result (draftUrl dsl d) (\<lambda>u.
          Inr (createResult rt dsl True
                 [(''postId'', d), (''postUrl'', u), (''draftOnly'', JBool True)])), [])"
  by (simp add: step_finish_def)

lemma step_create_draft_trace:
  "snd (step_create_draft rt dsl cl n ctx)
     = (case endpoint dsl ''create_draft'' of None \<Rightarrow> [] | Some ep \<Rightarrow> [(''create_draft'', ep, ctx)])"
  by (simp add: step_create_draft_def split: option.splits sum.splits prod.splits)

lemma step_update_draft_trace:
  "snd (step_update_draft rt dsl cl n d ctx)
     = (case endpoint dsl ''update_draft'' of
          None \<Rightarrow> []
        | Some ep \<Rightarrow> if truthy d then [(''update_draft'', ep, ctx)] else [])"
  by (simp add: step_update_draft_def split: option.splits sum.splits prod.splits)

lemma step_finish_trace:
  "snd (step_finish rt dsl cl n opts d ctx)
     = (if wants_draft_only opts then []
        else (case endpoint dsl ''publish'' of None \<Rightarrow> [] | Some ep \<Rightarrow> [(''publish'', ep, ctx)]))"
  by (simp add: step_finish_def split: option.splits sum.splits prod.splits)

text \<open>The run after the transformations, by the outcome of the draft creation.\<close>

lemma publish_try_no_create:
  "transform rt dsl cl art = Inr ctx \<Longrightarrow> endpoint dsl ''create_draft'' = None \<Longrightarrow>
   publish_try rt dsl cl n art opts = step_finish rt dsl cl n opts JUndefined ctx"
  by (simp add: publish_try_def step_create_draft_def step_update_draft_def
           split: option.splits prod.splits)

lemma publish_try_create_throws:
  "transform rt dsl cl art = Inr ctx \<Longrightarrow> endpoint dsl ''create_draft'' = Some cd \<Longrightarrow>
   executeEndpoint rt cl n cd ctx = Inl e \<Longrightarrow>
   publish_try rt dsl cl n art opts = (Inl e, [(''create_draft'', cd, ctx)])"
  by (simp add: publish_try_def step_create_draft_def)

lemma publish_try_created:
  "transform rt dsl cl art = Inr ctx \<Longrightarrow> endpoint dsl ''create_draft'' = Some cd \<Longrightarrow>
   executeEndpoint rt cl n cd ctx = Inr (data, ex) \<Longrightarrow>
   publish_try rt dsl cl n art opts
     = (case step_update_draft rt dsl cl (Suc n) (obj_get ex ''draft_id'')
               (obj_set ''draft_id'' (obj_get ex ''draft_id'') ctx) of
          (Inl e, t2) \<Rightarrow> (Inl e, (''create_draft'', cd, ctx) # t2)
        | (Inr u, t2) \<Rightarrow>
            (case step_finish rt dsl cl (Suc n + length t2) opts (obj_get ex ''draft_id'')
                    (obj_set ''draft_id'' (obj_get ex ''draft_id'') ctx) of
               (r, t3) \<Rightarrow> (r, (''create_draft'', cd, ctx) # t2 @ t3)))"
  by (simp add: publish_try_def step_create_draft_def split: sum.splits prod.splits)

text \<open>The draft id that the run has after the draft steps.\<close>

lemma publish_try_draft_id:
  assumes tr: "transform rt dsl cl art = Inr ctx"
    and res: "fst (publish_try rt dsl cl n art opts) = Inr r"
  shows "\<exists>n' ctx'. fst (step_finish rt dsl cl n' opts
            (case endpoint dsl ''create_draft'' of
               None \<Rightarrow> JUndefined
             | Some cd \<Rightarrow> (case executeEndpoint rt cl n cd ctx of
                            Inr (data, ex) \<Rightarrow> obj_get ex ''draft_id''
                          | Inl e \<Rightarrow> JUndefined)) ctx') = Inr r"
proof (cases "endpoint dsl ''create_draft''")
  case None
  with publish_try_no_create[OF tr None, of n opts] res show ?thesis by auto
next
  case (Some cd)
  show ?thesis
  proof (cases "executeEndpoint rt cl n cd ctx")
    case (Inl e)
    with publish_try_create_throws[OF tr Some Inl, of opts] res show ?thesis by simp
  next
    case (Inr pr)
    obtain data ex where pr: "pr = (data, ex)" by (cases pr)
    let ?d = "obj_get ex ''draft_id''"
    let ?ctx' = "obj_set ''draft_id'' ?d ctx"
    note pt = publish_try_created[OF tr Some Inr[unfolded pr], of opts]
    obtain u t2 where up: "step_update_draft rt dsl cl (Suc n) ?d ?ctx' = (u, t2)"
      by (cases "step_update_draft rt dsl cl (Suc n) ?d ?ctx'")
    show ?thesis
    proof (cases u)
      case (Inl e)
      with pt up res show ?thesis by simp
    next
      case (Inr uu)
      with pt up res have "fst (step_finish rt dsl cl (Suc n + length t2) opts ?d ?ctx') = Inr r"
        by (simp split: prod.splits)
      with Some \<open>executeEndpoint rt cl n cd ctx = Inr pr\<close> pr show ?thesis by auto
    qed
  qed
qed

lemma publish_never_runs_absent_publish:
  "endpoint dsl ''publish'' = None \<Longrightarrow>
   ''publish'' \<notin> fst ` set (publish_trace rt dsl cl n art opts)"
  by (auto simp: publish_trace_def publish_try_def step_create_draft_def step_update_draft_def
        step_finish_def split: sum.splits prod.splits option.splits if_splits)

text \<open>
  C3, as the code has it. For a definition without a \<open>publish\<close> endpoint, \<open>publish\<close>
  called without the draft-only option runs no publish step, and a result it returns has
  neither the \<open>draftOnly\<close> flag nor a \<open>postUrl\<close>. When the run succeeds, its result
  carries just the \<open>postId\<close>, which is the \<open>draft_id\<close> that the \<open>create_draft\<close>
  execution extracted (\<open>undefined\<close> without such an endpoint); it does succeed when the
  transformations and the draft steps return. The flag and the URL are set only when
  the caller asks for draft-only: the result then carries that draft id, the URL made of
  it, and the flag.
\<close>

theorem publish_without_publish_endpoint:
  "(endpoint dsl ''publish'' = None \<and> \<not> wants_draft_only opts \<longrightarrow>
      ''publish'' \<notin> fst ` set (publish_trace rt dsl cl n art opts)
      \<and> (\<forall>r. publish rt dsl cl n art opts = Inr r \<longrightarrow>
            obj_get r ''draftOnly'' = JUndefined \<and> obj_get r ''postUrl'' = JUndefined))
   \<and> (endpoint dsl ''publish'' = None \<and> \<not> wants_draft_only opts
        \<and> transform rt dsl cl art = Inr ctx
        \<and> fst (publish_try rt dsl cl n art opts) = Inr r \<longrightarrow>
        publish rt dsl cl n art opts = Inr r
        \<and> r = createResult rt dsl True
                [(''postId'',
                  (case endpoint dsl ''create_draft'' of
                     None \<Rightarrow> JUndefined
                   | Some cd \<Rightarrow> (case executeEndpoint rt cl n cd ctx of
                                  Inr (data, ex) \<Rightarrow> obj_get ex ''draft_id''
                                | Inl e \<Rightarrow> JUndefined)))])
   \<and> (endpoint dsl ''publish'' = None \<and> \<not> wants_draft_only opts
        \<and> transform rt dsl cl art = Inr ctx
        \<and> endpoint dsl ''create_draft'' = Some cd
        \<and> executeEndpoint rt cl n cd ctx = Inr (data, ex)
        \<and> fst (step_update_draft rt dsl cl (Suc n) (obj_get ex ''draft_id'')
                 (obj_set ''draft_id'' (obj_get ex ''draft_id'') ctx)) = Inr () \<longrightarrow>
        publish rt dsl cl n art opts
          = Inr (createResult rt dsl True [(''postId'', obj_get ex ''draft_id'')]))
   \<and> (wants_draft_only opts \<and> transform rt dsl cl art = Inr ctx
        \<and> fst (publish_try rt dsl cl n art opts) = Inr r \<longrightarrow>
        (\<exists>u. draftUrl dsl
                (case endpoint dsl ''create_draft'' of
                   None \<Rightarrow> JUndefined
                 | Some cd \<Rightarrow> (case executeEndpoint rt cl n cd ctx of
                                Inr (data, ex) \<Rightarrow> obj_get ex ''draft_id''
                              | Inl e \<Rightarrow> JUndefined)) = Inr u
           \<and> r = createResult rt dsl True
                   [(''postId'',
                     (case endpoint dsl ''create_draft'' of
                        None \<Rightarrow> JUndefined
                      | Some cd \<Rightarrow> (case executeEndpoint rt cl n cd ctx of
                                     Inr (data, ex) \<Rightarrow> obj_get ex ''draft_id''
                                   | Inl e \<Rightarrow> JUndefined))),
                    (''postUrl'', u), (''draftOnly'', JBool True)]))"
proof (intro conjI impI allI)
  assume a: "endpoint dsl ''publish'' = None \<and> \<not> wants_draft_only opts"
  then show "''publish'' \<notin> fst ` set (publish_trace rt dsl cl n art opts)"
    by (simp add: publish_never_runs_absent_publish)
  fix r
  assume p: "publish rt dsl cl n art opts = Inr r"
  have shape: "(\<exists>d. r = createResult rt dsl True [(''postId'', d)])
                \<or> (\<exists>m. r = createResult rt dsl False [(''error'', m)])"
  proof (cases "fst (publish_try rt dsl cl n art opts)")
    case (Inl e)
    with p show ?thesis by (auto simp: publish_def bind_result_def split: sum.splits)
  next
    case (Inr r')
    with p have rr: "r' = r" by (simp add: publish_def)
    obtain t where "publish_try rt dsl cl n art opts = (Inr r, t)"
      using Inr rr by (cases "publish_try rt dsl cl n art opts") simp
    then obtain n' d ctx' t3 where "step_finish rt dsl cl n' opts d ctx' = (Inr r, t3)"
      by (auto simp: publish_try_def split: sum.splits prod.splits)
    with a show ?thesis by (auto simp: step_finish_def)
  qed
  from shape show "obj_get r ''draftOnly'' = JUndefined"
    by (auto simp: createResult_def obj_spread_def obj_get_def)
  from shape show "obj_get r ''postUrl'' = JUndefined"
    by (auto simp: createResult_def obj_spread_def obj_get_def)
next
  assume a: "endpoint dsl ''publish'' = None \<and> \<not> wants_draft_only opts
        \<and> transform rt dsl cl art = Inr ctx
        \<and> fst (publish_try rt dsl cl n art opts) = Inr r"
  then show "publish rt dsl cl n art opts = Inr r" by (simp add: publish_returns)
  from a publish_try_draft_id[of rt dsl cl art ctx n opts r]
  show "r = createResult rt dsl True
                [(''postId'',
                  (case endpoint dsl ''create_draft'' of
                     None \<Rightarrow> JUndefined
                   | Some cd \<Rightarrow> (case executeEndpoint rt cl n cd ctx of
                                  Inr (data, ex) \<Rightarrow> obj_get ex ''draft_id''
                                | Inl e \<Rightarrow> JUndefined)))]"
    by (auto simp: step_finish_plain)
next
  assume a: "endpoint dsl ''publish'' = None \<and> \<not> wants_draft_only opts
        \<and> transform rt dsl cl art = Inr ctx
        \<and> endpoint dsl ''create_draft'' = Some cd
        \<and> executeEndpoint rt cl n cd ctx = Inr (data, ex)
        \<and> fst (step_update_draft rt dsl cl (Suc n) (obj_get ex ''draft_id'')
                 (obj_set ''draft_id'' (obj_get ex ''draft_id'') ctx)) = Inr ()"
  then have tr: "transform rt dsl cl art = Inr ctx"
    and cd: "endpoint dsl ''create_draft'' = Some cd"
    and x: "executeEndpoint rt cl n cd ctx = Inr (data, ex)"
    by simp_all
  obtain t2 where "step_update_draft rt dsl cl (Suc n) (obj_get ex ''draft_id'')
                 (obj_set ''draft_id'' (obj_get ex ''draft_id'') ctx) = (Inr (), t2)"
    using a by (cases "step_update_draft rt dsl cl (Suc n) (obj_get ex ''draft_id'')
                 (obj_set ''draft_id'' (obj_get ex ''draft_id'') ctx)") simp
  with publish_try_created[OF tr cd x, of opts] a
  have "fst (publish_try rt dsl cl n art opts)
          = Inr (createResult rt dsl True [(''postId'', obj_get ex ''draft_id'')])"
    by (simp add: step_finish_plain)
  then show "publish rt dsl cl n art opts
          = Inr (createResult rt dsl True [(''postId'', obj_get ex ''draft_id'')])"
    by (rule publish_returns)
next
  let ?d = "case endpoint dsl ''create_draft'' of
                   None \<Rightarrow> JUndefined
                 | Some cd \<Rightarrow> (case executeEndpoint rt cl n cd ctx of
                                Inr (data, ex) \<Rightarrow> obj_get ex ''draft_id''
                              | Inl e \<Rightarrow> JUndefined)"
  assume a: "wants_draft_only opts \<and> transform rt dsl cl art = Inr ctx
        \<and> fst (publish_try rt dsl cl n art opts) = Inr r"
  with publish_try_draft_id[of rt dsl cl art ctx n opts r]
  obtain n' ctx' where "fst (step_finish rt dsl cl n' opts ?d ctx') = Inr r" by blast
  with a have "bind_result (draftUrl dsl ?d) (\<lambda>u.
          Inr (createResult rt dsl True
                 [(''postId'', ?d), (''postUrl'', u), (''draftOnly'', JBool True)])) = Inr r"
    by (simp add: step_finish_draft_only)
  then show "\<exists>u. draftUrl dsl ?d = Inr u
           \<and> r = createResult rt dsl True
                   [(''postId'', ?d), (''postUrl'', u), (''draftOnly'', JBool True)]"
    by (cases "draftUrl dsl ?d") (auto simp: bind_result_def)
qed

theorem publish_without_publish_endpoint_witness:
  "publish (example_env True) (example_dsl draft_endpoints) no_hooks 0 example_article
     (Some \<lparr>draftOnly = Some False\<rparr>)
   = Inr [(''platform'', JStr ''demo''), (''success'', JBool True), (''timestamp'', JNum 17),
          (''postId'', JStr ''42'')]
   \<and> ''publish'' \<notin> fst ` set (publish_trace (example_env True) (example_dsl draft_endpoints)
        no_hooks 0 example_article (Some \<lparr>draftOnly = Some False\<rparr>))
   \<and> fst (publish_try (example_env True) (example_dsl draft_endpoints) no_hooks 0 example_article
        (Some \<lparr>draftOnly = Some True\<rparr>))
     = Inr [(''platform'', JStr ''demo''), (''success'', JBool True), (''timestamp'', JNum 17),
            (''postId'', JStr ''42''), (''postUrl'', JStr ''https://example.com/edit/42''),
            (''draftOnly'', JBool True)]"
proof -
  let ?rt = "example_env True"
  let ?dsl = "example_dsl draft_endpoints"
  let ?opts = "Some \<lparr>draftOnly = Some False\<rparr>"
  let ?only = "Some \<lparr>draftOnly = Some True\<rparr>"
  let ?ctx = "[(''article'', JObj [(''title'', JStr ''Hello''), (''markdown'', JStr ''# Hello''),
                                   (''content'', JStr ''<h1>Hello</h1>'')])]"
  let ?cd = "example_endpoint ''https://example.com/api/drafts''"
  let ?data = "JObj [(''code'', JNum 0), (''data'', JObj [(''id'', JStr ''42'')])]"
  let ?ex = "[(''draft_id'', JStr ''42'')]"
  have h1: "endpoint ?dsl ''publish'' = None" by code_simp
  have h2: "\<not> wants_draft_only ?opts" by (simp add: wants_draft_only_def)
  have h3: "transform ?rt ?dsl no_hooks example_article = Inr ?ctx" by code_simp
  have h4: "endpoint ?dsl ''create_draft'' = Some ?cd" by code_simp
  have h5: "executeEndpoint ?rt no_hooks 0 ?cd ?ctx = Inr (?data, ?ex)" by code_simp
  have h6: "fst (step_update_draft ?rt ?dsl no_hooks (Suc 0) (obj_get ?ex ''draft_id'')
                 (obj_set ''draft_id'' (obj_get ?ex ''draft_id'') ?ctx)) = Inr ()"
    by code_simp
  have v: "createResult ?rt ?dsl True [(''postId'', obj_get ?ex ''draft_id'')]
     = [(''platform'', JStr ''demo''), (''success'', JBool True), (''timestamp'', JNum 17),
        (''postId'', JStr ''42'')]"
    by code_simp
  note th = publish_without_publish_endpoint[where dsl = ?dsl and opts = ?opts
      and rt = ?rt and cl = no_hooks and n = 0 and art = example_article and ctx = ?ctx
      and cd = ?cd and data = ?data and ex = ?ex]
  from th h1 h2 h3 h4 h5 h6 v
  have a: "publish ?rt ?dsl no_hooks 0 example_article ?opts
     = Inr [(''platform'', JStr ''demo''), (''success'', JBool True), (''timestamp'', JNum 17),
            (''postId'', JStr ''42'')]"
    by simp
  from th h1 h2
  have b: "''publish'' \<notin> fst ` set (publish_trace ?rt ?dsl no_hooks 0 example_article ?opts)"
    by blast
  have w: "wants_draft_only ?only" by (simp add: wants_draft_only_def)
  have "\<not> isl (fst (publish_try ?rt ?dsl no_hooks 0 example_article ?only))" by code_simp
  then obtain r where r: "fst (publish_try ?rt ?dsl no_hooks 0 example_article ?only) = Inr r"
    by (cases "fst (publish_try ?rt ?dsl no_hooks 0 example_article ?only)") simp_all
  have du: "draftUrl ?dsl (JStr ''42'') = Inr (JStr ''https://example.com/edit/42'')" by code_simp
  have v2: "createResult ?rt ?dsl True
              [(''postId'', JStr ''42''), (''postUrl'', JStr ''https://example.com/edit/42''),
               (''draftOnly'', JBool True)]
     = [(''platform'', JStr ''demo''), (''success'', JBool True), (''timestamp'', JNum 17),
        (''postId'', JStr ''42''), (''postUrl'', JStr ''https://example.com/edit/42''),
        (''draftOnly'', JBool True)]"
    by code_simp
  from publish_without_publish_endpoint[where dsl = ?dsl and opts = ?only
      and rt = ?rt and cl = no_hooks and n = 0 and art = example_article and ctx = ?ctx
      and r = r] w h3 r h4 h5 du
  have "r = createResult ?rt ?dsl True
              [(''postId'', JStr ''42''), (''postUrl'', JStr ''https://example.com/edit/42''),
               (''draftOnly'', JBool True)]"
    by (simp add: obj_get_def)
  with r v2 have c: "fst (publish_try ?rt ?dsl no_hooks 0 example_article ?only)
     = Inr [(''platform'', JStr ''demo''), (''success'', JBool True), (''timestamp'', JNum 17),
            (''postId'', JStr ''42''), (''postUrl'', JStr ''https://example.com/edit/42''),
            (''draftOnly'', JBool True)]"
    by simp
  from a b c show ?thesis by blast
qed

text \<open>
  The scenario of the claim: endpoints \<open>create_draft\<close> and \<open>update_draft\<close>, a draft URL
  template, \<open>draftOnly = false\<close>. Both draft steps run and the result has neither
  \<open>draftOnly\<close> nor \<open>postUrl\<close>.
\<close>

theorem publish_without_publish_endpoint_counterexample:
  "publish (example_env True) (example_dsl draft_endpoints) no_hooks 0 example_article
     (Some \<lparr>draftOnly = Some False\<rparr>)
   = Inr [(''platform'', JStr ''demo''), (''success'', JBool True), (''timestamp'', JNum 17),
          (''postId'', JStr ''42'')]
   \<and> map fst (publish_trace (example_env True) (example_dsl draft_endpoints) no_hooks 0
        example_article (Some \<lparr>draftOnly = Some False\<rparr>))
      = [''create_draft'', ''update_draft'']
   \<and> draft_url_template (example_dsl draft_endpoints) = Some ''https://example.com/edit/{{draft_id}}''"
  by code_simp

text \<open>
  C9, as the code has it. Once the transformations have returned a context: the
  create-draft step runs exactly when the \<open>create_draft\<close> endpoint exists, with that
  context; the update-draft step runs exactly when the \<open>update_draft\<close> endpoint exists
  and the create-draft step returned a truthy \<open>draft_id\<close>, with the \<open>draft_id\<close>
  written into the context; the draft-only branch reports that \<open>draft_id\<close>; and
  without a \<open>create_draft\<close> endpoint the run goes straight to the terminal branch,
  which succeeds when there is no \<open>publish\<close> endpoint either.
\<close>

theorem draft_steps_follow_endpoints:
  "transform rt dsl cl art = Inr ctx \<longrightarrow>
     ((''create_draft'' \<in> fst ` set (publish_trace rt dsl cl n art opts))
        = (endpoint dsl ''create_draft'' \<noteq> None))
     \<and> ((''update_draft'' \<in> fst ` set (publish_trace rt dsl cl n art opts))
          = (\<exists>cd ud data ex. endpoint dsl ''create_draft'' = Some cd
               \<and> endpoint dsl ''update_draft'' = Some ud
               \<and> executeEndpoint rt cl n cd ctx = Inr (data, ex)
               \<and> truthy (obj_get ex ''draft_id'')))
     \<and> (\<forall>ep c. (''create_draft'', ep, c) \<in> set (publish_trace rt dsl cl n art opts) \<longrightarrow>
           endpoint dsl ''create_draft'' = Some ep \<and> c = ctx)
     \<and> (\<forall>ep c. (''update_draft'', ep, c) \<in> set (publish_trace rt dsl cl n art opts) \<longrightarrow>
           endpoint dsl ''update_draft'' = Some ep
           \<and> (\<exists>cd data ex. endpoint dsl ''create_draft'' = Some cd
                 \<and> executeEndpoint rt cl n cd ctx = Inr (data, ex)
                 \<and> c = obj_set ''draft_id'' (obj_get ex ''draft_id'') ctx))
     \<and> (wants_draft_only opts \<longrightarrow>
          (\<forall>r. fst (publish_try rt dsl cl n art opts) = Inr r \<longrightarrow>
             obj_get r ''postId''
               = (case endpoint dsl ''create_draft'' of
                    None \<Rightarrow> JUndefined
                  | Some cd \<Rightarrow> (case executeEndpoint rt cl n cd ctx of
                                 Inr (data, ex) \<Rightarrow> obj_get ex ''draft_id''
                               | Inl e \<Rightarrow> JUndefined))))
     \<and> (endpoint dsl ''create_draft'' = None \<longrightarrow>
          publish_try rt dsl cl n art opts = step_finish rt dsl cl n opts JUndefined ctx)
     \<and> (endpoint dsl ''create_draft'' = None \<and> endpoint dsl ''publish'' = None \<longrightarrow>
          (\<exists>r. publish rt dsl cl n art opts = Inr r \<and> obj_get r ''success'' = JBool True))"
proof
  assume tr: "transform rt dsl cl art = Inr ctx"
  let ?trace = "publish_trace rt dsl cl n art opts"
  let ?goal = "((''create_draft'' \<in> fst ` set ?trace) = (endpoint dsl ''create_draft'' \<noteq> None))
     \<and> ((''update_draft'' \<in> fst ` set ?trace)
          = (\<exists>cd ud data ex. endpoint dsl ''create_draft'' = Some cd
               \<and> endpoint dsl ''update_draft'' = Some ud
               \<and> executeEndpoint rt cl n cd ctx = Inr (data, ex)
               \<and> truthy (obj_get ex ''draft_id'')))
     \<and> (\<forall>ep c. (''create_draft'', ep, c) \<in> set ?trace \<longrightarrow>
           endpoint dsl ''create_draft'' = Some ep \<and> c = ctx)
     \<and> (\<forall>ep c. (''update_draft'', ep, c) \<in> set ?trace \<longrightarrow>
           endpoint dsl ''update_draft'' = Some ep
           \<and> (\<exists>cd data ex. endpoint dsl ''create_draft'' = Some cd
                 \<and> executeEndpoint rt cl n cd ctx = Inr (data, ex)
                 \<and> c = obj_set ''draft_id'' (obj_get ex ''draft_id'') ctx))
     \<and> (wants_draft_only opts \<longrightarrow>
          (\<forall>r. fst (publish_try rt dsl cl n art opts) = Inr r \<longrightarrow>
             obj_get r ''postId''
               = (case endpoint dsl ''create_draft'' of
                    None \<Rightarrow> JUndefined
                  | Some cd \<Rightarrow> (case executeEndpoint rt cl n cd ctx of
                                 Inr (data, ex) \<Rightarrow> obj_get ex ''draft_id''
                               | Inl e \<Rightarrow> JUndefined))))
     \<and> (endpoint dsl ''create_draft'' = None \<longrightarrow>
          publish_try rt dsl cl n art opts = step_finish rt dsl cl n opts JUndefined ctx)
     \<and> (endpoint dsl ''create_draft'' = None \<and> endpoint dsl ''publish'' = None \<longrightarrow>
          (\<exists>r. publish rt dsl cl n art opts = Inr r \<and> obj_get r ''success'' = JBool True))"
  have post: "obj_get (createResult rt dsl True
               [(''postId'', d), (''postUrl'', u), (''draftOnly'', JBool True)]) ''postId'' = d" for d u
    by (simp add: createResult_def obj_spread_def obj_get_def)
  have succ: "obj_get (createResult rt dsl True data) ''success'' = JBool True"
    if "map_of (rev data) ''success'' = None" for data
    using that by (simp add: createResult_get, simp add: obj_get_def)
  have only: "obj_get r' ''postId'' = d"
    if "wants_draft_only opts" "fst (step_finish rt dsl cl n' opts d c) = Inr r'" for r' d n' c
  proof -
    from that have "bind_result (draftUrl dsl d) (\<lambda>u.
          Inr (createResult rt dsl True
                 [(''postId'', d), (''postUrl'', u), (''draftOnly'', JBool True)])) = Inr r'"
      by (simp add: step_finish_draft_only)
    then obtain u where "r' = createResult rt dsl True
                 [(''postId'', d), (''postUrl'', u), (''draftOnly'', JBool True)]"
      by (cases "draftUrl dsl d") (auto simp: bind_result_def)
    then show ?thesis by (simp add: post)
  qed
  show ?goal
  proof (cases "endpoint dsl ''create_draft''")
    case None
    have pt: "publish_try rt dsl cl n art opts = step_finish rt dsl cl n opts JUndefined ctx"
      using tr None by (rule publish_try_no_create)
    have tr': "?trace = snd (step_finish rt dsl cl n opts JUndefined ctx)"
      by (simp add: publish_trace_def pt)
    have du: "draftUrl dsl JUndefined = Inr JUndefined"
      by (simp add: draftUrl_def split: option.splits)
    have ok: "endpoint dsl ''publish'' = None \<longrightarrow>
          (\<exists>r. publish rt dsl cl n art opts = Inr r \<and> obj_get r ''success'' = JBool True)"
      by (auto simp: publish_def pt step_finish_def succ du bind_result_def)
    have dr: "wants_draft_only opts \<longrightarrow>
          (\<forall>r. fst (publish_try rt dsl cl n art opts) = Inr r \<longrightarrow> obj_get r ''postId'' = JUndefined)"
      using only[of n JUndefined ctx] by (simp add: pt)
    show ?thesis
      using None pt ok dr
      by (auto simp: tr' step_finish_trace split: option.splits if_splits)
  next
    case (Some cd)
    show ?thesis
    proof (cases "executeEndpoint rt cl n cd ctx")
      case (Inl e)
      have pt: "publish_try rt dsl cl n art opts = (Inl e, [(''create_draft'', cd, ctx)])"
        using tr Some Inl by (rule publish_try_create_throws)
      show ?thesis
        using Some Inl by (simp add: publish_trace_def pt)
    next
      case (Inr pr)
      obtain data ex where pr: "pr = (data, ex)" by (cases pr)
      let ?d = "obj_get ex ''draft_id''"
      let ?ctx' = "obj_set ''draft_id'' ?d ctx"
      note pt = publish_try_created[OF tr Some Inr[unfolded pr], of opts]
      obtain u t2 where up: "step_update_draft rt dsl cl (Suc n) ?d ?ctx' = (u, t2)"
        by (cases "step_update_draft rt dsl cl (Suc n) ?d ?ctx'")
      have t2: "t2 = (case endpoint dsl ''update_draft'' of
                        None \<Rightarrow> []
                      | Some ep \<Rightarrow> if truthy ?d then [(''update_draft'', ep, ?ctx')] else [])"
        using step_update_draft_trace[of rt dsl cl "Suc n" ?d ?ctx'] up by simp
      show ?thesis
      proof (cases u)
        case (Inl e)
        have "publish_try rt dsl cl n art opts = (Inl e, (''create_draft'', cd, ctx) # t2)"
          using pt up Inl by simp
        then show ?thesis
          using Some Inr pr t2
          by (auto simp: publish_trace_def split: option.splits if_splits)
      next
        case (Inr uu)
        obtain r t3 where fin: "step_finish rt dsl cl (Suc n + length t2) opts ?d ?ctx' = (r, t3)"
          by (cases "step_finish rt dsl cl (Suc n + length t2) opts ?d ?ctx'")
        have t3: "t3 = (if wants_draft_only opts then []
                        else (case endpoint dsl ''publish'' of
                                None \<Rightarrow> []
                              | Some ep \<Rightarrow> [(''publish'', ep, ?ctx')]))"
          using step_finish_trace[of rt dsl cl "Suc n + length t2" opts ?d ?ctx'] fin by simp
        have whole: "publish_try rt dsl cl n art opts = (r, (''create_draft'', cd, ctx) # t2 @ t3)"
          using pt up Inr fin by simp
        have dr: "wants_draft_only opts \<Longrightarrow> r = Inr r' \<Longrightarrow> obj_get r' ''postId'' = ?d" for r'
          using fin only[of "Suc n + length t2" ?d ?ctx' r'] by simp
        show ?thesis
          using Some \<open>executeEndpoint rt cl n cd ctx = Inr pr\<close> pr t2 t3 dr
          by (auto simp: publish_trace_def whole split: option.splits if_splits)
      qed
    qed
  qed
qed

theorem draft_steps_follow_endpoints_witness:
  "''create_draft'' \<in> fst ` set (publish_trace (example_env True) (example_dsl draft_endpoints)
       no_hooks 0 example_article None)
   \<and> ''update_draft'' \<in> fst ` set (publish_trace (example_env True) (example_dsl draft_endpoints)
       no_hooks 0 example_article None)"
proof -
  let ?rt = "example_env True"
  let ?dsl = "example_dsl draft_endpoints"
  let ?ctx = "[(''article'', JObj [(''title'', JStr ''Hello''), (''markdown'', JStr ''# Hello''),
                                   (''content'', JStr ''<h1>Hello</h1>'')])]"
  let ?cd = "example_endpoint ''https://example.com/api/drafts''"
  let ?ud = "example_endpoint ''https://example.com/api/drafts/{{draft_id}}''"
  let ?data = "JObj [(''code'', JNum 0), (''data'', JObj [(''id'', JStr ''42'')])]"
  let ?ex = "[(''draft_id'', JStr ''42'')]"
  have t: "transform ?rt ?dsl no_hooks example_article = Inr ?ctx" by code_simp
  have c: "endpoint ?dsl ''create_draft'' = Some ?cd" by code_simp
  have u: "endpoint ?dsl ''update_draft'' = Some ?ud" by code_simp
  have x: "executeEndpoint ?rt no_hooks 0 ?cd ?ctx = Inr (?data, ?ex)" by code_simp
  have y: "truthy (obj_get ?ex ''draft_id'')" by code_simp
  note th = draft_steps_follow_endpoints[where rt = ?rt and dsl = ?dsl and cl = no_hooks
      and art = example_article and ctx = ?ctx and n = 0 and opts = None, rule_format, OF t]
  have a: "''create_draft'' \<in> fst ` set (publish_trace ?rt ?dsl no_hooks 0 example_article None)"
    using th c by simp
  have b: "''update_draft'' \<in> fst ` set (publish_trace ?rt ?dsl no_hooks 0 example_article None)"
    using th c u x y by blast
  from a b show ?thesis by blast
qed

text \<open>
  A definition with an \<open>update_draft\<close> endpoint and no \<open>create_draft\<close> endpoint: the
  update-draft step does not run, and the run succeeds.
\<close>

theorem draft_steps_follow_endpoints_counterexample:
  "endpoint (example_dsl [(''update_draft'', example_endpoint ''https://example.com/api/drafts/1'')])
     ''update_draft'' = Some (example_endpoint ''https://example.com/api/drafts/1'')
   \<and> publish_trace (example_env True)
       (example_dsl [(''update_draft'', example_endpoint ''https://example.com/api/drafts/1'')])
       no_hooks 0 example_article None = []
   \<and> publish (example_env True)
       (example_dsl [(''update_draft'', example_endpoint ''https://example.com/api/drafts/1'')])
       no_hooks 0 example_article None
     = Inr [(''platform'', JStr ''demo''), (''success'', JBool True), (''timestamp'', JNum 17),
            (''postId'', JUndefined)]"
  by code_simp

section \<open>Properties of definition loading\<close>

subsection \<open>Response expressions\<close>

lemma z_record_strings:
  "z_record z_string (JObj (map (\<lambda>(key, p). (key, JStr p)) paths)) = Some paths"
proof -
  have "those (map (\<lambda>(key, x). map_option (Pair key) (z_string x))
                 (map (\<lambda>(key, p). (key, JStr p)) paths)) = Some paths"
    by (induction paths) (auto simp: z_string_def)
  then show ?thesis by (simp add: z_record_def)
qed

lemma match_comparison_operator:
  "match_comparison x = Some (f, operator, c) \<Longrightarrow> operator = ''!='' \<or> operator = ''==''"
  by (auto simp: match_comparison_def Let_def split: if_splits option.splits)

text \<open>
  C7, as the code has it. Loading checks of a response expression only that it is a
  string: whatever the success expression, the error expression and the extract paths of
  an endpoint are, the endpoint is accepted once its request is. At run time
  \<open>evaluateJsonPath\<close> has no error value: an expression that matches the comparison
  pattern gives a boolean, and any other string is read as a field path.
\<close>

theorem expressions_not_validated:
  "(RequestSchema rq = Some r \<longrightarrow>
      EndpointSchema (JObj [(''request'', rq),
                            (''response'', JObj [(''success'', JStr s), (''error'', JStr e),
                               (''extract'', JObj (map (\<lambda>(key, p). (key, JStr p)) paths))])])
      = Some \<lparr>request = r,
               response = \<lparr>success = Some s, extract_map = Some paths, error = Some e\<rparr>\<rparr>)
   \<and> (match_comparison x = None \<longrightarrow> evaluateJsonPath rt x d = extractValue x d)
   \<and> (match_comparison x \<noteq> None \<longrightarrow> (\<exists>b. evaluateJsonPath rt x d = JBool b))"
proof (intro conjI impI)
  assume "RequestSchema rq = Some r"
  then show "EndpointSchema (JObj [(''request'', rq),
                            (''response'', JObj [(''success'', JStr s), (''error'', JStr e),
                               (''extract'', JObj (map (\<lambda>(key, p). (key, JStr p)) paths))])])
      = Some \<lparr>request = r,
               response = \<lparr>success = Some s, extract_map = Some paths, error = Some e\<rparr>\<rparr>"
    by (simp add: EndpointSchema_def ResponseSchema_def z_object_def obj_get_def z_optional_def
          z_string_def z_record_strings)
next
  assume "match_comparison x = None"
  then show "evaluateJsonPath rt x d = extractValue x d"
    by (simp add: evaluateJsonPath_def)
next
  assume "match_comparison x \<noteq> None"
  then obtain f operator c where m: "match_comparison x = Some (f, operator, c)"
    by (cases "match_comparison x") auto
  from match_comparison_operator[OF m] m
  show "\<exists>b. evaluateJsonPath rt x d = JBool b"
    by (auto simp: evaluateJsonPath_def Let_def)
qed

theorem expressions_not_validated_witness:
  "EndpointSchema (JObj [(''request'', JObj [(''url'', JStr ''https://example.com/api/me''),
                                             (''method'', JStr ''GET'')]),
                         (''response'', JObj [(''success'', JStr ''$.code > 0''),
                                              (''error'', JStr ''oops(''),
                                              (''extract'', JObj [(''id'', JStr ''$..[0]'')])])])
     = Some \<lparr>request = \<lparr>url = ''https://example.com/api/me'', http_method = ''GET'',
                           headers = None, content_type = None, body = None\<rparr>,
             response = \<lparr>success = Some ''$.code > 0'', extract_map = Some [(''id'', ''$..[0]'')],
                          error = Some ''oops(''\<rparr>\<rparr>
   \<and> evaluateJsonPath (example_env True) ''$.code > 0'' (JObj [(''code'', JNum 3)]) = JUndefined
   \<and> (\<exists>b. evaluateJsonPath (example_env True) ''$.code == 3'' (JObj [(''code'', JNum 3)]) = JBool b)"
proof -
  let ?rq = "JObj [(''url'', JStr ''https://example.com/api/me''), (''method'', JStr ''GET'')]"
  let ?r = "\<lparr>url = ''https://example.com/api/me'', http_method = ''GET'',
                           headers = None, content_type = None, body = None\<rparr>"
  let ?d = "JObj [(''code'', JNum 3)]"
  have h1: "RequestSchema ?rq = Some ?r" by code_simp
  have h2: "match_comparison ''$.code > 0'' = None" by code_simp
  have h3: "match_comparison ''$.code == 3'' \<noteq> None" by code_simp
  have v: "extractValue ''$.code > 0'' ?d = JUndefined" by code_simp
  have m: "map (\<lambda>(key, p). (key, JStr p)) [(''id'', ''$..[0]'')] = [(''id'', JStr ''$..[0]'')]" by simp
  from expressions_not_validated[where rq = ?rq and r = ?r and s = "''$.code > 0''" and e = "''oops(''"
      and paths = "[(''id'', ''$..[0]'')]" and x = "''$.code > 0''" and d = ?d and rt = "example_env True"] h1 h2 v m
  have a: "EndpointSchema (JObj [(''request'', ?rq),
                         (''response'', JObj [(''success'', JStr ''$.code > 0''),
                                              (''error'', JStr ''oops(''),
                                              (''extract'', JObj [(''id'', JStr ''$..[0]'')])])])
     = Some \<lparr>request = ?r,
             response = \<lparr>success = Some ''$.code > 0'', extract_map = Some [(''id'', ''$..[0]'')],
                          error = Some ''oops(''\<rparr>\<rparr>"
    and b: "evaluateJsonPath (example_env True) ''$.code > 0'' ?d = JUndefined"
    by simp_all
  from expressions_not_validated[where x = "''$.code == 3''" and d = ?d and rt = "example_env True"] h3
  have c: "\<exists>b. evaluateJsonPath (example_env True) ''$.code == 3'' ?d = JBool b" by blast
  from a b c show ?thesis by blast
qed

text \<open>
  A definition whose success expression is an ordering comparison, which the grammar of
  the specification does not have, loads.
\<close>

theorem expressions_not_validated_counterexample:
  "\<not> supported_expr ''$.code > 0''
   \<and> (case parseDSL example_parser ''odd'' of
         Inr dsl \<Rightarrow> success (response (auth_check dsl)) = Some ''$.code > 0''
       | Inl e \<Rightarrow> False)"
  by code_simp

subsection \<open>Batch loading\<close>

lemma parseDSLFiles_all_parse:
  "list_all (parses pe) fs \<Longrightarrow>
   \<exists>entries. parseDSLFiles pe fs = ([], Inr entries) \<and> length entries = length fs"
proof (induction fs)
  case Nil
  show ?case by simp
next
  case (Cons f fs)
  then obtain entries where "parseDSLFiles pe fs = ([], Inr entries)" "length entries = length fs"
    by auto
  moreover from Cons.prems obtain dsl where "parseDSL pe (content f) = Inr dsl"
    by (auto simp: parses_def split: sum.splits)
  ultimately show ?case by simp
qed

lemma parseDSLFiles_first_failure:
  "list_all (parses pe) fs \<Longrightarrow> parseDSL pe (content f) = Inl e \<Longrightarrow>
   parseDSLFiles pe (fs @ f # gs) = ([''Failed to parse DSL file: '' @ path f], Inl e)"
proof (induction fs)
  case Nil
  then show ?case by simp
next
  case (Cons g fs)
  from Cons.prems obtain dsl where "parseDSL pe (content g) = Inr dsl"
    by (auto simp: parses_def split: sum.splits)
  with Cons show ?case by simp
qed

lemma loadAdapters_fold:
  "foldl (\<lambda>(r, logged) (dsl, customLogic).
            case register (createAdapterFromDSL dsl customLogic) r of
              Inr r' \<Rightarrow> (r', logged)
            | Inl e \<Rightarrow> (r, logged @ [''Failed to load adapter '' @ name dsl @ '':'']))
     (registry, lg) adapters
   = (fst (loadAdapters register adapters registry),
      lg @ snd (loadAdapters register adapters registry))"
proof (induction adapters arbitrary: registry lg)
  case Nil
  show ?case by simp
next
  case (Cons a adapters)
  obtain dsl customLogic where a: "a = (dsl, customLogic)" by (cases a)
  show ?case
  proof (cases "register (createAdapterFromDSL dsl customLogic) registry")
    case (Inr registry')
    then show ?thesis by (simp add: a Cons loadAdapter_def)
  next
    case (Inl e)
    obtain r logged where rest: "loadAdapters register adapters registry = (r, logged)"
      by (cases "loadAdapters register adapters registry")
    with Inl show ?thesis by (simp add: a Cons loadAdapter_def)
  qed
qed

lemma loadAdapters_all:
  "loadAdapters register adapters registry
   = foldl (\<lambda>(r, logged) (dsl, customLogic).
            case register (createAdapterFromDSL dsl customLogic) r of
              Inr r' \<Rightarrow> (r', logged)
            | Inl e \<Rightarrow> (r, logged @ [''Failed to load adapter '' @ name dsl @ '':'']))
     (registry, []) adapters"
  by (simp add: loadAdapters_fold)

text \<open>
  C8, as the code has it. \<open>parseDSLFiles\<close> logs the first file that fails and throws
  its error again: the call returns no entries and the files after it are not parsed;
  when every file parses there is one entry for each. \<open>loadAdapters\<close>, which takes
  definitions without validating them, goes through the whole list: each item is
  registered in turn, and an item whose registration throws is logged and leaves the
  registry as it was.
\<close>

theorem batch_loading:
  "(list_all (parses pe) fs \<and> parseDSL pe (content f) = Inl e \<longrightarrow>
      parseDSLFiles pe (fs @ f # gs) = ([''Failed to parse DSL file: '' @ path f], Inl e))
   \<and> (list_all (parses pe) fs \<longrightarrow>
        (\<exists>entries. parseDSLFiles pe fs = ([], Inr entries) \<and> length entries = length fs))
   \<and> loadAdapters register adapters registry
       = foldl (\<lambda>(r, logged) (dsl, customLogic).
                 case register (createAdapterFromDSL dsl customLogic) r of
                   Inr r' \<Rightarrow> (r', logged)
                 | Inl e \<Rightarrow> (r, logged @ [''Failed to load adapter '' @ name dsl @ '':'']))
           (registry, []) adapters"
  using parseDSLFiles_first_failure[of pe fs f e gs] parseDSLFiles_all_parse[of pe fs]
    loadAdapters_all[of register adapters registry]
  by blast

theorem batch_loading_witness:
  "parseDSLFiles example_parser
     [\<lparr>path = ''good.yaml'', content = ''good''\<rparr>, \<lparr>path = ''bad.yaml'', content = ''bad''\<rparr>,
      \<lparr>path = ''odd.yaml'', content = ''odd''\<rparr>]
   = ([''Failed to parse DSL file: bad.yaml''], Inl ZodError)
   \<and> loadAdapters example_register
        [(example_dsl [], None), (example_dsl [], None),
         ((example_dsl [])\<lparr>name := ''other''\<rparr>, None)] []
     = ([''demo'', ''other''], [''Failed to load adapter demo:''])"
proof -
  let ?good = "\<lparr>path = ''good.yaml'', content = ''good''\<rparr>"
  let ?bad = "\<lparr>path = ''bad.yaml'', content = ''bad''\<rparr>"
  let ?odd = "\<lparr>path = ''odd.yaml'', content = ''odd''\<rparr>"
  let ?adapters = "[(example_dsl [], None), (example_dsl [], None),
             ((example_dsl [])\<lparr>name := ''other''\<rparr>, None)]"
  have h1: "list_all (parses example_parser) [?good]" by code_simp
  have h2: "parseDSL example_parser (content ?bad) = Inl ZodError" by code_simp
  have m: "''Failed to parse DSL file: '' @ path ?bad = ''Failed to parse DSL file: bad.yaml''"
    by simp
  have f: "foldl (\<lambda>(r, logged) (dsl, customLogic).
                 case example_register (createAdapterFromDSL dsl customLogic) r of
                   Inr r' \<Rightarrow> (r', logged)
                 | Inl e \<Rightarrow> (r, logged @ [''Failed to load adapter '' @ name dsl @ '':'']))
             ([], []) ?adapters
           = ([''demo'', ''other''], [''Failed to load adapter demo:''])"
    by code_simp
  from batch_loading[where pe = example_parser and fs = "[?good]" and f = ?bad and e = ZodError
      and gs = "[?odd]" and register = example_register and adapters = ?adapters
      and registry = "[]"] h1 h2 m f
  show ?thesis by simp
qed

text \<open>
  Two files, the first invalid, the second valid: the call throws and the valid
  definition is not returned.
\<close>

theorem batch_loading_counterexample:
  "parseDSLFiles example_parser
     [\<lparr>path = ''bad.yaml'', content = ''bad''\<rparr>, \<lparr>path = ''good.yaml'', content = ''good''\<rparr>]
   = ([''Failed to parse DSL file: bad.yaml''], Inl ZodError)
   \<and> parses example_parser \<lparr>path = ''good.yaml'', content = ''good''\<rparr>"
proof -
  let ?files = "[\<lparr>path = ''bad.yaml'', content = ''bad''\<rparr>,
                 \<lparr>path = ''good.yaml'', content = ''good''\<rparr>]"
  have bad: "parseDSL example_parser ''bad'' = Inl ZodError" by code_simp
  have good: "parses example_parser \<lparr>path = ''good.yaml'', content = ''good''\<rparr>" by code_simp
  from bad have "parseDSLFiles example_parser ?files
     = ([''Failed to parse DSL file: bad.yaml''], Inl ZodError)"
    by simp
  with good show ?thesis by simp
qed

end
